theory Spec2Isabelle
  imports Main "HOL-Library.Word"
begin

unbundle bit_operations_syntax

section \<open>Machine words and the math/bits primitives\<close>

type_synonym u64 = "64 word"
type_synonym u8 = "8 word"

text \<open>
  Go's \<open>bits.Add64(x, y, carry)\<close>: the 64-bit sum with wrap-around and the carry out
  (0 or 1).
\<close>

definition Add64 :: "u64 \<Rightarrow> u64 \<Rightarrow> u64 \<Rightarrow> u64 \<times> u64" where
  "Add64 x y carry =
     (x + y + carry, if 2 ^ 64 \<le> unat x + unat y + unat carry then 1 else 0)"

text \<open>
  Go's \<open>bits.Sub64(x, y, borrow)\<close>: the 64-bit difference with wrap-around and the
  borrow out (0 or 1).
\<close>

definition Sub64 :: "u64 \<Rightarrow> u64 \<Rightarrow> u64 \<Rightarrow> u64 \<times> u64" where
  "Sub64 x y borrow =
     (x - y - borrow, if unat x < unat y + unat borrow then 1 else 0)"

text \<open>Go's \<open>bits.Mul64(x, y)\<close>: the 128-bit product as (high word, low word).\<close>

definition Mul64 :: "u64 \<Rightarrow> u64 \<Rightarrow> u64 \<times> u64" where
  "Mul64 x y = (word_of_nat (unat x * unat y div 2 ^ 64), x * y)"

text \<open>\<open>subtle.ConstantTimeCompare\<close> and \<open>subtle.ConstantTimeByteEq\<close>: 1 on equality, else 0.\<close>

definition ConstantTimeCompare :: "u8 list \<Rightarrow> u8 list \<Rightarrow> int" where
  "ConstantTimeCompare x y = (if x = y then 1 else 0)"

definition ConstantTimeByteEq :: "u8 \<Rightarrow> u8 \<Rightarrow> int" where
  "ConstantTimeByteEq x y = (if x = y then 1 else 0)"

section \<open>Field elements: four 64-bit limbs, little-endian, Montgomery form\<close>

datatype Element = Elem (limb0: u64) (limb1: u64) (limb2: u64) (limb3: u64)

definition ElementLength :: nat where
  "ElementLength = 32"

text \<open>The zero value of \<open>Element\<close>, what \<open>new(Element)\<close> points to.\<close>

definition new_Element :: Element where
  "new_Element = Elem 0 0 0 0"

definition cmovznz :: "u64 \<Rightarrow> u64 \<Rightarrow> u64 \<Rightarrow> u64" where
  "cmovznz arg1 arg2 arg3 = (
    let x1 = arg1 * 0xffffffffffffffff
    in (x1 AND arg3) OR ((NOT x1) AND arg2))"

definition Add :: "Element \<Rightarrow> Element \<Rightarrow> Element" where
  "Add t1 t2 = (
    let (x1, x2) = Add64 (limb0 t1) (limb0 t2) 0;
        (x3, x4) = Add64 (limb1 t1) (limb1 t2) x2;
        (x5, x6) = Add64 (limb2 t1) (limb2 t2) x4;
        (x7, x8) = Add64 (limb3 t1) (limb3 t2) x6;
        (x9, x10) = Sub64 x1 0xfffffffefffffc2f 0;
        (x11, x12) = Sub64 x3 0xffffffffffffffff x10;
        (x13, x14) = Sub64 x5 0xffffffffffffffff x12;
        (x15, x16) = Sub64 x7 0xffffffffffffffff x14;
        (_, x18) = Sub64 x8 0 x16;
        x19 = cmovznz x18 x9 x1;
        x20 = cmovznz x18 x11 x3;
        x21 = cmovznz x18 x13 x5;
        x22 = cmovznz x18 x15 x7
    in Elem x19 x20 x21 x22)"

definition Sub :: "Element \<Rightarrow> Element \<Rightarrow> Element" where
  "Sub t1 t2 = (
    let (x1, x2) = Sub64 (limb0 t1) (limb0 t2) 0;
        (x3, x4) = Sub64 (limb1 t1) (limb1 t2) x2;
        (x5, x6) = Sub64 (limb2 t1) (limb2 t2) x4;
        (x7, x8) = Sub64 (limb3 t1) (limb3 t2) x6;
        x9 = cmovznz x8 0 0xffffffffffffffff;
        (x10, x11) = Add64 x1 (x9 AND 0xfffffffefffffc2f) 0;
        (x12, x13) = Add64 x3 x9 x11;
        (x14, x15) = Add64 x5 x9 x13;
        (x16, _) = Add64 x7 x9 x15
    in Elem x10 x12 x14 x16)"

definition Mul :: "Element \<Rightarrow> Element \<Rightarrow> Element" where
  "Mul t1 t2 = (
    let x1 = limb1 t1;
        x2 = limb2 t1;
        x3 = limb3 t1;
        x4 = limb0 t1;
        (x6, x5) = Mul64 x4 (limb3 t2);
        (x8, x7) = Mul64 x4 (limb2 t2);
        (x10, x9) = Mul64 x4 (limb1 t2);
        (x12, x11) = Mul64 x4 (limb0 t2);
        (x13, x14) = Add64 x12 x9 0;
        (x15, x16) = Add64 x10 x7 x14;
        (x17, x18) = Add64 x8 x5 x16;
        x19 = x18 + x6;
        (_, x20) = Mul64 x11 0xd838091dd2253531;
        (x23, x22) = Mul64 x20 0xffffffffffffffff;
        (x25, x24) = Mul64 x20 0xffffffffffffffff;
        (x27, x26) = Mul64 x20 0xffffffffffffffff;
        (x29, x28) = Mul64 x20 0xfffffffefffffc2f;
        (x30, x31) = Add64 x29 x26 0;
        (x32, x33) = Add64 x27 x24 x31;
        (x34, x35) = Add64 x25 x22 x33;
        x36 = x35 + x23;
        (_, x38) = Add64 x11 x28 0;
        (x39, x40) = Add64 x13 x30 x38;
        (x41, x42) = Add64 x15 x32 x40;
        (x43, x44) = Add64 x17 x34 x42;
        (x45, x46) = Add64 x19 x36 x44;
        (x48, x47) = Mul64 x1 (limb3 t2);
        (x50, x49) = Mul64 x1 (limb2 t2);
        (x52, x51) = Mul64 x1 (limb1 t2);
        (x54, x53) = Mul64 x1 (limb0 t2);
        (x55, x56) = Add64 x54 x51 0;
        (x57, x58) = Add64 x52 x49 x56;
        (x59, x60) = Add64 x50 x47 x58;
        x61 = x60 + x48;
        (x62, x63) = Add64 x39 x53 0;
        (x64, x65) = Add64 x41 x55 x63;
        (x66, x67) = Add64 x43 x57 x65;
        (x68, x69) = Add64 x45 x59 x67;
        (x70, x71) = Add64 x46 x61 x69;
        (_, x72) = Mul64 x62 0xd838091dd2253531;
        (x75, x74) = Mul64 x72 0xffffffffffffffff;
        (x77, x76) = Mul64 x72 0xffffffffffffffff;
        (x79, x78) = Mul64 x72 0xffffffffffffffff;
        (x81, x80) = Mul64 x72 0xfffffffefffffc2f;
        (x82, x83) = Add64 x81 x78 0;
        (x84, x85) = Add64 x79 x76 x83;
        (x86, x87) = Add64 x77 x74 x85;
        x88 = x87 + x75;
        (_, x90) = Add64 x62 x80 0;
        (x91, x92) = Add64 x64 x82 x90;
        (x93, x94) = Add64 x66 x84 x92;
        (x95, x96) = Add64 x68 x86 x94;
        (x97, x98) = Add64 x70 x88 x96;
        x99 = x98 + x71;
        (x101, x100) = Mul64 x2 (limb3 t2);
        (x103, x102) = Mul64 x2 (limb2 t2);
        (x105, x104) = Mul64 x2 (limb1 t2);
        (x107, x106) = Mul64 x2 (limb0 t2);
        (x108, x109) = Add64 x107 x104 0;
        (x110, x111) = Add64 x105 x102 x109;
        (x112, x113) = Add64 x103 x100 x111;
        x114 = x113 + x101;
        (x115, x116) = Add64 x91 x106 0;
        (x117, x118) = Add64 x93 x108 x116;
        (x119, x120) = Add64 x95 x110 x118;
        (x121, x122) = Add64 x97 x112 x120;
        (x123, x124) = Add64 x99 x114 x122;
        (_, x125) = Mul64 x115 0xd838091dd2253531;
        (x128, x127) = Mul64 x125 0xffffffffffffffff;
        (x130, x129) = Mul64 x125 0xffffffffffffffff;
        (x132, x131) = Mul64 x125 0xffffffffffffffff;
        (x134, x133) = Mul64 x125 0xfffffffefffffc2f;
        (x135, x136) = Add64 x134 x131 0;
        (x137, x138) = Add64 x132 x129 x136;
        (x139, x140) = Add64 x130 x127 x138;
        x141 = x140 + x128;
        (_, x143) = Add64 x115 x133 0;
        (x144, x145) = Add64 x117 x135 x143;
        (x146, x147) = Add64 x119 x137 x145;
        (x148, x149) = Add64 x121 x139 x147;
        (x150, x151) = Add64 x123 x141 x149;
        x152 = x151 + x124;
        (x154, x153) = Mul64 x3 (limb3 t2);
        (x156, x155) = Mul64 x3 (limb2 t2);
        (x158, x157) = Mul64 x3 (limb1 t2);
        (x160, x159) = Mul64 x3 (limb0 t2);
        (x161, x162) = Add64 x160 x157 0;
        (x163, x164) = Add64 x158 x155 x162;
        (x165, x166) = Add64 x156 x153 x164;
        x167 = x166 + x154;
        (x168, x169) = Add64 x144 x159 0;
        (x170, x171) = Add64 x146 x161 x169;
        (x172, x173) = Add64 x148 x163 x171;
        (x174, x175) = Add64 x150 x165 x173;
        (x176, x177) = Add64 x152 x167 x175;
        (_, x178) = Mul64 x168 0xd838091dd2253531;
        (x181, x180) = Mul64 x178 0xffffffffffffffff;
        (x183, x182) = Mul64 x178 0xffffffffffffffff;
        (x185, x184) = Mul64 x178 0xffffffffffffffff;
        (x187, x186) = Mul64 x178 0xfffffffefffffc2f;
        (x188, x189) = Add64 x187 x184 0;
        (x190, x191) = Add64 x185 x182 x189;
        (x192, x193) = Add64 x183 x180 x191;
        x194 = x193 + x181;
        (_, x196) = Add64 x168 x186 0;
        (x197, x198) = Add64 x170 x188 x196;
        (x199, x200) = Add64 x172 x190 x198;
        (x201, x202) = Add64 x174 x192 x200;
        (x203, x204) = Add64 x176 x194 x202;
        x205 = x204 + x177;
        (x206, x207) = Sub64 x197 0xfffffffefffffc2f 0;
        (x208, x209) = Sub64 x199 0xffffffffffffffff x207;
        (x210, x211) = Sub64 x201 0xffffffffffffffff x209;
        (x212, x213) = Sub64 x203 0xffffffffffffffff x211;
        (_, x215) = Sub64 x205 0 x213;
        x216 = cmovznz x215 x206 x197;
        x217 = cmovznz x215 x208 x199;
        x218 = cmovznz x215 x210 x201;
        x219 = cmovznz x215 x212 x203
    in Elem x216 x217 x218 x219)"

definition Square :: "Element \<Rightarrow> Element" where
  "Square t = (
    let x1 = limb1 t;
        x2 = limb2 t;
        x3 = limb3 t;
        x4 = limb0 t;
        (x6, x5) = Mul64 x4 (limb3 t);
        (x8, x7) = Mul64 x4 (limb2 t);
        (x10, x9) = Mul64 x4 (limb1 t);
        (x12, x11) = Mul64 x4 (limb0 t);
        (x13, x14) = Add64 x12 x9 0;
        (x15, x16) = Add64 x10 x7 x14;
        (x17, x18) = Add64 x8 x5 x16;
        x19 = x18 + x6;
        (_, x20) = Mul64 x11 0xd838091dd2253531;
        (x23, x22) = Mul64 x20 0xffffffffffffffff;
        (x25, x24) = Mul64 x20 0xffffffffffffffff;
        (x27, x26) = Mul64 x20 0xffffffffffffffff;
        (x29, x28) = Mul64 x20 0xfffffffefffffc2f;
        (x30, x31) = Add64 x29 x26 0;
        (x32, x33) = Add64 x27 x24 x31;
        (x34, x35) = Add64 x25 x22 x33;
        x36 = x35 + x23;
        (_, x38) = Add64 x11 x28 0;
        (x39, x40) = Add64 x13 x30 x38;
        (x41, x42) = Add64 x15 x32 x40;
        (x43, x44) = Add64 x17 x34 x42;
        (x45, x46) = Add64 x19 x36 x44;
        (x48, x47) = Mul64 x1 (limb3 t);
        (x50, x49) = Mul64 x1 (limb2 t);
        (x52, x51) = Mul64 x1 (limb1 t);
        (x54, x53) = Mul64 x1 (limb0 t);
        (x55, x56) = Add64 x54 x51 0;
        (x57, x58) = Add64 x52 x49 x56;
        (x59, x60) = Add64 x50 x47 x58;
        x61 = x60 + x48;
        (x62, x63) = Add64 x39 x53 0;
        (x64, x65) = Add64 x41 x55 x63;
        (x66, x67) = Add64 x43 x57 x65;
        (x68, x69) = Add64 x45 x59 x67;
        (x70, x71) = Add64 x46 x61 x69;
        (_, x72) = Mul64 x62 0xd838091dd2253531;
        (x75, x74) = Mul64 x72 0xffffffffffffffff;
        (x77, x76) = Mul64 x72 0xffffffffffffffff;
        (x79, x78) = Mul64 x72 0xffffffffffffffff;
        (x81, x80) = Mul64 x72 0xfffffffefffffc2f;
        (x82, x83) = Add64 x81 x78 0;
        (x84, x85) = Add64 x79 x76 x83;
        (x86, x87) = Add64 x77 x74 x85;
        x88 = x87 + x75;
        (_, x90) = Add64 x62 x80 0;
        (x91, x92) = Add64 x64 x82 x90;
        (x93, x94) = Add64 x66 x84 x92;
        (x95, x96) = Add64 x68 x86 x94;
        (x97, x98) = Add64 x70 x88 x96;
        x99 = x98 + x71;
        (x101, x100) = Mul64 x2 (limb3 t);
        (x103, x102) = Mul64 x2 (limb2 t);
        (x105, x104) = Mul64 x2 (limb1 t);
        (x107, x106) = Mul64 x2 (limb0 t);
        (x108, x109) = Add64 x107 x104 0;
        (x110, x111) = Add64 x105 x102 x109;
        (x112, x113) = Add64 x103 x100 x111;
        x114 = x113 + x101;
        (x115, x116) = Add64 x91 x106 0;
        (x117, x118) = Add64 x93 x108 x116;
        (x119, x120) = Add64 x95 x110 x118;
        (x121, x122) = Add64 x97 x112 x120;
        (x123, x124) = Add64 x99 x114 x122;
        (_, x125) = Mul64 x115 0xd838091dd2253531;
        (x128, x127) = Mul64 x125 0xffffffffffffffff;
        (x130, x129) = Mul64 x125 0xffffffffffffffff;
        (x132, x131) = Mul64 x125 0xffffffffffffffff;
        (x134, x133) = Mul64 x125 0xfffffffefffffc2f;
        (x135, x136) = Add64 x134 x131 0;
        (x137, x138) = Add64 x132 x129 x136;
        (x139, x140) = Add64 x130 x127 x138;
        x141 = x140 + x128;
        (_, x143) = Add64 x115 x133 0;
        (x144, x145) = Add64 x117 x135 x143;
        (x146, x147) = Add64 x119 x137 x145;
        (x148, x149) = Add64 x121 x139 x147;
        (x150, x151) = Add64 x123 x141 x149;
        x152 = x151 + x124;
        (x154, x153) = Mul64 x3 (limb3 t);
        (x156, x155) = Mul64 x3 (limb2 t);
        (x158, x157) = Mul64 x3 (limb1 t);
        (x160, x159) = Mul64 x3 (limb0 t);
        (x161, x162) = Add64 x160 x157 0;
        (x163, x164) = Add64 x158 x155 x162;
        (x165, x166) = Add64 x156 x153 x164;
        x167 = x166 + x154;
        (x168, x169) = Add64 x144 x159 0;
        (x170, x171) = Add64 x146 x161 x169;
        (x172, x173) = Add64 x148 x163 x171;
        (x174, x175) = Add64 x150 x165 x173;
        (x176, x177) = Add64 x152 x167 x175;
        (_, x178) = Mul64 x168 0xd838091dd2253531;
        (x181, x180) = Mul64 x178 0xffffffffffffffff;
        (x183, x182) = Mul64 x178 0xffffffffffffffff;
        (x185, x184) = Mul64 x178 0xffffffffffffffff;
        (x187, x186) = Mul64 x178 0xfffffffefffffc2f;
        (x188, x189) = Add64 x187 x184 0;
        (x190, x191) = Add64 x185 x182 x189;
        (x192, x193) = Add64 x183 x180 x191;
        x194 = x193 + x181;
        (_, x196) = Add64 x168 x186 0;
        (x197, x198) = Add64 x170 x188 x196;
        (x199, x200) = Add64 x172 x190 x198;
        (x201, x202) = Add64 x174 x192 x200;
        (x203, x204) = Add64 x176 x194 x202;
        x205 = x204 + x177;
        (x206, x207) = Sub64 x197 0xfffffffefffffc2f 0;
        (x208, x209) = Sub64 x199 0xffffffffffffffff x207;
        (x210, x211) = Sub64 x201 0xffffffffffffffff x209;
        (x212, x213) = Sub64 x203 0xffffffffffffffff x211;
        (_, x215) = Sub64 x205 0 x213;
        x216 = cmovznz x215 x206 x197;
        x217 = cmovznz x215 x208 x199;
        x218 = cmovznz x215 x210 x201;
        x219 = cmovznz x215 x212 x203
    in Elem x216 x217 x218 x219)"

definition fromMontgomery :: "Element \<Rightarrow> Element" where
  "fromMontgomery arg1 = (
    let x1 = limb0 arg1;
        (_, x2) = Mul64 x1 0xd838091dd2253531;
        (x5, x4) = Mul64 x2 0xffffffffffffffff;
        (x7, x6) = Mul64 x2 0xffffffffffffffff;
        (x9, x8) = Mul64 x2 0xffffffffffffffff;
        (x11, x10) = Mul64 x2 0xfffffffefffffc2f;
        (x12, x13) = Add64 x11 x8 0;
        (x14, x15) = Add64 x9 x6 x13;
        (x16, x17) = Add64 x7 x4 x15;
        (_, x19) = Add64 x1 x10 0;
        (x20, x21) = Add64 0 x12 x19;
        (x22, x23) = Add64 0 x14 x21;
        (x24, x25) = Add64 0 x16 x23;
        (x26, x27) = Add64 0 (x17 + x5) x25;
        (x28, x29) = Add64 x20 (limb1 arg1) 0;
        (x30, x31) = Add64 x22 0 x29;
        (x32, x33) = Add64 x24 0 x31;
        (x34, x35) = Add64 x26 0 x33;
        (_, x36) = Mul64 x28 0xd838091dd2253531;
        (x39, x38) = Mul64 x36 0xffffffffffffffff;
        (x41, x40) = Mul64 x36 0xffffffffffffffff;
        (x43, x42) = Mul64 x36 0xffffffffffffffff;
        (x45, x44) = Mul64 x36 0xfffffffefffffc2f;
        (x46, x47) = Add64 x45 x42 0;
        (x48, x49) = Add64 x43 x40 x47;
        (x50, x51) = Add64 x41 x38 x49;
        (_, x53) = Add64 x28 x44 0;
        (x54, x55) = Add64 x30 x46 x53;
        (x56, x57) = Add64 x32 x48 x55;
        (x58, x59) = Add64 x34 x50 x57;
        (x60, x61) = Add64 (x35 + x27) (x51 + x39) x59;
        (x62, x63) = Add64 x54 (limb2 arg1) 0;
        (x64, x65) = Add64 x56 0 x63;
        (x66, x67) = Add64 x58 0 x65;
        (x68, x69) = Add64 x60 0 x67;
        (_, x70) = Mul64 x62 0xd838091dd2253531;
        (x73, x72) = Mul64 x70 0xffffffffffffffff;
        (x75, x74) = Mul64 x70 0xffffffffffffffff;
        (x77, x76) = Mul64 x70 0xffffffffffffffff;
        (x79, x78) = Mul64 x70 0xfffffffefffffc2f;
        (x80, x81) = Add64 x79 x76 0;
        (x82, x83) = Add64 x77 x74 x81;
        (x84, x85) = Add64 x75 x72 x83;
        (_, x87) = Add64 x62 x78 0;
        (x88, x89) = Add64 x64 x80 x87;
        (x90, x91) = Add64 x66 x82 x89;
        (x92, x93) = Add64 x68 x84 x91;
        (x94, x95) = Add64 (x69 + x61) (x85 + x73) x93;
        (x96, x97) = Add64 x88 (limb3 arg1) 0;
        (x98, x99) = Add64 x90 0 x97;
        (x100, x101) = Add64 x92 0 x99;
        (x102, x103) = Add64 x94 0 x101;
        (_, x104) = Mul64 x96 0xd838091dd2253531;
        (x107, x106) = Mul64 x104 0xffffffffffffffff;
        (x109, x108) = Mul64 x104 0xffffffffffffffff;
        (x111, x110) = Mul64 x104 0xffffffffffffffff;
        (x113, x112) = Mul64 x104 0xfffffffefffffc2f;
        (x114, x115) = Add64 x113 x110 0;
        (x116, x117) = Add64 x111 x108 x115;
        (x118, x119) = Add64 x109 x106 x117;
        (_, x121) = Add64 x96 x112 0;
        (x122, x123) = Add64 x98 x114 x121;
        (x124, x125) = Add64 x100 x116 x123;
        (x126, x127) = Add64 x102 x118 x125;
        (x128, x129) = Add64 (x103 + x95) (x119 + x107) x127;
        (x130, x131) = Sub64 x122 0xfffffffefffffc2f 0;
        (x132, x133) = Sub64 x124 0xffffffffffffffff x131;
        (x134, x135) = Sub64 x126 0xffffffffffffffff x133;
        (x136, x137) = Sub64 x128 0xffffffffffffffff x135;
        (_, x139) = Sub64 x129 0 x137
    in Elem (cmovznz x139 x130 x122) (cmovznz x139 x132 x124) (cmovznz x139 x134 x126) (cmovznz x139 x136 x128))"

definition toMontgomery :: "Element \<Rightarrow> Element" where
  "toMontgomery arg1 = (
    let x1 = limb1 arg1;
        x2 = limb2 arg1;
        x3 = limb3 arg1;
        x4 = limb0 arg1;
        (x6, x5) = Mul64 x4 0x7a2000e90a1;
        (x7, x8) = Add64 x6 x4 0;
        (_, x9) = Mul64 x5 0xd838091dd2253531;
        (x12, x11) = Mul64 x9 0xffffffffffffffff;
        (x14, x13) = Mul64 x9 0xffffffffffffffff;
        (x16, x15) = Mul64 x9 0xffffffffffffffff;
        (x18, x17) = Mul64 x9 0xfffffffefffffc2f;
        (x19, x20) = Add64 x18 x15 0;
        (x21, x22) = Add64 x16 x13 x20;
        (x23, x24) = Add64 x14 x11 x22;
        (_, x26) = Add64 x5 x17 0;
        (x27, x28) = Add64 x7 x19 x26;
        (x29, x30) = Add64 x8 x21 x28;
        (x31, x32) = Add64 0 x23 x30;
        (x33, x34) = Add64 0 (x24 + x12) x32;
        (x36, x35) = Mul64 x1 0x7a2000e90a1;
        (x37, x38) = Add64 x36 x1 0;
        (x39, x40) = Add64 x27 x35 0;
        (x41, x42) = Add64 x29 x37 x40;
        (x43, x44) = Add64 x31 x38 x42;
        (x45, x46) = Add64 x33 0 x44;
        (_, x47) = Mul64 x39 0xd838091dd2253531;
        (x50, x49) = Mul64 x47 0xffffffffffffffff;
        (x52, x51) = Mul64 x47 0xffffffffffffffff;
        (x54, x53) = Mul64 x47 0xffffffffffffffff;
        (x56, x55) = Mul64 x47 0xfffffffefffffc2f;
        (x57, x58) = Add64 x56 x53 0;
        (x59, x60) = Add64 x54 x51 x58;
        (x61, x62) = Add64 x52 x49 x60;
        (_, x64) = Add64 x39 x55 0;
        (x65, x66) = Add64 x41 x57 x64;
        (x67, x68) = Add64 x43 x59 x66;
        (x69, x70) = Add64 x45 x61 x68;
        (x71, x72) = Add64 (x46 + x34) (x62 + x50) x70;
        (x74, x73) = Mul64 x2 0x7a2000e90a1;
        (x75, x76) = Add64 x74 x2 0;
        (x77, x78) = Add64 x65 x73 0;
        (x79, x80) = Add64 x67 x75 x78;
        (x81, x82) = Add64 x69 x76 x80;
        (x83, x84) = Add64 x71 0 x82;
        (_, x85) = Mul64 x77 0xd838091dd2253531;
        (x88, x87) = Mul64 x85 0xffffffffffffffff;
        (x90, x89) = Mul64 x85 0xffffffffffffffff;
        (x92, x91) = Mul64 x85 0xffffffffffffffff;
        (x94, x93) = Mul64 x85 0xfffffffefffffc2f;
        (x95, x96) = Add64 x94 x91 0;
        (x97, x98) = Add64 x92 x89 x96;
        (x99, x100) = Add64 x90 x87 x98;
        (_, x102) = Add64 x77 x93 0;
        (x103, x104) = Add64 x79 x95 x102;
        (x105, x106) = Add64 x81 x97 x104;
        (x107, x108) = Add64 x83 x99 x106;
        (x109, x110) = Add64 (x84 + x72) (x100 + x88) x108;
        (x112, x111) = Mul64 x3 0x7a2000e90a1;
        (x113, x114) = Add64 x112 x3 0;
        (x115, x116) = Add64 x103 x111 0;
        (x117, x118) = Add64 x105 x113 x116;
        (x119, x120) = Add64 x107 x114 x118;
        (x121, x122) = Add64 x109 0 x120;
        (_, x123) = Mul64 x115 0xd838091dd2253531;
        (x126, x125) = Mul64 x123 0xffffffffffffffff;
        (x128, x127) = Mul64 x123 0xffffffffffffffff;
        (x130, x129) = Mul64 x123 0xffffffffffffffff;
        (x132, x131) = Mul64 x123 0xfffffffefffffc2f;
        (x133, x134) = Add64 x132 x129 0;
        (x135, x136) = Add64 x130 x127 x134;
        (x137, x138) = Add64 x128 x125 x136;
        (_, x140) = Add64 x115 x131 0;
        (x141, x142) = Add64 x117 x133 x140;
        (x143, x144) = Add64 x119 x135 x142;
        (x145, x146) = Add64 x121 x137 x144;
        (x147, x148) = Add64 (x122 + x110) (x138 + x126) x146;
        (x149, x150) = Sub64 x141 0xfffffffefffffc2f 0;
        (x151, x152) = Sub64 x143 0xffffffffffffffff x150;
        (x153, x154) = Sub64 x145 0xffffffffffffffff x152;
        (x155, x156) = Sub64 x147 0xffffffffffffffff x154;
        (_, x158) = Sub64 x148 0 x156
    in Elem (cmovznz x158 x149 x141) (cmovznz x158 x151 x143) (cmovznz x158 x153 x145) (cmovznz x158 x155 x147))"

definition toBytes :: "Element \<Rightarrow> 8 word list" where
  "toBytes arg1 = (
    let x1 = limb3 arg1;
        x2 = limb2 arg1;
        x3 = limb1 arg1;
        x4 = limb0 arg1;
        x5 = (ucast x4 :: 8 word) AND 0xff;
        x6 = drop_bit 8 x4;
        x7 = (ucast x6 :: 8 word) AND 0xff;
        x8 = drop_bit 8 x6;
        x9 = (ucast x8 :: 8 word) AND 0xff;
        x10 = drop_bit 8 x8;
        x11 = (ucast x10 :: 8 word) AND 0xff;
        x12 = drop_bit 8 x10;
        x13 = (ucast x12 :: 8 word) AND 0xff;
        x14 = drop_bit 8 x12;
        x15 = (ucast x14 :: 8 word) AND 0xff;
        x16 = drop_bit 8 x14;
        x17 = (ucast x16 :: 8 word) AND 0xff;
        x18 = (ucast (drop_bit 8 x16) :: 8 word);
        x19 = (ucast x3 :: 8 word) AND 0xff;
        x20 = drop_bit 8 x3;
        x21 = (ucast x20 :: 8 word) AND 0xff;
        x22 = drop_bit 8 x20;
        x23 = (ucast x22 :: 8 word) AND 0xff;
        x24 = drop_bit 8 x22;
        x25 = (ucast x24 :: 8 word) AND 0xff;
        x26 = drop_bit 8 x24;
        x27 = (ucast x26 :: 8 word) AND 0xff;
        x28 = drop_bit 8 x26;
        x29 = (ucast x28 :: 8 word) AND 0xff;
        x30 = drop_bit 8 x28;
        x31 = (ucast x30 :: 8 word) AND 0xff;
        x32 = (ucast (drop_bit 8 x30) :: 8 word);
        x33 = (ucast x2 :: 8 word) AND 0xff;
        x34 = drop_bit 8 x2;
        x35 = (ucast x34 :: 8 word) AND 0xff;
        x36 = drop_bit 8 x34;
        x37 = (ucast x36 :: 8 word) AND 0xff;
        x38 = drop_bit 8 x36;
        x39 = (ucast x38 :: 8 word) AND 0xff;
        x40 = drop_bit 8 x38;
        x41 = (ucast x40 :: 8 word) AND 0xff;
        x42 = drop_bit 8 x40;
        x43 = (ucast x42 :: 8 word) AND 0xff;
        x44 = drop_bit 8 x42;
        x45 = (ucast x44 :: 8 word) AND 0xff;
        x46 = (ucast (drop_bit 8 x44) :: 8 word);
        x47 = (ucast x1 :: 8 word) AND 0xff;
        x48 = drop_bit 8 x1;
        x49 = (ucast x48 :: 8 word) AND 0xff;
        x50 = drop_bit 8 x48;
        x51 = (ucast x50 :: 8 word) AND 0xff;
        x52 = drop_bit 8 x50;
        x53 = (ucast x52 :: 8 word) AND 0xff;
        x54 = drop_bit 8 x52;
        x55 = (ucast x54 :: 8 word) AND 0xff;
        x56 = drop_bit 8 x54;
        x57 = (ucast x56 :: 8 word) AND 0xff;
        x58 = drop_bit 8 x56;
        x59 = (ucast x58 :: 8 word) AND 0xff;
        x60 = (ucast (drop_bit 8 x58) :: 8 word)
    in [x5, x7, x9, x11, x13, x15, x17, x18, x19, x21, x23, x25, x27, x29, x31, x32, x33, x35, x37, x39, x41, x43, x45, x46, x47, x49, x51, x53, x55, x57, x59, x60])"

definition fromBytes :: "8 word list \<Rightarrow> Element" where
  "fromBytes arg1 = (
    let x1 = push_bit 56 (ucast (arg1 ! 31) :: 64 word);
        x2 = push_bit 48 (ucast (arg1 ! 30) :: 64 word);
        x3 = push_bit 40 (ucast (arg1 ! 29) :: 64 word);
        x4 = push_bit 32 (ucast (arg1 ! 28) :: 64 word);
        x5 = push_bit 24 (ucast (arg1 ! 27) :: 64 word);
        x6 = push_bit 16 (ucast (arg1 ! 26) :: 64 word);
        x7 = push_bit 8 (ucast (arg1 ! 25) :: 64 word);
        x8 = arg1 ! 24;
        x9 = push_bit 56 (ucast (arg1 ! 23) :: 64 word);
        x10 = push_bit 48 (ucast (arg1 ! 22) :: 64 word);
        x11 = push_bit 40 (ucast (arg1 ! 21) :: 64 word);
        x12 = push_bit 32 (ucast (arg1 ! 20) :: 64 word);
        x13 = push_bit 24 (ucast (arg1 ! 19) :: 64 word);
        x14 = push_bit 16 (ucast (arg1 ! 18) :: 64 word);
        x15 = push_bit 8 (ucast (arg1 ! 17) :: 64 word);
        x16 = arg1 ! 16;
        x17 = push_bit 56 (ucast (arg1 ! 15) :: 64 word);
        x18 = push_bit 48 (ucast (arg1 ! 14) :: 64 word);
        x19 = push_bit 40 (ucast (arg1 ! 13) :: 64 word);
        x20 = push_bit 32 (ucast (arg1 ! 12) :: 64 word);
        x21 = push_bit 24 (ucast (arg1 ! 11) :: 64 word);
        x22 = push_bit 16 (ucast (arg1 ! 10) :: 64 word);
        x23 = push_bit 8 (ucast (arg1 ! 9) :: 64 word);
        x24 = arg1 ! 8;
        x25 = push_bit 56 (ucast (arg1 ! 7) :: 64 word);
        x26 = push_bit 48 (ucast (arg1 ! 6) :: 64 word);
        x27 = push_bit 40 (ucast (arg1 ! 5) :: 64 word);
        x28 = push_bit 32 (ucast (arg1 ! 4) :: 64 word);
        x29 = push_bit 24 (ucast (arg1 ! 3) :: 64 word);
        x30 = push_bit 16 (ucast (arg1 ! 2) :: 64 word);
        x31 = push_bit 8 (ucast (arg1 ! 1) :: 64 word);
        x32 = arg1 ! 0;
        x33 = x31 + (ucast x32 :: 64 word);
        x34 = x30 + x33;
        x35 = x29 + x34;
        x36 = x28 + x35;
        x37 = x27 + x36;
        x38 = x26 + x37;
        x39 = x25 + x38;
        x40 = x23 + (ucast x24 :: 64 word);
        x41 = x22 + x40;
        x42 = x21 + x41;
        x43 = x20 + x42;
        x44 = x19 + x43;
        x45 = x18 + x44;
        x46 = x17 + x45;
        x47 = x15 + (ucast x16 :: 64 word);
        x48 = x14 + x47;
        x49 = x13 + x48;
        x50 = x12 + x49;
        x51 = x11 + x50;
        x52 = x10 + x51;
        x53 = x9 + x52;
        x54 = x7 + (ucast x8 :: 64 word);
        x55 = x6 + x54;
        x56 = x5 + x55;
        x57 = x4 + x56;
        x58 = x3 + x57;
        x59 = x2 + x58;
        x60 = x1 + x59
    in Elem x39 x46 x53 x60)"

subsection \<open>The hand-written element operations\<close>

text \<open>
  Every method writes its result into the receiver and returns the receiver. Where the
  result does not depend on the receiver's old value, the method is modelled as a function
  from the arguments to the receiver's new value; \<open>e.Set(t)\<close> is then \<open>t\<close> itself.
\<close>

definition One :: Element where
  "One = Elem 0x1000003d1 0x0 0x0 0x0"

fun invertEndianness_loop :: "nat \<Rightarrow> nat \<Rightarrow> u8 list \<Rightarrow> u8 list" where
  "invertEndianness_loop 0 i v = v"
| "invertEndianness_loop (Suc n) i v =
     invertEndianness_loop n (i + 1) (v[i := v ! (length v - 1 - i), length v - 1 - i := v ! i])"

text \<open>The loop runs for \<open>i = 0, ..., len(v)/2 - 1\<close>, swapping \<open>v[i]\<close> and \<open>v[len(v)-1-i]\<close>.\<close>

definition invertEndianness :: "u8 list \<Rightarrow> u8 list" where
  "invertEndianness v = invertEndianness_loop (length v div 2) 0 v"

definition Bytes :: "Element \<Rightarrow> u8 list" where
  "Bytes e = (
    let tmp = fromMontgomery e;
        out = toBytes tmp
    in invertEndianness out)"

definition Equal :: "Element \<Rightarrow> Element \<Rightarrow> int" where
  "Equal e t = (
    let eBytes = Bytes e;
        tBytes = Bytes t
    in ConstantTimeCompare eBytes tBytes)"

definition IsZero :: "Element \<Rightarrow> int" where
  "IsZero e = (
    let zero = replicate ElementLength (0 :: u8);
        eBytes = Bytes e
    in ConstantTimeCompare eBytes zero)"

datatype error =
    InvalidElementEncoding
  | InvalidPointEncoding
  | NotOnCurve
  | InvalidCompressedPoint
  | IsIdentity
  | InvalidScalarLength
  | PanicTableOutOfBounds

text \<open>
  The canonicity loop of \<open>SetBytes\<close> over the remaining bytes of \<open>v\<close> and of
  \<open>minusOneEncoding\<close>: \<open>True\<close> when the loop leaves by \<open>break\<close> or runs to its end,
  \<open>False\<close> when it returns the error. Both slices have 32 bytes when the loop starts,
  so the second equation is never reached.
\<close>

fun canonical_loop :: "u8 list \<Rightarrow> u8 list \<Rightarrow> bool" where
  "canonical_loop [] ms = True"
| "canonical_loop (x # xs) [] = True"
| "canonical_loop (x # xs) (m # ms) =
     (if x < m then True else if x > m then False else canonical_loop xs ms)"

text \<open>
  \<open>SetBytes\<close> returns the error (or \<open>None\<close> for nil) and the value of the receiver
  after the call.
\<close>

definition SetBytes :: "Element \<Rightarrow> u8 list \<Rightarrow> error option \<times> Element" where
  "SetBytes e v = (
    if length v \<noteq> ElementLength then (Some InvalidElementEncoding, e)
    else
      let minusOneEncoding = Bytes (Sub new_Element One) in
      if \<not> canonical_loop v minusOneEncoding then (Some InvalidElementEncoding, e)
      else
        let inb = invertEndianness v;
            tmp = fromBytes inb
        in (None, toMontgomery tmp))"

definition Select :: "Element \<Rightarrow> Element \<Rightarrow> int \<Rightarrow> Element" where
  "Select a b cond = (
    let condition = (word_of_int cond :: u64)
    in Elem (cmovznz condition (limb0 b) (limb0 a))
            (cmovznz condition (limb1 b) (limb1 a))
            (cmovznz condition (limb2 b) (limb2 a))
            (cmovznz condition (limb3 b) (limb3 a)))"

text \<open>\<open>for s := lo; s < hi; s++ { t.Square(t) }\<close> runs \<open>hi - lo\<close> times.\<close>

fun Square_loop :: "nat \<Rightarrow> Element \<Rightarrow> Element" where
  "Square_loop 0 t = t"
| "Square_loop (Suc n) t = Square_loop n (Square t)"

definition Invert :: "Element \<Rightarrow> Element" where
  "Invert x = (
    let t0 = Square x;
        z = Square t0;
        z = Mul x z;
        t1 = Mul t0 z;
        t0 = Square t1;
        t2 = Square t0;
        t2 = Square_loop (2 - 1) t2;
        t2 = Mul t1 t2;
        t2 = Square_loop 4 t2;
        t0 = Mul t0 t2;
        t2 = Square t0;
        t2 = Square_loop (2 - 1) t2;
        t2 = Mul t1 t2;
        t2 = Square_loop 10 t2;
        t0 = Mul t0 t2;
        t0 = Mul x t0;
        t3 = Square t0;
        t2 = Square t3;
        t2 = Square_loop (2 - 1) t2;
        t4 = Square t2;
        t4 = Square_loop (22 - 1) t4;
        t2 = Mul t2 t4;
        t4 = Square t2;
        t4 = Square_loop (20 - 1) t4;
        t3 = Mul t3 t4;
        t3 = Square_loop 46 t3;
        t2 = Mul t2 t3;
        t3 = Square t2;
        t3 = Square_loop (110 - 1) t3;
        t2 = Mul t2 t3;
        t1 = Mul t1 t2;
        t1 = Square_loop 23 t1;
        t0 = Mul t0 t1;
        t0 = Square_loop 7 t0;
        t0 = Mul z t0;
        t0 = Square_loop 3 t0;
        z = Mul z t0
    in z)"

section \<open>The field and the value of an element\<close>

text \<open>The prime \<open>p = 2^256 - 2^32 - 977\<close> and the Montgomery radix \<open>R = 2^256\<close>.\<close>

definition P :: nat where
  "P = 115792089237316195423570985008687907853269984665640564039457584007908834671663"

definition R :: nat where
  "R = 115792089237316195423570985008687907853269984665640564039457584007913129639936"

text \<open>\<open>R^2 mod p\<close>, the constant \<open>toMontgomery\<close> multiplies by (limbs \<open>0x7a2000e90a1, 1, 0, 0\<close>).\<close>

definition R2 :: nat where
  "R2 = 18446744073709551616 + 8392367050913"

definition val4 :: "u64 \<Rightarrow> u64 \<Rightarrow> u64 \<Rightarrow> u64 \<Rightarrow> nat" where
  "val4 a0 a1 a2 a3 =
     unat a0 + 18446744073709551616 * (unat a1 + 18446744073709551616 *
       (unat a2 + 18446744073709551616 * unat a3))"

text \<open>The integer held by the four limbs, least significant limb first.\<close>

definition val :: "Element \<Rightarrow> nat" where
  "val e = val4 (limb0 e) (limb1 e) (limb2 e) (limb3 e)"

text \<open>The integer encoded by a byte string, little-endian and big-endian.\<close>

fun le_nat :: "u8 list \<Rightarrow> nat" where
  "le_nat [] = 0"
| "le_nat (b # bs) = unat b + 256 * le_nat bs"

definition be_nat :: "u8 list \<Rightarrow> nat" where
  "be_nat v = le_nat (rev v)"

text \<open>The inverse of \<open>R\<close> modulo \<open>p\<close>.\<close>

definition Rinv :: nat where
  "Rinv = 91248989341183975618893650062416139444822672217621753343178995607984094583082"

text \<open>The field element an \<open>Element\<close> stands for: its limbs hold \<open>fe e * R mod p\<close>.\<close>

definition fe :: "Element \<Rightarrow> nat" where
  "fe e = (val e * Rinv) mod P"

text \<open>An element is reduced when its limbs hold an integer below \<open>p\<close>.\<close>

definition valid :: "Element \<Rightarrow> bool" where
  "valid e \<longleftrightarrow> val e < P"

definition fi :: "Element \<Rightarrow> int" where
  "fi e = int (fe e)"

text \<open>The affine coordinates of the generator \<open>G\<close>.\<close>

definition Gx :: nat where
  "Gx = 0x79BE667EF9DCBBAC55A06295CE870B07029BFCDB2DCE28D959F2815B16F81798"

definition Gy :: nat where
  "Gy = 0x483ADA7726A3C4655DA4FBFC0E1108A8FD17B448A68554199C47D08FFB10D4B8"

section \<open>Points in projective coordinates\<close>

text \<open>
  A \<open>Point\<close> object holds its three coordinates; \<open>*Point\<close> values are references into a
  store, so that a receiver may alias an operand. \<open>NewPoint\<close> takes the next free
  reference. The lazily built generator table is part of the state.
\<close>

datatype Point = Point (X: Element) (Y: Element) (Z: Element)

type_synonym ref = nat

record state =
  heap :: "ref \<Rightarrow> Point"
  nxt :: ref
  genTable :: "ref list list option"

definition init_state :: state where
  "init_state = \<lparr>heap = (\<lambda>_. Point new_Element new_Element new_Element), nxt = 0,
     genTable = None\<rparr>"

text \<open>The package-level constants \<open>b\<close> and \<open>b3\<close>, set from their 32-byte encodings.\<close>

definition b_elem :: Element where
  "b_elem = snd (SetBytes new_Element [0x0, 0x0, 0x0, 0x0, 0x0, 0x0, 0x0, 0x0, 0x0, 0x0, 0x0, 0x0, 0x0, 0x0, 0x0, 0x0, 0x0, 0x0, 0x0, 0x0, 0x0, 0x0, 0x0, 0x0, 0x0, 0x0, 0x0, 0x0, 0x0, 0x0, 0x0, 0x7])"

definition b3_elem :: Element where
  "b3_elem = snd (SetBytes new_Element [0x0, 0x0, 0x0, 0x0, 0x0, 0x0, 0x0, 0x0, 0x0, 0x0, 0x0, 0x0, 0x0, 0x0, 0x0, 0x0, 0x0, 0x0, 0x0, 0x0, 0x0, 0x0, 0x0, 0x0, 0x0, 0x0, 0x0, 0x0, 0x0, 0x0, 0x0, 0x15])"

definition NewPoint :: "state \<Rightarrow> ref \<times> state" where
  "NewPoint s = (
    let r = nxt s
    in (r, s\<lparr>heap := (heap s)(r := Point new_Element One new_Element), nxt := Suc r\<rparr>))"

text \<open>\<open>p.Set(q)\<close> copies the three coordinates of \<open>q\<close> into \<open>p\<close> and returns \<open>p\<close>.\<close>

definition Point_Set :: "ref \<Rightarrow> ref \<Rightarrow> state \<Rightarrow> ref \<times> state" where
  "Point_Set p q s = (p, s\<lparr>heap := (heap s)(p := heap s q)\<rparr>)"

definition polynomial :: "Element \<Rightarrow> Element" where
  "polynomial x = (
    let y2 = Square x;
        y2 = Mul y2 x
    in Add y2 b_elem)"

definition checkOnCurve :: "Element \<Rightarrow> Element \<Rightarrow> error option" where
  "checkOnCurve x y = (
    let rhs = polynomial x;
        lhs = Square y
    in if Equal rhs lhs \<noteq> 1 then Some NotOnCurve else None)"

definition sqrtCandidate :: "Element \<Rightarrow> Element" where
  "sqrtCandidate x = (
    let z = Square x;
        z = Mul x z;
        t0 = Square z;
        t0 = Square_loop (2 - 1) t0;
        t0 = Mul z t0;
        t1 = Square t0;
        t2 = Mul x t1;
        t1 = Square t2;
        t1 = Square_loop (2 - 1) t1;
        t1 = Mul z t1;
        t3 = Square t1;
        t3 = Square_loop (4 - 1) t3;
        t0 = Mul t0 t3;
        t3 = Square t0;
        t3 = Square_loop (11 - 1) t3;
        t0 = Mul t0 t3;
        t3 = Square t0;
        t3 = Square_loop (5 - 1) t3;
        t2 = Mul t2 t3;
        t3 = Square t2;
        t3 = Square_loop (27 - 1) t3;
        t2 = Mul t2 t3;
        t3 = Square t2;
        t3 = Square_loop (54 - 1) t3;
        t2 = Mul t2 t3;
        t3 = Square t2;
        t3 = Square_loop (108 - 1) t3;
        t2 = Mul t2 t3;
        t2 = Square_loop 7 t2;
        t1 = Mul t1 t2;
        t1 = Square_loop 23 t1;
        t0 = Mul t0 t1;
        t0 = Square_loop 6 t0;
        z = Mul z t0;
        z = Square_loop 2 z
    in z)"

text \<open>\<open>sqrt(e, x)\<close> returns whether \<open>x\<close> is a square and the value of \<open>e\<close> after the call.\<close>

definition sqrt :: "Element \<Rightarrow> Element \<Rightarrow> bool \<times> Element" where
  "sqrt e x = (
    let candidate = sqrtCandidate x;
        square = Square candidate
    in if Equal square x \<noteq> 1 then (False, e) else (True, candidate))"

text \<open>
  \<open>SetBytes\<close> returns the error (or \<open>None\<close> for nil) and the state after the call; on
  success the returned pointer is the receiver \<open>p\<close>.
\<close>

definition Point_SetBytes :: "ref \<Rightarrow> u8 list \<Rightarrow> state \<Rightarrow> error option \<times> state" where
  "Point_SetBytes p bs s = (
    if length bs = 1 \<and> bs ! 0 = 0 then
      let (q, s) = NewPoint s;
          (p, s) = Point_Set p q s
      in (None, s)
    else if length bs = 1 + 2 * ElementLength \<and> bs ! 0 = 4 then
      (case SetBytes new_Element (take ElementLength (drop 1 bs)) of
        (Some err, x) \<Rightarrow> (Some err, s)
      | (None, x) \<Rightarrow>
          (case SetBytes new_Element (drop (1 + ElementLength) bs) of
            (Some err, y) \<Rightarrow> (Some err, s)
          | (None, y) \<Rightarrow>
              (case checkOnCurve x y of
                Some err \<Rightarrow> (Some err, s)
              | None \<Rightarrow> (None, s\<lparr>heap := (heap s)(p := Point x y One)\<rparr>))))
    else if length bs = 1 + ElementLength \<and> (bs ! 0 = 2 \<or> bs ! 0 = 3) then
      (case SetBytes new_Element (drop 1 bs) of
        (Some err, x) \<Rightarrow> (Some err, s)
      | (None, x) \<Rightarrow>
          let y = polynomial x;
              (isSquare, y) = sqrt y y
          in if \<not> isSquare then (Some InvalidCompressedPoint, s)
             else
               let otherRoot = new_Element;
                   otherRoot = Sub otherRoot y;
                   cond = ((Bytes y ! (ElementLength - 1)) AND 1) XOR (bs ! 0 AND 1);
                   y = Select otherRoot y (uint cond)
               in (None, s\<lparr>heap := (heap s)(p := Point x y One)\<rparr>))
    else (Some InvalidPointEncoding, s))"

text \<open>The package-level generator \<open>g\<close>: a new point set from the SEC1 encoding of \<open>G\<close>.\<close>

definition g_point :: Point where
  "g_point = (
    let (p, s) = NewPoint init_state;
        (err, s) = Point_SetBytes p [0x4, 0x79, 0xbe, 0x66, 0x7e, 0xf9, 0xdc, 0xbb, 0xac, 0x55, 0xa0, 0x62, 0x95, 0xce, 0x87, 0xb, 0x7, 0x2, 0x9b, 0xfc, 0xdb, 0x2d, 0xce, 0x28, 0xd9, 0x59, 0xf2, 0x81, 0x5b, 0x16, 0xf8, 0x17, 0x98, 0x48, 0x3a, 0xda, 0x77, 0x26, 0xa3, 0xc4, 0x65, 0x5d, 0xa4, 0xfb, 0xfc, 0xe, 0x11, 0x8, 0xa8, 0xfd, 0x17, 0xb4, 0x48, 0xa6, 0x85, 0x54, 0x19, 0x9c, 0x47, 0xd0, 0x8f, 0xfb, 0x10, 0xd4, 0xb8] s
    in heap s p)"

definition NewGenerator :: "state \<Rightarrow> ref \<times> state" where
  "NewGenerator s = (
    let r = nxt s
    in (r, s\<lparr>heap := (heap s)(r := g_point), nxt := Suc r\<rparr>))"

text \<open>
  The arithmetic methods first compute the formula into fresh elements and then write the
  three results into a point. The formula part of each method is a function of the
  operands' values; the method reads the operands from the store, and writes and returns
  as its last four lines say.
\<close>

definition Add_value :: "Point \<Rightarrow> Point \<Rightarrow> Point" where
  "Add_value p1 p2 = (
    let t0 = Mul (X p1) (X p2);
        t1 = Mul (Y p1) (Y p2);
        t2 = Mul (Z p1) (Z p2);
        t3 = Add (X p1) (Y p1);
        t4 = Add (X p2) (Y p2);
        t3 = Mul t3 t4;
        t4 = Add t0 t1;
        t3 = Sub t3 t4;
        t4 = Add (Y p1) (Z p1);
        x3 = Add (Y p2) (Z p2);
        t4 = Mul t4 x3;
        x3 = Add t1 t2;
        t4 = Sub t4 x3;
        x3 = Add (X p1) (Z p1);
        y3 = Add (X p2) (Z p2);
        x3 = Mul x3 y3;
        y3 = Add t0 t2;
        y3 = Sub x3 y3;
        x3 = Add t0 t0;
        t0 = Add x3 t0;
        t2 = Mul b3_elem t2;
        z3 = Add t1 t2;
        t1 = Sub t1 t2;
        y3 = Mul b3_elem y3;
        x3 = Mul t4 y3;
        t2 = Mul t3 t1;
        x3 = Sub t2 x3;
        y3 = Mul y3 t0;
        t1 = Mul t1 z3;
        y3 = Add t1 y3;
        t0 = Mul t0 t3;
        z3 = Mul z3 t4;
        z3 = Add z3 t0
    in Point x3 y3 z3)"

definition Sub_value :: "Point \<Rightarrow> Point \<Rightarrow> Point" where
  "Sub_value p1 p2 = (
    let t0 = Mul (X p1) (X p2);
        y2 = new_Element;
        y2 = Sub y2 (Y p2);
        t1 = Mul (Y p1) y2;
        t2 = Mul (Z p1) (Z p2);
        t3 = Add (X p1) (Y p1);
        t4 = Add (X p2) y2;
        t3 = Mul t3 t4;
        t4 = Add t0 t1;
        t3 = Sub t3 t4;
        t4 = Add (Y p1) (Z p1);
        x3 = Add y2 (Z p2);
        t4 = Mul t4 x3;
        x3 = Add t1 t2;
        t4 = Sub t4 x3;
        x3 = Add (X p1) (Z p1);
        y3 = Add (X p2) (Z p2);
        x3 = Mul x3 y3;
        y3 = Add t0 t2;
        y3 = Sub x3 y3;
        x3 = Add t0 t0;
        t0 = Add x3 t0;
        t2 = Mul b3_elem t2;
        z3 = Add t1 t2;
        t1 = Sub t1 t2;
        y3 = Mul b3_elem y3;
        x3 = Mul t4 y3;
        t2 = Mul t3 t1;
        x3 = Sub t2 x3;
        y3 = Mul y3 t0;
        t1 = Mul t1 z3;
        y3 = Add t1 y3;
        t0 = Mul t0 t3;
        z3 = Mul z3 t4;
        z3 = Add z3 t0
    in Point x3 y3 z3)"

definition Double_value :: "Point \<Rightarrow> Point" where
  "Double_value p = (
    let t0 = Square (Y p);
        z3 = Add t0 t0;
        z3 = Add z3 z3;
        z3 = Add z3 z3;
        t1 = Mul (Y p) (Z p);
        t2 = Square (Z p);
        t2 = Mul b3_elem t2;
        x3 = Mul t2 z3;
        y3 = Add t0 t2;
        z3 = Mul t1 z3;
        t1 = Add t2 t2;
        t2 = Add t1 t2;
        t0 = Sub t0 t2;
        y3 = Mul t0 y3;
        y3 = Add x3 y3;
        t1 = Mul (X p) (Y p);
        x3 = Mul t0 t1;
        x3 = Add x3 x3
    in Point x3 y3 z3)"

definition Point_Add :: "ref \<Rightarrow> ref \<Rightarrow> ref \<Rightarrow> state \<Rightarrow> ref \<times> state" where
  "Point_Add p p1 p2 s = (p, s\<lparr>heap := (heap s)(p := Add_value (heap s p1) (heap s p2))\<rparr>)"

definition Point_Sub :: "ref \<Rightarrow> ref \<Rightarrow> ref \<Rightarrow> state \<Rightarrow> ref \<times> state" where
  "Point_Sub q p1 p2 s = (q, s\<lparr>heap := (heap s)(q := Sub_value (heap s p1) (heap s p2))\<rparr>)"

text \<open>
  \<open>Double\<close> of \<open>Point\<close>: the receiver is \<open>q\<close> and the operand \<open>p\<close>; the three \<open>Set\<close> calls
  and the \<open>return\<close> at the end of the source name \<open>p\<close>.
\<close>

definition Point_Double :: "ref \<Rightarrow> ref \<Rightarrow> state \<Rightarrow> ref \<times> state" where
  "Point_Double q p s = (p, s\<lparr>heap := (heap s)(p := Double_value (heap s p))\<rparr>)"

text \<open>
  \<open>Double\<close> of \<open>P256K1Point\<close> (the same formula, line by line): its \<open>Set\<close> calls and its
  \<open>return\<close> name the receiver \<open>q\<close>.
\<close>

definition P256K1Point_Double :: "ref \<Rightarrow> ref \<Rightarrow> state \<Rightarrow> ref \<times> state" where
  "P256K1Point_Double q p s = (q, s\<lparr>heap := (heap s)(q := Double_value (heap s p))\<rparr>)"


definition Point_Select :: "ref \<Rightarrow> ref \<Rightarrow> ref \<Rightarrow> int \<Rightarrow> state \<Rightarrow> ref \<times> state" where
  "Point_Select p p1 p2 cond s = (p, s\<lparr>heap := (heap s)(p :=
     Point (Select (X (heap s p1)) (X (heap s p2)) cond)
           (Select (Y (heap s p1)) (Y (heap s p2)) cond)
           (Select (Z (heap s p1)) (Z (heap s p2)) cond))\<rparr>)"

text \<open>
  \<open>table.Select(p, n)\<close>: the loop runs for \<open>i = 1, ..., 15\<close>; the first argument of the loop
  function counts the iterations left.
\<close>

fun table_Select_loop :: "nat \<Rightarrow> nat \<Rightarrow> ref list \<Rightarrow> ref \<Rightarrow> u8 \<Rightarrow> state \<Rightarrow> state" where
  "table_Select_loop 0 i tbl p n s = s"
| "table_Select_loop (Suc k) i tbl p n s = (
    let cond = ConstantTimeByteEq (of_nat i) n;
        (r, s) = Point_Select p (tbl ! (i - 1)) p cond s
    in table_Select_loop k (i + 1) tbl p n s)"

definition table_Select :: "ref list \<Rightarrow> ref \<Rightarrow> u8 \<Rightarrow> state \<Rightarrow> error option \<times> state" where
  "table_Select tbl p n s = (
    if n \<ge> 16 then (Some PanicTableOutOfBounds, s)
    else
      let (q, s) = NewPoint s;
          (r, s) = Point_Set p q s
      in (None, table_Select_loop 15 1 tbl p n s))"

text \<open>Allocating the points of a table literal, left to right.\<close>

fun NewPoints :: "nat \<Rightarrow> state \<Rightarrow> ref list \<times> state" where
  "NewPoints 0 s = ([], s)"
| "NewPoints (Suc k) s = (
    let (r, s) = NewPoint s;
        (rs, s) = NewPoints k s
    in (r # rs, s))"

text \<open>\<open>for i := 1; i < 15; i += 2\<close>: seven iterations.\<close>

fun ScalarMult_table_loop :: "nat \<Rightarrow> nat \<Rightarrow> ref list \<Rightarrow> ref \<Rightarrow> state \<Rightarrow> state" where
  "ScalarMult_table_loop 0 i tbl q s = s"
| "ScalarMult_table_loop (Suc k) i tbl q s = (
    let (r, s) = Point_Double (tbl ! i) (tbl ! (i div 2)) s;
        (r, s) = Point_Add (tbl ! (i + 1)) (tbl ! i) q s
    in ScalarMult_table_loop k (i + 2) tbl q s)"

text \<open>The window table that \<open>ScalarMult\<close> builds first.\<close>

definition ScalarMult_table :: "ref \<Rightarrow> state \<Rightarrow> ref list \<times> state" where
  "ScalarMult_table q s = (
    let (tbl, s) = NewPoints 15 s;
        (r, s) = Point_Set (tbl ! 0) q s
    in (tbl, ScalarMult_table_loop 7 1 tbl q s))"

definition Double4 :: "ref \<Rightarrow> state \<Rightarrow> state" where
  "Double4 p s = (
    let (r, s) = Point_Double p p s;
        (r, s) = Point_Double p p s;
        (r, s) = Point_Double p p s;
        (r, s) = Point_Double p p s
    in s)"

text \<open>\<open>for i, byte := range scalar\<close>, with \<open>i\<close> the index of the first byte left.\<close>

fun ScalarMult_loop :: "nat \<Rightarrow> u8 list \<Rightarrow> ref list \<Rightarrow> ref \<Rightarrow> ref \<Rightarrow> state \<Rightarrow> error option \<times> state" where
  "ScalarMult_loop i [] tbl t p s = (None, s)"
| "ScalarMult_loop i (byte # rest) tbl t p s = (
    let s = (if i \<noteq> 0 then Double4 p s else s);
        windowValue = drop_bit 4 byte
    in case table_Select tbl t windowValue s of
         (Some err, s) \<Rightarrow> (Some err, s)
       | (None, s) \<Rightarrow>
           let (r, s) = Point_Add p p t s;
               s = Double4 p s;
               windowValue = byte AND 0b1111
           in case table_Select tbl t windowValue s of
                (Some err, s) \<Rightarrow> (Some err, s)
              | (None, s) \<Rightarrow>
                  let (r, s) = Point_Add p p t s
                  in ScalarMult_loop (i + 1) rest tbl t p s)"

text \<open>
  \<open>ScalarMult\<close> returns the error (\<open>None\<close> for nil; a panic of \<open>table.Select\<close> would show
  as \<open>PanicTableOutOfBounds\<close>) and the state; the returned pointer is \<open>p\<close>.
\<close>

definition ScalarMult :: "ref \<Rightarrow> ref \<Rightarrow> u8 list \<Rightarrow> state \<Rightarrow> error option \<times> state" where
  "ScalarMult p q scalar s = (
    let (tbl, s) = ScalarMult_table q s;
        (t, s) = NewPoint s;
        (z, s) = NewPoint s;
        (r, s) = Point_Set p z s
    in ScalarMult_loop 0 scalar tbl t p s)"

text \<open>
  Building the generator table: 64 tables of 15 points; \<open>j\<close> runs from 1 to 14 and \<open>i\<close> from
  0 to 63, the first argument of each loop function counting the iterations left.
\<close>

fun generatorTable_row :: "nat \<Rightarrow> ref \<Rightarrow> ref \<Rightarrow> state \<Rightarrow> ref list \<times> state" where
  "generatorTable_row 0 prev base s = ([], s)"
| "generatorTable_row (Suc k) prev base s = (
    let (r, s) = NewPoint s;
        (r, s) = Point_Add r prev base s;
        (rs, s) = generatorTable_row k r base s
    in (r # rs, s))"

fun generatorTable_loop :: "nat \<Rightarrow> ref \<Rightarrow> state \<Rightarrow> ref list list \<times> state" where
  "generatorTable_loop 0 base s = ([], s)"
| "generatorTable_loop (Suc k) base s = (
    let (r0, s) = NewPoint s;
        (r0, s) = Point_Set r0 base s;
        (rs, s) = generatorTable_row 14 r0 base s;
        s = Double4 base s;
        (tbls, s) = generatorTable_loop k base s
    in ((r0 # rs) # tbls, s))"

text \<open>\<open>generatorTableOnce.Do\<close>: the table is built on the first call only.\<close>

definition generatorTable :: "state \<Rightarrow> ref list list \<times> state" where
  "generatorTable s = (
    case genTable s of
      Some tables \<Rightarrow> (tables, s)
    | None \<Rightarrow>
        let (base, s) = NewGenerator s;
            (tables, s) = generatorTable_loop (ElementLength * 2) base s
        in (tables, s\<lparr>genTable := Some tables\<rparr>))"

fun ScalarBaseMult_loop :: "u8 list \<Rightarrow> ref list list \<Rightarrow> nat \<Rightarrow> ref \<Rightarrow> ref \<Rightarrow> state \<Rightarrow> error option \<times> state" where
  "ScalarBaseMult_loop [] tables tableIndex t p s = (None, s)"
| "ScalarBaseMult_loop (byte # rest) tables tableIndex t p s = (
    let windowValue = drop_bit 4 byte
    in case table_Select (tables ! tableIndex) t windowValue s of
         (Some err, s) \<Rightarrow> (Some err, s)
       | (None, s) \<Rightarrow>
           let (r, s) = Point_Add p p t s;
               tableIndex = tableIndex - 1;
               windowValue = byte AND 0b1111
           in case table_Select (tables ! tableIndex) t windowValue s of
                (Some err, s) \<Rightarrow> (Some err, s)
              | (None, s) \<Rightarrow>
                  let (r, s) = Point_Add p p t s;
                      tableIndex = tableIndex - 1
                  in ScalarBaseMult_loop rest tables tableIndex t p s)"

definition ScalarBaseMult :: "ref \<Rightarrow> u8 list \<Rightarrow> state \<Rightarrow> error option \<times> state" where
  "ScalarBaseMult p scalar s = (
    if length scalar \<noteq> ElementLength then (Some InvalidScalarLength, s)
    else
      let (tables, s) = generatorTable s;
          (t, s) = NewPoint s;
          (z, s) = NewPoint s;
          (r, s) = Point_Set p z s;
          tableIndex = length tables - 1
      in ScalarBaseMult_loop scalar tables tableIndex t p s)"

section \<open>The curve equation\<close>

text \<open>
  The projective curve polynomial \<open>Y\<^sup>2 Z - X\<^sup>3 - 7 Z\<^sup>3\<close> over the integers, and the invariant of
  a point: either \<open>Z = 0\<close> or \<open>Y\<^sup>2 Z = X\<^sup>3 + 7 Z\<^sup>3\<close> in the field.
\<close>

definition curve_int :: "int \<Rightarrow> int \<Rightarrow> int \<Rightarrow> int" where
  "curve_int x y z = y^2 * z - x^3 - 7 * z^3"

definition on_curve :: "Point \<Rightarrow> bool" where
  "on_curve p \<longleftrightarrow> fe (Z p) = 0
     \<or> ((fe (Y p))^2 * fe (Z p)) mod P = ((fe (X p))^3 + 7 * (fe (Z p))^3) mod P"

text \<open>
  The stronger property that the operations preserve: the three coordinates are reduced
  and the curve equation holds (also when \<open>Z = 0\<close>).
\<close>

definition point_ok :: "Point \<Rightarrow> bool" where
  "point_ok p \<longleftrightarrow> valid (X p) \<and> valid (Y p) \<and> valid (Z p)
     \<and> int P dvd curve_int (fi (X p)) (fi (Y p)) (fi (Z p))"
section \<open>Sequences of calls\<close>

text \<open>
  A client of the package makes a sequence of calls on points; \<open>exec\<close> is the state after
  one call and \<open>run\<close> the state after a sequence of them.
\<close>

datatype call =
    Call_NewPoint
  | Call_NewGenerator
  | Call_Set ref ref
  | Call_SetBytes ref "u8 list"
  | Call_Add ref ref ref
  | Call_Sub ref ref ref
  | Call_Double ref ref
  | Call_Select ref ref ref int
  | Call_ScalarMult ref ref "u8 list"
  | Call_ScalarBaseMult ref "u8 list"

fun exec :: "call \<Rightarrow> state \<Rightarrow> state" where
  "exec Call_NewPoint s = snd (NewPoint s)"
| "exec Call_NewGenerator s = snd (NewGenerator s)"
| "exec (Call_Set p q) s = snd (Point_Set p q s)"
| "exec (Call_SetBytes p bs) s = snd (Point_SetBytes p bs s)"
| "exec (Call_Add p p1 p2) s = snd (Point_Add p p1 p2 s)"
| "exec (Call_Sub q p1 p2) s = snd (Point_Sub q p1 p2 s)"
| "exec (Call_Double q p) s = snd (Point_Double q p s)"
| "exec (Call_Select p p1 p2 cond) s = snd (Point_Select p p1 p2 cond s)"
| "exec (Call_ScalarMult p q scalar) s = snd (ScalarMult p q scalar s)"
| "exec (Call_ScalarBaseMult p scalar) s = snd (ScalarBaseMult p scalar s)"

fun run :: "call list \<Rightarrow> state \<Rightarrow> state" where
  "run [] s = s"
| "run (c # cs) s = run cs (exec c s)"

text \<open>The condition of a \<open>Select\<close> call is 0 or 1.\<close>

fun cond_ok :: "call \<Rightarrow> bool" where
  "cond_ok (Call_Select p p1 p2 cond) \<longleftrightarrow> cond = 0 \<or> cond = 1"
| "cond_ok c \<longleftrightarrow> True"

definition heap_ok :: "state \<Rightarrow> bool" where
  "heap_ok s \<longleftrightarrow> (\<forall>r. point_ok (heap s r))"
section \<open>Conditional move and select\<close>

lemma all_ones_u64: "(0xffffffffffffffff :: u64) = - 1"
  by simp

lemma cmovznz_0: "cmovznz 0 arg2 arg3 = arg2"
  by (simp add: cmovznz_def)

lemma cmovznz_1: "cmovznz 1 arg2 arg3 = arg3"
  by (simp add: cmovznz_def all_ones_u64)

lemma Select_cond_1: "Select a b 1 = a"
  by (simp add: Select_def cmovznz_1)

lemma Select_cond_0: "Select a b 0 = b"
  by (simp add: Select_def cmovznz_0)

text \<open>
  Claim C8, as amended: \<open>select(a, b, cond)\<close> yields \<open>a\<close> when \<open>cond = 1\<close> and \<open>b\<close> when
  \<open>cond = 0\<close>. (For any other \<open>cond\<close> the mask \<open>cond * (2^64 - 1)\<close> is not all ones and
  the result mixes bits of both operands.)
\<close>

theorem Select_one_zero: "Select a b 1 = a \<and> Select a b 0 = b"
  by (simp add: Select_def cmovznz_0 cmovznz_1)

text \<open>
  Claim C8 as stated fails: with the nonzero condition 2 the mask is \<open>0xff...fe\<close>, so bit 0
  of every limb comes from \<open>b\<close>; selecting between the limbs \<open>(1,0,0,0)\<close> and \<open>(0,0,0,0)\<close>
  yields \<open>(0,0,0,0)\<close>, which is not the first operand.
\<close>

theorem Select_nonzero_counterexample:
  "(2 :: int) \<noteq> 0 \<and> Select (Elem 1 0 0 0) (Elem 0 0 0 0) 2 \<noteq> Elem 1 0 0 0"
  by (simp add: Select_def cmovznz_def)

section \<open>Carry chains\<close>

lemma unat_lt_W: "unat (x :: u64) < 18446744073709551616"
proof -
  have "unat x < 2 ^ LENGTH(64)" by (rule unsigned_less)
  then show ?thesis by simp
qed

lemma Add64_unat:
  assumes "Add64 x y c = (s, c')" and "unat c \<le> 1"
  shows "unat s + 18446744073709551616 * unat c' = unat x + unat y + unat c \<and> unat c' \<le> 1"
proof -
  have s: "s = x + y + c" and c': "c' = (if 2 ^ 64 \<le> unat x + unat y + unat c then 1 else 0)"
    using assms(1) by (simp_all add: Add64_def)
  have bx: "unat x < 2 ^ 64" and "unat y < 2 ^ 64"
    using unat_lt_W [of x] unat_lt_W [of y] by simp_all
  then have lt: "unat x + unat y + unat c < 2 * 2 ^ 64" using assms(2) by linarith
  have us: "unat s = (unat x + unat y + unat c) mod 2 ^ 64"
    unfolding s by (simp add: unat_word_ariths mod_simps)
  show ?thesis
  proof (cases "2 ^ 64 \<le> unat x + unat y + unat c")
    case True
    then have "(unat x + unat y + unat c) mod 2 ^ 64 = unat x + unat y + unat c - 2 ^ 64"
      using lt by (simp add: mod_if)
    with True us c' show ?thesis by simp
  next
    case False
    with us c' show ?thesis by simp
  qed
qed

lemma Sub64_unat:
  assumes "Sub64 x y b = (d, b')" and "unat b \<le> 1"
  shows "unat d + unat y + unat b = unat x + 18446744073709551616 * unat b' \<and> unat b' \<le> 1"
proof -
  have d: "d = x - y - b" and b': "b' = (if unat x < unat y + unat b then 1 else 0)"
    using assms(1) by (simp_all add: Sub64_def)
  have bx: "unat x < 18446744073709551616" and by': "unat y < 18446744073709551616"
    using unat_lt_W [of x] unat_lt_W [of y] by simp_all
  define a where "a = int (unat x) - int (unat y) - int (unat b)"
  have "uint d = (uint x - uint y - uint b) mod 2 ^ 64"
    unfolding d by (simp add: uint_word_ariths mod_simps)
  then have ud: "int (unat d) = a mod 18446744073709551616"
    unfolding a_def by simp
  show ?thesis
  proof (cases "unat x < unat y + unat b")
    case True
    then have "0 \<le> a + 18446744073709551616" and "a + 18446744073709551616 < 18446744073709551616"
      using bx by' assms(2) unfolding a_def by linarith+
    then have "(a + 18446744073709551616) mod 18446744073709551616 = a + 18446744073709551616"
      by (rule mod_pos_pos_trivial)
    then have "a mod 18446744073709551616 = a + 18446744073709551616"
      by simp
    with ud have "int (unat d) = a + 18446744073709551616" by simp
    then have "int (unat d) + int (unat y) + int (unat b) = int (unat x) + 18446744073709551616"
      unfolding a_def by linarith
    then have "unat d + unat y + unat b = unat x + 18446744073709551616"
      by linarith
    with True b' show ?thesis by simp
  next
    case False
    then have "0 \<le> a" and "a < 18446744073709551616"
      using bx by' assms(2) unfolding a_def by linarith+
    then have "a mod 18446744073709551616 = a"
      by (rule mod_pos_pos_trivial)
    with ud have "int (unat d) = a" by simp
    then have "int (unat d) + int (unat y) + int (unat b) = int (unat x)"
      unfolding a_def by linarith
    then have "unat d + unat y + unat b = unat x"
      by linarith
    with False b' show ?thesis by simp
  qed
qed

lemma Mul64_unat:
  assumes "Mul64 x y = (h, l)"
  shows "18446744073709551616 * unat h + unat l = unat x * unat y \<and> unat h \<le> 18446744073709551614"
proof -
  have h: "h = word_of_nat (unat x * unat y div 2 ^ 64)" and l: "l = x * y"
    using assms by (simp_all add: Mul64_def)
  have bx: "unat x \<le> 2 ^ 64 - 1" and by': "unat y \<le> 2 ^ 64 - 1"
    using unat_lt_W [of x] unat_lt_W [of y] by simp_all
  then have "unat x * unat y \<le> (2 ^ 64 - 1) * (2 ^ 64 - 1)"
    by (rule mult_le_mono)
  then have dv: "unat x * unat y div 2 ^ 64 \<le> 2 ^ 64 - 2"
    by simp
  then have uh: "unat h = unat x * unat y div 2 ^ 64"
    unfolding h by (simp add: unat_of_nat)
  have ul: "unat l = unat x * unat y mod 2 ^ 64"
    unfolding l by (simp add: unat_word_ariths)
  show ?thesis using uh ul dv by simp
qed

lemma limb_step:
  assumes "a < w" and "b < n"
  shows "a + w * b < w * (n :: nat)"
proof -
  from assms(2) have "Suc b \<le> n" by simp
  then have "w * Suc b \<le> w * n" by (rule mult_le_mono2)
  moreover have "a + w * b < w * Suc b" using assms(1) by simp
  ultimately show ?thesis by simp
qed

lemma unat_eq_1D: "unat (b :: u64) = 1 \<Longrightarrow> b = 1"
  by (simp add: word_unat_eq_iff)

lemma unat_eq_0D: "unat (b :: u64) = 0 \<Longrightarrow> b = 0"
  by (simp add: word_unat_eq_iff)

lemma val4_lt: "val4 a0 a1 a2 a3 < R"
proof -
  have "unat a2 + 18446744073709551616 * unat a3 < 18446744073709551616 * 18446744073709551616"
    by (rule limb_step [OF unat_lt_W unat_lt_W])
  then have "unat a1 + 18446744073709551616 * (unat a2 + 18446744073709551616 * unat a3)
      < 18446744073709551616 * (18446744073709551616 * 18446744073709551616)"
    by (rule limb_step [OF unat_lt_W])
  then have "unat a0 + 18446744073709551616 * (unat a1 + 18446744073709551616 *
      (unat a2 + 18446744073709551616 * unat a3))
      < 18446744073709551616 * (18446744073709551616 * (18446744073709551616 * 18446744073709551616))"
    by (rule limb_step [OF unat_lt_W])
  then show ?thesis unfolding val4_def R_def by simp
qed

lemma val_lt_R: "val e < R"
  unfolding val_def by (rule val4_lt)

lemma val4_P: "val4 0xfffffffefffffc2f 0xffffffffffffffff 0xffffffffffffffff 0xffffffffffffffff = P"
  by (simp add: val4_def P_def)

lemma val4_inject:
  assumes "val4 a0 a1 a2 a3 = val4 b0 b1 b2 b3"
  shows "a0 = b0 \<and> a1 = b1 \<and> a2 = b2 \<and> a3 = b3"
proof -
  have split: "x = y \<and> u = v"
    if "unat x + 18446744073709551616 * u = unat y + 18446744073709551616 * v"
    for x y :: u64 and u v :: nat
  proof -
    have "(unat x + 18446744073709551616 * u) mod 18446744073709551616 = unat x"
      using unat_lt_W [of x] by simp
    moreover have "(unat y + 18446744073709551616 * v) mod 18446744073709551616 = unat y"
      using unat_lt_W [of y] by simp
    ultimately have "unat x = unat y" using that by simp
    then show ?thesis using that by (simp add: word_unat_eq_iff)
  qed
  from assms have 0: "a0 = b0" and r0: "unat a1 + 18446744073709551616 * (unat a2 + 18446744073709551616 * unat a3)
      = unat b1 + 18446744073709551616 * (unat b2 + 18446744073709551616 * unat b3)"
    unfolding val4_def using split by blast+
  from r0 have 1: "a1 = b1" and r1: "unat a2 + 18446744073709551616 * unat a3
      = unat b2 + 18446744073709551616 * unat b3"
    using split by blast+
  from r1 have "a2 = b2" and "unat a3 = unat b3"
    using split by blast+
  with 0 1 show ?thesis by (simp add: word_unat_eq_iff)
qed

lemma val_inject: "val a = val b \<Longrightarrow> a = b"
  unfolding val_def using val4_inject [of "limb0 a" "limb1 a" "limb2 a" "limb3 a"]
  by (simp add: Element.expand)

text \<open>
  The final conditional subtraction shared by the generated routines: four \<open>Sub64\<close> of the
  limbs of \<open>p\<close>, one of the top word, and four \<open>cmovznz\<close> on the last borrow.
\<close>

lemma cond_sub:
  assumes s0: "Sub64 a0 0xfffffffefffffc2f 0 = (d0, b0)"
    and s1: "Sub64 a1 0xffffffffffffffff b0 = (d1, b1)"
    and s2: "Sub64 a2 0xffffffffffffffff b1 = (d2, b2)"
    and s3: "Sub64 a3 0xffffffffffffffff b2 = (d3, b3)"
    and s4: "Sub64 tp 0 b3 = (dd, bb)"
    and c0: "cmovznz bb d0 a0 = r0" and c1: "cmovznz bb d1 a1 = r1"
    and c2: "cmovznz bb d2 a2 = r2" and c3: "cmovznz bb d3 a3 = r3"
    and bound: "val4 a0 a1 a2 a3 + R * unat tp < 2 * P"
  shows "val4 r0 r1 r2 r3 = (val4 a0 a1 a2 a3 + R * unat tp) mod P"
proof -
  have u0: "unat d0 + unat (0xfffffffefffffc2f :: u64) + unat (0 :: u64)
      = unat a0 + 18446744073709551616 * unat b0 \<and> unat b0 \<le> 1"
    by (rule Sub64_unat [OF s0]) simp
  have u1: "unat d1 + unat (0xffffffffffffffff :: u64) + unat b0
      = unat a1 + 18446744073709551616 * unat b1 \<and> unat b1 \<le> 1"
    by (rule Sub64_unat [OF s1]) (use u0 in simp)
  have u2: "unat d2 + unat (0xffffffffffffffff :: u64) + unat b1
      = unat a2 + 18446744073709551616 * unat b2 \<and> unat b2 \<le> 1"
    by (rule Sub64_unat [OF s2]) (use u1 in simp)
  have u3: "unat d3 + unat (0xffffffffffffffff :: u64) + unat b2
      = unat a3 + 18446744073709551616 * unat b3 \<and> unat b3 \<le> 1"
    by (rule Sub64_unat [OF s3]) (use u2 in simp)
  have u4: "unat dd + unat (0 :: u64) + unat b3
      = unat tp + 18446744073709551616 * unat bb \<and> unat bb \<le> 1"
    by (rule Sub64_unat [OF s4]) (use u3 in simp)
  have v4: "unat dd + unat b3 = unat tp + 18446744073709551616 * unat bb" and bb1: "unat bb \<le> 1"
    and b31: "unat b3 \<le> 1"
    using u4 u3 by simp_all
  have chain: "val4 d0 d1 d2 d3 + P = val4 a0 a1 a2 a3 + R * unat b3"
    using u0 u1 u2 u3 unfolding val4_def P_def R_def by simp
  have dlt: "val4 d0 d1 d2 d3 < R" and alt: "val4 a0 a1 a2 a3 < R"
    by (rule val4_lt)+
  have tp1: "unat tp \<le> 1"
    using bound unfolding P_def R_def by simp
  have ddlt: "unat dd < 18446744073709551616" by (rule unat_lt_W)
  show ?thesis
  proof (cases "val4 a0 a1 a2 a3 + R * unat tp < P")
    case True
    then have t0: "unat tp = 0" unfolding P_def R_def by simp
    with True chain dlt have "unat b3 \<noteq> 0"
      unfolding P_def R_def by (cases "unat b3 = 0") simp_all
    with t0 v4 bb1 b31 ddlt have "unat bb = 1" by linarith
    then have "bb = 1" by (rule unat_eq_1D)
    then have "r0 = a0" "r1 = a1" "r2 = a2" "r3 = a3"
      using c0 c1 c2 c3 by (simp_all add: cmovznz_1)
    with True t0 show ?thesis by simp
  next
    case False
    have nb: "unat b3 \<noteq> 1" if t: "unat tp = 0"
    proof
      assume "unat b3 = 1"
      with chain have "val4 d0 d1 d2 d3 + P = val4 a0 a1 a2 a3 + R" by simp
      with False t dlt show False unfolding P_def R_def by simp
    qed
    have bbz: "unat bb = 0"
    proof (cases "unat tp = 0")
      case t: True
      with nb v4 bb1 b31 ddlt show ?thesis by linarith
    next
      case f: False
      with tp1 have "unat tp = 1" by simp
      with v4 bb1 b31 ddlt show ?thesis by linarith
    qed
    then have "bb = 0" by (rule unat_eq_0D)
    then have r: "r0 = d0" "r1 = d1" "r2 = d2" "r3 = d3"
      using c0 c1 c2 c3 by (simp_all add: cmovznz_0)
    have nb': "unat b3 \<noteq> 0" if t: "unat tp = 1"
    proof
      assume "unat b3 = 0"
      with chain have "val4 d0 d1 d2 d3 + P = val4 a0 a1 a2 a3" by simp
      with bound t show False unfolding P_def R_def by simp
    qed
    have tb: "unat tp = unat b3"
    proof (cases "unat tp = 0")
      case True
      with nb b31 show ?thesis by linarith
    next
      case False
      with tp1 have "unat tp = 1" by simp
      with nb' b31 show ?thesis by linarith
    qed
    have "val4 d0 d1 d2 d3 + P = val4 a0 a1 a2 a3 + R * unat tp"
      using chain tb by simp
    moreover from this have "val4 d0 d1 d2 d3 < P" using bound by simp
    ultimately have "(val4 a0 a1 a2 a3 + R * unat tp) mod P = val4 d0 d1 d2 d3"
      by (metis mod_add_self2 mod_less)
    with r show ?thesis by simp
  qed
qed

section \<open>Rows of products and one step of Montgomery reduction\<close>

text \<open>One word times four words: four \<open>Mul64\<close> and a carry chain.\<close>

lemma mulrow:
  assumes "Mul64 x b3 = (h3, l3)" "Mul64 x b2 = (h2, l2)"
    "Mul64 x b1 = (h1, l1)" "Mul64 x b0 = (h0, l0)"
    "Add64 h0 l1 0 = (r1, c1)" "Add64 h1 l2 c1 = (r2, c2)" "Add64 h2 l3 c2 = (r3, c3)"
    "c3 + h3 = r4"
  shows "val4 l0 r1 r2 r3 + R * unat r4 = unat x * val4 b0 b1 b2 b3"
proof -
  note m3 = Mul64_unat [OF assms(1)] and m2 = Mul64_unat [OF assms(2)]
    and m1 = Mul64_unat [OF assms(3)] and m0 = Mul64_unat [OF assms(4)]
  have a1: "unat r1 + 18446744073709551616 * unat c1 = unat h0 + unat l1 + unat (0::u64)
      \<and> unat c1 \<le> 1"
    by (rule Add64_unat [OF assms(5)]) simp
  have a2: "unat r2 + 18446744073709551616 * unat c2 = unat h1 + unat l2 + unat c1
      \<and> unat c2 \<le> 1"
    by (rule Add64_unat [OF assms(6)]) (use a1 in simp)
  have a3: "unat r3 + 18446744073709551616 * unat c3 = unat h2 + unat l3 + unat c2
      \<and> unat c3 \<le> 1"
    by (rule Add64_unat [OF assms(7)]) (use a2 in simp)
  have "unat c3 + unat h3 < 2 ^ LENGTH(64)"
    using a3 m3 by simp
  then have "unat (c3 + h3) = unat c3 + unat h3"
    by (simp only: unat_add_lem [THEN iffD1])
  then have tp: "unat r4 = unat c3 + unat h3"
    using assms(8) by simp
  have "unat x * val4 b0 b1 b2 b3 = unat x * unat b0 + 18446744073709551616 *
      (unat x * unat b1 + 18446744073709551616 * (unat x * unat b2 +
       18446744073709551616 * (unat x * unat b3)))"
    by (simp add: val4_def algebra_simps)
  also have "\<dots> = val4 l0 r1 r2 r3 + R * (unat c3 + unat h3)"
    unfolding val4_def R_def using m0 m1 m2 m3 a1 a2 a3 by (simp add: algebra_simps)
  finally show ?thesis using tp by simp
qed

text \<open>Adding a five-word row to a five-word accumulator.\<close>

lemma acc5:
  assumes "Add64 a0 r0 0 = (s0, c0)" "Add64 a1 r1 c0 = (s1, c1)" "Add64 a2 r2 c1 = (s2, c2)"
    "Add64 a3 r3 c2 = (s3, c3)" "Add64 a4 r4 c3 = (s4, c4)"
  shows "val4 s0 s1 s2 s3 + R * (unat s4 + 18446744073709551616 * unat c4)
      = val4 a0 a1 a2 a3 + R * unat a4 + (val4 r0 r1 r2 r3 + R * unat r4) \<and> unat c4 \<le> 1"
proof -
  have k0: "unat s0 + 18446744073709551616 * unat c0 = unat a0 + unat r0 + unat (0::u64)
      \<and> unat c0 \<le> 1"
    by (rule Add64_unat [OF assms(1)]) simp
  have k1: "unat s1 + 18446744073709551616 * unat c1 = unat a1 + unat r1 + unat c0
      \<and> unat c1 \<le> 1"
    by (rule Add64_unat [OF assms(2)]) (use k0 in simp)
  have k2: "unat s2 + 18446744073709551616 * unat c2 = unat a2 + unat r2 + unat c1
      \<and> unat c2 \<le> 1"
    by (rule Add64_unat [OF assms(3)]) (use k1 in simp)
  have k3: "unat s3 + 18446744073709551616 * unat c3 = unat a3 + unat r3 + unat c2
      \<and> unat c3 \<le> 1"
    by (rule Add64_unat [OF assms(4)]) (use k2 in simp)
  have k4: "unat s4 + 18446744073709551616 * unat c4 = unat a4 + unat r4 + unat c3
      \<and> unat c4 \<le> 1"
    by (rule Add64_unat [OF assms(5)]) (use k3 in simp)
  show ?thesis
    unfolding val4_def R_def using k0 k1 k2 k3 k4 by simp
qed

text \<open>
  The Montgomery constant: \<open>0xd838091dd2253531 * p = -1\<close> modulo \<open>2^64\<close>, so adding
  \<open>m * p\<close> with \<open>m = a0 * 0xd838091dd2253531\<close> clears the low word of the accumulator.
\<close>

lemma mont_low_word:
  "(a0 :: u64) + a0 * 0xd838091dd2253531 * 0xfffffffefffffc2f = 0"
proof -
  have "(0xd838091dd2253531 :: u64) * 0xfffffffefffffc2f = - 1" by simp
  then have "a0 * 0xd838091dd2253531 * 0xfffffffefffffc2f = a0 * (- 1)"
    by (simp only: mult.assoc)
  then show ?thesis by simp
qed

lemma mont_reduce:
  assumes pm: "Mul64 a0 0xd838091dd2253531 = (dm, m)"
    and row: "val4 l0 r1 r2 r3 + R * unat r4 = unat m * P"
    and lo: "Mul64 m 0xfffffffefffffc2f = (h0, l0)"
    and k0: "Add64 a0 l0 0 = (d0, c0)" and k1: "Add64 a1 r1 c0 = (s1, c1)"
    and k2: "Add64 a2 r2 c1 = (s2, c2)" and k3: "Add64 a3 r3 c2 = (s3, c3)"
    and k4: "Add64 a4 r4 c3 = (s4, c4)"
  shows "18446744073709551616 * (val4 s1 s2 s3 s4 + R * unat c4)
      = val4 a0 a1 a2 a3 + R * unat a4 + unat m * P \<and> unat c4 \<le> 1"
proof -
  have "m = a0 * 0xd838091dd2253531" using pm by (simp add: Mul64_def)
  moreover have "l0 = m * 0xfffffffefffffc2f" using lo by (simp add: Mul64_def)
  moreover have "d0 = a0 + l0 + 0" using k0 by (simp add: Add64_def)
  ultimately have "d0 = a0 + a0 * 0xd838091dd2253531 * 0xfffffffefffffc2f" by simp
  then have d0: "unat d0 = 0" by (simp only: mont_low_word) simp
  have u0: "unat d0 + 18446744073709551616 * unat c0 = unat a0 + unat l0 + unat (0::u64)
      \<and> unat c0 \<le> 1"
    by (rule Add64_unat [OF k0]) simp
  have u1: "unat s1 + 18446744073709551616 * unat c1 = unat a1 + unat r1 + unat c0
      \<and> unat c1 \<le> 1"
    by (rule Add64_unat [OF k1]) (use u0 in simp)
  have u2: "unat s2 + 18446744073709551616 * unat c2 = unat a2 + unat r2 + unat c1
      \<and> unat c2 \<le> 1"
    by (rule Add64_unat [OF k2]) (use u1 in simp)
  have u3: "unat s3 + 18446744073709551616 * unat c3 = unat a3 + unat r3 + unat c2
      \<and> unat c3 \<le> 1"
    by (rule Add64_unat [OF k3]) (use u2 in simp)
  have u4: "unat s4 + 18446744073709551616 * unat c4 = unat a4 + unat r4 + unat c3
      \<and> unat c4 \<le> 1"
    by (rule Add64_unat [OF k4]) (use u3 in simp)
  have "18446744073709551616 * (val4 s1 s2 s3 s4 + R * unat c4)
      = val4 a0 a1 a2 a3 + R * unat a4 + (val4 l0 r1 r2 r3 + R * unat r4)"
    unfolding val4_def R_def using d0 u0 u1 u2 u3 u4 by simp
  with row u4 show ?thesis by simp
qed

text \<open>The accumulator stays below \<open>B + p\<close> through every round.\<close>

lemma mont_bound:
  assumes eq: "18446744073709551616 * A' = A + a * B + m * P"
    and A: "A < B + P" and a: "a < 18446744073709551616" and m: "m < 18446744073709551616"
  shows "A' < B + P"
proof -
  have l1: "a * B \<le> 18446744073709551615 * B"
    by (rule mult_le_mono1) (use a in simp)
  have l2: "m * P \<le> 18446744073709551615 * P"
    by (rule mult_le_mono1) (use m in simp)
  have "18446744073709551616 * A' < B + P + 18446744073709551615 * B + 18446744073709551615 * P"
    using eq A l1 l2 by linarith
  then have "18446744073709551616 * A' < 18446744073709551616 * (B + P)"
    by simp
  then show ?thesis by simp
qed

section \<open>Addition and subtraction of elements\<close>

lemma Add_val:
  assumes "val t1 + val t2 < 2 * P"
  shows "val (Add t1 t2) = (val t1 + val t2) mod P"
proof -
  obtain x1 x2 where e_x2: "Add64 (limb0 t1) (limb0 t2) 0 = (x1, x2)" by (rule prod.exhaust)
  obtain x3 x4 where e_x4: "Add64 (limb1 t1) (limb1 t2) x2 = (x3, x4)" by (rule prod.exhaust)
  obtain x5 x6 where e_x6: "Add64 (limb2 t1) (limb2 t2) x4 = (x5, x6)" by (rule prod.exhaust)
  obtain x7 x8 where e_x8: "Add64 (limb3 t1) (limb3 t2) x6 = (x7, x8)" by (rule prod.exhaust)
  obtain x9 x10 where e_x10: "Sub64 x1 0xfffffffefffffc2f 0 = (x9, x10)" by (rule prod.exhaust)
  obtain x11 x12 where e_x12: "Sub64 x3 0xffffffffffffffff x10 = (x11, x12)" by (rule prod.exhaust)
  obtain x13 x14 where e_x14: "Sub64 x5 0xffffffffffffffff x12 = (x13, x14)" by (rule prod.exhaust)
  obtain x15 x16 where e_x16: "Sub64 x7 0xffffffffffffffff x14 = (x15, x16)" by (rule prod.exhaust)
  obtain d_x18 x18 where e_x18: "Sub64 x8 0 x16 = (d_x18, x18)" by (rule prod.exhaust)
  obtain x19 where e_x19: "cmovznz x18 x9 x1 = x19" by simp
  obtain x20 where e_x20: "cmovznz x18 x11 x3 = x20" by simp
  obtain x21 where e_x21: "cmovznz x18 x13 x5 = x21" by simp
  obtain x22 where e_x22: "cmovznz x18 x15 x7 = x22" by simp
  have res: "Add t1 t2 = Elem x19 x20 x21 x22"
    unfolding Add_def by (simp add: Let_def e_x2 e_x4 e_x6 e_x8 e_x10 e_x12 e_x14 e_x16 e_x18 e_x19 e_x20 e_x21 e_x22)
  have a1: "unat x1 + 18446744073709551616 * unat x2
      = unat (limb0 t1) + unat (limb0 t2) + unat (0 :: u64) \<and> unat x2 \<le> 1"
    by (rule Add64_unat [OF e_x2]) simp
  have a2: "unat x3 + 18446744073709551616 * unat x4
      = unat (limb1 t1) + unat (limb1 t2) + unat x2 \<and> unat x4 \<le> 1"
    by (rule Add64_unat [OF e_x4]) (use a1 in simp)
  have a3: "unat x5 + 18446744073709551616 * unat x6
      = unat (limb2 t1) + unat (limb2 t2) + unat x4 \<and> unat x6 \<le> 1"
    by (rule Add64_unat [OF e_x6]) (use a2 in simp)
  have a4: "unat x7 + 18446744073709551616 * unat x8
      = unat (limb3 t1) + unat (limb3 t2) + unat x6 \<and> unat x8 \<le> 1"
    by (rule Add64_unat [OF e_x8]) (use a3 in simp)
  have sum: "val4 x1 x3 x5 x7 + R * unat x8 = val t1 + val t2"
    using a1 a2 a3 a4 unfolding val_def val4_def R_def by simp
  have "val4 x19 x20 x21 x22 = (val4 x1 x3 x5 x7 + R * unat x8) mod P"
    by (rule cond_sub [OF e_x10 e_x12 e_x14 e_x16 e_x18 e_x19 e_x20 e_x21 e_x22])
      (use sum assms in simp)
  then show ?thesis by (simp add: res val_def sum [unfolded val_def])
qed

lemma Sub_val:
  assumes "val t1 < P" and "val t2 < P"
  shows "val (Sub t1 t2) = (val t1 + P - val t2) mod P"
proof -
  obtain x1 x2 where e_x2: "Sub64 (limb0 t1) (limb0 t2) 0 = (x1, x2)" by (rule prod.exhaust)
  obtain x3 x4 where e_x4: "Sub64 (limb1 t1) (limb1 t2) x2 = (x3, x4)" by (rule prod.exhaust)
  obtain x5 x6 where e_x6: "Sub64 (limb2 t1) (limb2 t2) x4 = (x5, x6)" by (rule prod.exhaust)
  obtain x7 x8 where e_x8: "Sub64 (limb3 t1) (limb3 t2) x6 = (x7, x8)" by (rule prod.exhaust)
  obtain x9 where e_x9: "cmovznz x8 0 0xffffffffffffffff = x9" by simp
  obtain x10 x11 where e_x11: "Add64 x1 (x9 AND 0xfffffffefffffc2f) 0 = (x10, x11)" by (rule prod.exhaust)
  obtain x12 x13 where e_x13: "Add64 x3 x9 x11 = (x12, x13)" by (rule prod.exhaust)
  obtain x14 x15 where e_x15: "Add64 x5 x9 x13 = (x14, x15)" by (rule prod.exhaust)
  obtain x16 d_x16 where e_x16: "Add64 x7 x9 x15 = (x16, d_x16)" by (rule prod.exhaust)
  have res: "Sub t1 t2 = Elem x10 x12 x14 x16"
    unfolding Sub_def by (simp add: Let_def e_x2 e_x4 e_x6 e_x8 e_x9 e_x11 e_x13 e_x15 e_x16)
  have s1: "unat x1 + unat (limb0 t2) + unat (0 :: u64)
      = unat (limb0 t1) + 18446744073709551616 * unat x2 \<and> unat x2 \<le> 1"
    by (rule Sub64_unat [OF e_x2]) simp
  have s2: "unat x3 + unat (limb1 t2) + unat x2
      = unat (limb1 t1) + 18446744073709551616 * unat x4 \<and> unat x4 \<le> 1"
    by (rule Sub64_unat [OF e_x4]) (use s1 in simp)
  have s3: "unat x5 + unat (limb2 t2) + unat x4
      = unat (limb2 t1) + 18446744073709551616 * unat x6 \<and> unat x6 \<le> 1"
    by (rule Sub64_unat [OF e_x6]) (use s2 in simp)
  have s4: "unat x7 + unat (limb3 t2) + unat x6
      = unat (limb3 t1) + 18446744073709551616 * unat x8 \<and> unat x8 \<le> 1"
    by (rule Sub64_unat [OF e_x8]) (use s3 in simp)
  have diff: "val4 x1 x3 x5 x7 + val t2 = val t1 + R * unat x8"
    using s1 s2 s3 s4 unfolding val_def val4_def R_def by simp
  have dlt: "val4 x1 x3 x5 x7 < R" by (rule val4_lt)
  have a1: "unat x10 + 18446744073709551616 * unat x11
      = unat x1 + unat (x9 AND 0xfffffffefffffc2f) + unat (0 :: u64) \<and> unat x11 \<le> 1"
    by (rule Add64_unat [OF e_x11]) simp
  have a2: "unat x12 + 18446744073709551616 * unat x13 = unat x3 + unat x9 + unat x11 \<and> unat x13 \<le> 1"
    by (rule Add64_unat [OF e_x13]) (use a1 in simp)
  have a3: "unat x14 + 18446744073709551616 * unat x15 = unat x5 + unat x9 + unat x13 \<and> unat x15 \<le> 1"
    by (rule Add64_unat [OF e_x15]) (use a2 in simp)
  have a4: "unat x16 + 18446744073709551616 * unat d_x16 = unat x7 + unat x9 + unat x15 \<and> unat d_x16 \<le> 1"
    by (rule Add64_unat [OF e_x16]) (use a3 in simp)
  have rlt: "val4 x10 x12 x14 x16 < R" by (rule val4_lt)
  show ?thesis
  proof (cases "unat x8 = 0")
    case True
    then have "x8 = 0" by (rule unat_eq_0D)
    then have x9: "x9 = 0" using e_x9 by (simp add: cmovznz_0)
    have sum: "val4 x10 x12 x14 x16 + R * unat d_x16 = val4 x1 x3 x5 x7"
      using a1 a2 a3 a4 unfolding x9 val4_def R_def by simp
    have "unat d_x16 = 0"
    proof (rule ccontr)
      assume "unat d_x16 \<noteq> 0"
      with a4 have "unat d_x16 = 1" by simp
      with sum dlt show False by simp
    qed
    with sum have "val4 x10 x12 x14 x16 = val4 x1 x3 x5 x7" by simp
    then have v: "val (Sub t1 t2) + val t2 = val t1"
      using diff True by (simp add: res val_def)
    then have "val t1 + P - val t2 = val (Sub t1 t2) + P" by simp
    moreover have "val (Sub t1 t2) < P" using v assms(1) by simp
    ultimately show ?thesis by simp
  next
    case False
    with s4 have "unat x8 = 1" by simp
    then have x8: "x8 = 1" by (rule unat_eq_1D)
    then have x9: "x9 = 0xffffffffffffffff" using e_x9 by (simp add: cmovznz_1)
    have and9: "x9 AND 0xfffffffefffffc2f = 0xfffffffefffffc2f"
      unfolding x9 by simp
    have sum: "val4 x10 x12 x14 x16 + R * unat d_x16 = val4 x1 x3 x5 x7 + P"
      using a1 a2 a3 a4 unfolding and9 x9 val4_def R_def P_def by simp
    have d1: "unat d_x16 = 1"
    proof (rule ccontr)
      assume "unat d_x16 \<noteq> 1"
      with a4 have "unat d_x16 = 0" by simp
      with sum have "val4 x10 x12 x14 x16 = val4 x1 x3 x5 x7 + P" by simp
      moreover have "val4 x1 x3 x5 x7 + val t2 = val t1 + R"
        using diff \<open>unat x8 = 1\<close> by simp
      ultimately show False using rlt assms by simp
    qed
    have v: "val (Sub t1 t2) + val t2 = val t1 + P"
      using sum diff d1 \<open>unat x8 = 1\<close> by (simp add: res val_def)
    then have e: "val t1 + P - val t2 = val (Sub t1 t2)" by simp
    have "val t1 < val t2"
    proof (rule ccontr)
      assume "\<not> val t1 < val t2"
      then have "val4 x1 x3 x5 x7 \<ge> R" using diff \<open>unat x8 = 1\<close> by simp
      with dlt show False by simp
    qed
    with v have "val (Sub t1 t2) < P" by simp
    with e show ?thesis by simp
  qed
qed

section \<open>Montgomery multiplication\<close>

lemma round_combine:
  assumes acc: "S + R * (s4 + 18446744073709551616 * c) = A + Row \<and> c \<le> (1::nat)"
    and red: "18446744073709551616 * (V + R * k) = S + R * s4 + mP \<and> k \<le> (1::nat)"
    and tp: "t = k + c"
  shows "18446744073709551616 * (V + R * t) = A + Row + mP"
proof -
  have "18446744073709551616 * (V + R * t) = 18446744073709551616 * (V + R * k) + R * (18446744073709551616 * c)"
    unfolding tp by (simp add: algebra_simps)
  also have "\<dots> = S + R * s4 + mP + R * (18446744073709551616 * c)"
    using red by simp
  also have "\<dots> = (S + R * (s4 + 18446744073709551616 * c)) + mP"
    by (simp add: algebra_simps)
  finally show ?thesis using acc by simp
qed

lemma carry_pair_sum:
  assumes "k + c = (t :: u64)" and "unat k \<le> 1" and "unat c \<le> 1"
  shows "unat t = unat k + unat c"
proof -
  have "unat k + unat c < 2 ^ LENGTH(64)" using assms(2,3) by simp
  then have "unat (k + c) = unat k + unat c"
    by (simp only: unat_add_lem [THEN iffD1])
  with assms(1) show ?thesis by simp
qed

lemma mont_unroll:
  assumes 1: "18446744073709551616 * A1 = a0 * B + m1 * P"
    and 2: "18446744073709551616 * A2 = A1 + a1 * B + m2 * P"
    and 3: "18446744073709551616 * A3 = A2 + a2 * B + m3 * P"
    and 4: "18446744073709551616 * A4 = A3 + a3 * B + m4 * P"
  shows "R * A4 = (a0 + 18446744073709551616 * (a1 + 18446744073709551616 * (a2 + 18446744073709551616 * a3))) * B
      + (m1 + 18446744073709551616 * (m2 + 18446744073709551616 * (m3 + 18446744073709551616 * m4))) * P"
proof -
  have "R * A4 = 18446744073709551616 * (18446744073709551616 * (18446744073709551616 * (18446744073709551616 * A4)))"
    by (simp add: R_def)
  also have "\<dots> = 18446744073709551616 * (18446744073709551616 * (18446744073709551616 * A3 + 18446744073709551616 * (a3 * B + m4 * P)))"
    unfolding 4 by (simp add: algebra_simps)
  also have "\<dots> = 18446744073709551616 * (18446744073709551616 * A2 + 18446744073709551616 * (a2 * B + m3 * P)
      + 18446744073709551616 * (18446744073709551616 * (a3 * B + m4 * P)))"
    unfolding 3 by (simp add: algebra_simps)
  also have "\<dots> = 18446744073709551616 * A1 + 18446744073709551616 * (a1 * B + m2 * P)
      + 18446744073709551616 * (18446744073709551616 * (a2 * B + m3 * P))
      + 18446744073709551616 * (18446744073709551616 * (18446744073709551616 * (a3 * B + m4 * P)))"
    unfolding 2 by (simp add: algebra_simps)
  also have "\<dots> = (a0 + 18446744073709551616 * (a1 + 18446744073709551616 * (a2 + 18446744073709551616 * a3))) * B
      + (m1 + 18446744073709551616 * (m2 + 18446744073709551616 * (m3 + 18446744073709551616 * m4))) * P"
    unfolding 1 by (simp add: algebra_simps)
  finally show ?thesis .
qed

text \<open>
  \<open>Mul\<close> computes the Montgomery product: the result is below \<open>p\<close> and, multiplied by
  \<open>R\<close>, congruent to the product of the operands. Only the second operand has to be
  below \<open>p\<close>.
\<close>

lemma Mul_val:
  assumes "val t2 < P"
  shows "val (Mul t1 t2) < P \<and> (val (Mul t1 t2) * R) mod P = (val t1 * val t2) mod P"
proof -
  obtain x1 where e_x1: "limb1 t1 = x1" by simp
  obtain x2 where e_x2: "limb2 t1 = x2" by simp
  obtain x3 where e_x3: "limb3 t1 = x3" by simp
  obtain x4 where e_x4: "limb0 t1 = x4" by simp
  obtain x6 x5 where e_x5: "Mul64 x4 (limb3 t2) = (x6, x5)" by (rule prod.exhaust)
  obtain x8 x7 where e_x7: "Mul64 x4 (limb2 t2) = (x8, x7)" by (rule prod.exhaust)
  obtain x10 x9 where e_x9: "Mul64 x4 (limb1 t2) = (x10, x9)" by (rule prod.exhaust)
  obtain x12 x11 where e_x11: "Mul64 x4 (limb0 t2) = (x12, x11)" by (rule prod.exhaust)
  obtain x13 x14 where e_x14: "Add64 x12 x9 0 = (x13, x14)" by (rule prod.exhaust)
  obtain x15 x16 where e_x16: "Add64 x10 x7 x14 = (x15, x16)" by (rule prod.exhaust)
  obtain x17 x18 where e_x18: "Add64 x8 x5 x16 = (x17, x18)" by (rule prod.exhaust)
  obtain x19 where e_x19: "x18 + x6 = x19" by simp
  obtain d_x20 x20 where e_x20: "Mul64 x11 0xd838091dd2253531 = (d_x20, x20)" by (rule prod.exhaust)
  obtain x23 x22 where e_x22: "Mul64 x20 0xffffffffffffffff = (x23, x22)" by (rule prod.exhaust)
  obtain x29 x28 where e_x28: "Mul64 x20 0xfffffffefffffc2f = (x29, x28)" by (rule prod.exhaust)
  obtain x30 x31 where e_x31: "Add64 x29 x22 0 = (x30, x31)" by (rule prod.exhaust)
  obtain x32 x33 where e_x33: "Add64 x23 x22 x31 = (x32, x33)" by (rule prod.exhaust)
  obtain x34 x35 where e_x35: "Add64 x23 x22 x33 = (x34, x35)" by (rule prod.exhaust)
  obtain x36 where e_x36: "x35 + x23 = x36" by simp
  obtain d_x38 x38 where e_x38: "Add64 x11 x28 0 = (d_x38, x38)" by (rule prod.exhaust)
  obtain x39 x40 where e_x40: "Add64 x13 x30 x38 = (x39, x40)" by (rule prod.exhaust)
  obtain x41 x42 where e_x42: "Add64 x15 x32 x40 = (x41, x42)" by (rule prod.exhaust)
  obtain x43 x44 where e_x44: "Add64 x17 x34 x42 = (x43, x44)" by (rule prod.exhaust)
  obtain x45 x46 where e_x46: "Add64 x19 x36 x44 = (x45, x46)" by (rule prod.exhaust)
  obtain x48 x47 where e_x47: "Mul64 x1 (limb3 t2) = (x48, x47)" by (rule prod.exhaust)
  obtain x50 x49 where e_x49: "Mul64 x1 (limb2 t2) = (x50, x49)" by (rule prod.exhaust)
  obtain x52 x51 where e_x51: "Mul64 x1 (limb1 t2) = (x52, x51)" by (rule prod.exhaust)
  obtain x54 x53 where e_x53: "Mul64 x1 (limb0 t2) = (x54, x53)" by (rule prod.exhaust)
  obtain x55 x56 where e_x56: "Add64 x54 x51 0 = (x55, x56)" by (rule prod.exhaust)
  obtain x57 x58 where e_x58: "Add64 x52 x49 x56 = (x57, x58)" by (rule prod.exhaust)
  obtain x59 x60 where e_x60: "Add64 x50 x47 x58 = (x59, x60)" by (rule prod.exhaust)
  obtain x61 where e_x61: "x60 + x48 = x61" by simp
  obtain x62 x63 where e_x63: "Add64 x39 x53 0 = (x62, x63)" by (rule prod.exhaust)
  obtain x64 x65 where e_x65: "Add64 x41 x55 x63 = (x64, x65)" by (rule prod.exhaust)
  obtain x66 x67 where e_x67: "Add64 x43 x57 x65 = (x66, x67)" by (rule prod.exhaust)
  obtain x68 x69 where e_x69: "Add64 x45 x59 x67 = (x68, x69)" by (rule prod.exhaust)
  obtain x70 x71 where e_x71: "Add64 x46 x61 x69 = (x70, x71)" by (rule prod.exhaust)
  obtain d_x72 x72 where e_x72: "Mul64 x62 0xd838091dd2253531 = (d_x72, x72)" by (rule prod.exhaust)
  obtain x75 x74 where e_x74: "Mul64 x72 0xffffffffffffffff = (x75, x74)" by (rule prod.exhaust)
  obtain x81 x80 where e_x80: "Mul64 x72 0xfffffffefffffc2f = (x81, x80)" by (rule prod.exhaust)
  obtain x82 x83 where e_x83: "Add64 x81 x74 0 = (x82, x83)" by (rule prod.exhaust)
  obtain x84 x85 where e_x85: "Add64 x75 x74 x83 = (x84, x85)" by (rule prod.exhaust)
  obtain x86 x87 where e_x87: "Add64 x75 x74 x85 = (x86, x87)" by (rule prod.exhaust)
  obtain x88 where e_x88: "x87 + x75 = x88" by simp
  obtain d_x90 x90 where e_x90: "Add64 x62 x80 0 = (d_x90, x90)" by (rule prod.exhaust)
  obtain x91 x92 where e_x92: "Add64 x64 x82 x90 = (x91, x92)" by (rule prod.exhaust)
  obtain x93 x94 where e_x94: "Add64 x66 x84 x92 = (x93, x94)" by (rule prod.exhaust)
  obtain x95 x96 where e_x96: "Add64 x68 x86 x94 = (x95, x96)" by (rule prod.exhaust)
  obtain x97 x98 where e_x98: "Add64 x70 x88 x96 = (x97, x98)" by (rule prod.exhaust)
  obtain x99 where e_x99: "x98 + x71 = x99" by simp
  obtain x101 x100 where e_x100: "Mul64 x2 (limb3 t2) = (x101, x100)" by (rule prod.exhaust)
  obtain x103 x102 where e_x102: "Mul64 x2 (limb2 t2) = (x103, x102)" by (rule prod.exhaust)
  obtain x105 x104 where e_x104: "Mul64 x2 (limb1 t2) = (x105, x104)" by (rule prod.exhaust)
  obtain x107 x106 where e_x106: "Mul64 x2 (limb0 t2) = (x107, x106)" by (rule prod.exhaust)
  obtain x108 x109 where e_x109: "Add64 x107 x104 0 = (x108, x109)" by (rule prod.exhaust)
  obtain x110 x111 where e_x111: "Add64 x105 x102 x109 = (x110, x111)" by (rule prod.exhaust)
  obtain x112 x113 where e_x113: "Add64 x103 x100 x111 = (x112, x113)" by (rule prod.exhaust)
  obtain x114 where e_x114: "x113 + x101 = x114" by simp
  obtain x115 x116 where e_x116: "Add64 x91 x106 0 = (x115, x116)" by (rule prod.exhaust)
  obtain x117 x118 where e_x118: "Add64 x93 x108 x116 = (x117, x118)" by (rule prod.exhaust)
  obtain x119 x120 where e_x120: "Add64 x95 x110 x118 = (x119, x120)" by (rule prod.exhaust)
  obtain x121 x122 where e_x122: "Add64 x97 x112 x120 = (x121, x122)" by (rule prod.exhaust)
  obtain x123 x124 where e_x124: "Add64 x99 x114 x122 = (x123, x124)" by (rule prod.exhaust)
  obtain d_x125 x125 where e_x125: "Mul64 x115 0xd838091dd2253531 = (d_x125, x125)" by (rule prod.exhaust)
  obtain x128 x127 where e_x127: "Mul64 x125 0xffffffffffffffff = (x128, x127)" by (rule prod.exhaust)
  obtain x134 x133 where e_x133: "Mul64 x125 0xfffffffefffffc2f = (x134, x133)" by (rule prod.exhaust)
  obtain x135 x136 where e_x136: "Add64 x134 x127 0 = (x135, x136)" by (rule prod.exhaust)
  obtain x137 x138 where e_x138: "Add64 x128 x127 x136 = (x137, x138)" by (rule prod.exhaust)
  obtain x139 x140 where e_x140: "Add64 x128 x127 x138 = (x139, x140)" by (rule prod.exhaust)
  obtain x141 where e_x141: "x140 + x128 = x141" by simp
  obtain d_x143 x143 where e_x143: "Add64 x115 x133 0 = (d_x143, x143)" by (rule prod.exhaust)
  obtain x144 x145 where e_x145: "Add64 x117 x135 x143 = (x144, x145)" by (rule prod.exhaust)
  obtain x146 x147 where e_x147: "Add64 x119 x137 x145 = (x146, x147)" by (rule prod.exhaust)
  obtain x148 x149 where e_x149: "Add64 x121 x139 x147 = (x148, x149)" by (rule prod.exhaust)
  obtain x150 x151 where e_x151: "Add64 x123 x141 x149 = (x150, x151)" by (rule prod.exhaust)
  obtain x152 where e_x152: "x151 + x124 = x152" by simp
  obtain x154 x153 where e_x153: "Mul64 x3 (limb3 t2) = (x154, x153)" by (rule prod.exhaust)
  obtain x156 x155 where e_x155: "Mul64 x3 (limb2 t2) = (x156, x155)" by (rule prod.exhaust)
  obtain x158 x157 where e_x157: "Mul64 x3 (limb1 t2) = (x158, x157)" by (rule prod.exhaust)
  obtain x160 x159 where e_x159: "Mul64 x3 (limb0 t2) = (x160, x159)" by (rule prod.exhaust)
  obtain x161 x162 where e_x162: "Add64 x160 x157 0 = (x161, x162)" by (rule prod.exhaust)
  obtain x163 x164 where e_x164: "Add64 x158 x155 x162 = (x163, x164)" by (rule prod.exhaust)
  obtain x165 x166 where e_x166: "Add64 x156 x153 x164 = (x165, x166)" by (rule prod.exhaust)
  obtain x167 where e_x167: "x166 + x154 = x167" by simp
  obtain x168 x169 where e_x169: "Add64 x144 x159 0 = (x168, x169)" by (rule prod.exhaust)
  obtain x170 x171 where e_x171: "Add64 x146 x161 x169 = (x170, x171)" by (rule prod.exhaust)
  obtain x172 x173 where e_x173: "Add64 x148 x163 x171 = (x172, x173)" by (rule prod.exhaust)
  obtain x174 x175 where e_x175: "Add64 x150 x165 x173 = (x174, x175)" by (rule prod.exhaust)
  obtain x176 x177 where e_x177: "Add64 x152 x167 x175 = (x176, x177)" by (rule prod.exhaust)
  obtain d_x178 x178 where e_x178: "Mul64 x168 0xd838091dd2253531 = (d_x178, x178)" by (rule prod.exhaust)
  obtain x181 x180 where e_x180: "Mul64 x178 0xffffffffffffffff = (x181, x180)" by (rule prod.exhaust)
  obtain x187 x186 where e_x186: "Mul64 x178 0xfffffffefffffc2f = (x187, x186)" by (rule prod.exhaust)
  obtain x188 x189 where e_x189: "Add64 x187 x180 0 = (x188, x189)" by (rule prod.exhaust)
  obtain x190 x191 where e_x191: "Add64 x181 x180 x189 = (x190, x191)" by (rule prod.exhaust)
  obtain x192 x193 where e_x193: "Add64 x181 x180 x191 = (x192, x193)" by (rule prod.exhaust)
  obtain x194 where e_x194: "x193 + x181 = x194" by simp
  obtain d_x196 x196 where e_x196: "Add64 x168 x186 0 = (d_x196, x196)" by (rule prod.exhaust)
  obtain x197 x198 where e_x198: "Add64 x170 x188 x196 = (x197, x198)" by (rule prod.exhaust)
  obtain x199 x200 where e_x200: "Add64 x172 x190 x198 = (x199, x200)" by (rule prod.exhaust)
  obtain x201 x202 where e_x202: "Add64 x174 x192 x200 = (x201, x202)" by (rule prod.exhaust)
  obtain x203 x204 where e_x204: "Add64 x176 x194 x202 = (x203, x204)" by (rule prod.exhaust)
  obtain x205 where e_x205: "x204 + x177 = x205" by simp
  obtain x206 x207 where e_x207: "Sub64 x197 0xfffffffefffffc2f 0 = (x206, x207)" by (rule prod.exhaust)
  obtain x208 x209 where e_x209: "Sub64 x199 0xffffffffffffffff x207 = (x208, x209)" by (rule prod.exhaust)
  obtain x210 x211 where e_x211: "Sub64 x201 0xffffffffffffffff x209 = (x210, x211)" by (rule prod.exhaust)
  obtain x212 x213 where e_x213: "Sub64 x203 0xffffffffffffffff x211 = (x212, x213)" by (rule prod.exhaust)
  obtain d_x215 x215 where e_x215: "Sub64 x205 0 x213 = (d_x215, x215)" by (rule prod.exhaust)
  obtain x216 where e_x216: "cmovznz x215 x206 x197 = x216" by simp
  obtain x217 where e_x217: "cmovznz x215 x208 x199 = x217" by simp
  obtain x218 where e_x218: "cmovznz x215 x210 x201 = x218" by simp
  obtain x219 where e_x219: "cmovznz x215 x212 x203 = x219" by simp
  have res: "Mul t1 t2 = Elem x216 x217 x218 x219"
    unfolding Mul_def by (simp add: Let_def e_x1 e_x2 e_x3 e_x4 e_x5 e_x7 e_x9 e_x11 e_x14 e_x16 e_x18 e_x19 e_x20 e_x22 e_x28 e_x31 e_x33 e_x35 e_x36 e_x38 e_x40 e_x42 e_x44 e_x46 e_x47 e_x49 e_x51 e_x53 e_x56 e_x58 e_x60 e_x61 e_x63 e_x65 e_x67 e_x69 e_x71 e_x72 e_x74 e_x80 e_x83 e_x85 e_x87 e_x88 e_x90 e_x92 e_x94 e_x96 e_x98 e_x99 e_x100 e_x102 e_x104 e_x106 e_x109 e_x111 e_x113 e_x114 e_x116 e_x118 e_x120 e_x122 e_x124 e_x125 e_x127 e_x133 e_x136 e_x138 e_x140 e_x141 e_x143 e_x145 e_x147 e_x149 e_x151 e_x152 e_x153 e_x155 e_x157 e_x159 e_x162 e_x164 e_x166 e_x167 e_x169 e_x171 e_x173 e_x175 e_x177 e_x178 e_x180 e_x186 e_x189 e_x191 e_x193 e_x194 e_x196 e_x198 e_x200 e_x202 e_x204 e_x205 e_x207 e_x209 e_x211 e_x213 e_x215 e_x216 e_x217 e_x218 e_x219)
  define B where "B = val t2"
  have B4: "val4 (limb0 t2) (limb1 t2) (limb2 t2) (limb3 t2) = B"
    by (simp add: B_def val_def)
  have row1: "val4 x11 x13 x15 x17 + R * unat x19 = unat x4 * B"
    using mulrow [OF e_x5 e_x7 e_x9 e_x11 e_x14 e_x16 e_x18 e_x19] by (simp only: B4)
  have mrow1: "val4 x28 x30 x32 x34 + R * unat x36 = unat x20 * P"
    using mulrow [OF e_x22 e_x22 e_x22 e_x28 e_x31 e_x33 e_x35 e_x36] by (simp only: val4_P)
  note red1 = mont_reduce [OF e_x20 mrow1 e_x28 e_x38 e_x40 e_x42 e_x44 e_x46]
  define A1 where "A1 = val4 x39 x41 x43 x45 + R * unat x46"
  have A1: "18446744073709551616 * A1 = unat x4 * B + unat x20 * P"
    using red1 row1 by (simp add: A1_def)
  have A1b: "A1 < B + P"
  proof (rule mont_bound [where A = 0 and a = "unat x4" and m = "unat x20"])
    show "18446744073709551616 * A1 = 0 + unat x4 * B + unat x20 * P" using A1 by simp
    show "0 < B + P" by (simp add: P_def)
  qed (rule unat_lt_W)+
  have row2: "val4 x53 x55 x57 x59 + R * unat x61 = unat x1 * B"
    using mulrow [OF e_x47 e_x49 e_x51 e_x53 e_x56 e_x58 e_x60 e_x61] by (simp only: B4)
  note acc2 = acc5 [OF e_x63 e_x65 e_x67 e_x69 e_x71]
  have mrow2: "val4 x80 x82 x84 x86 + R * unat x88 = unat x72 * P"
    using mulrow [OF e_x74 e_x74 e_x74 e_x80 e_x83 e_x85 e_x87 e_x88] by (simp only: val4_P)
  note red2 = mont_reduce [OF e_x72 mrow2 e_x80 e_x90 e_x92 e_x94 e_x96 e_x98]
  have top2: "unat x99 = unat x98 + unat x71"
    by (rule carry_pair_sum [OF e_x99]) (use red2 acc2 in simp_all)
  define A2 where "A2 = val4 x91 x93 x95 x97 + R * unat x99"
  have A2: "18446744073709551616 * A2 = A1 + unat x1 * B + unat x72 * P"
    unfolding A2_def A1_def
    using round_combine [OF acc2 red2 top2] row2 by (simp only: add.assoc)
  have A2b: "A2 < B + P"
    by (rule mont_bound [OF A2 A1b unat_lt_W unat_lt_W])
  have row3: "val4 x106 x108 x110 x112 + R * unat x114 = unat x2 * B"
    using mulrow [OF e_x100 e_x102 e_x104 e_x106 e_x109 e_x111 e_x113 e_x114] by (simp only: B4)
  note acc3 = acc5 [OF e_x116 e_x118 e_x120 e_x122 e_x124]
  have mrow3: "val4 x133 x135 x137 x139 + R * unat x141 = unat x125 * P"
    using mulrow [OF e_x127 e_x127 e_x127 e_x133 e_x136 e_x138 e_x140 e_x141] by (simp only: val4_P)
  note red3 = mont_reduce [OF e_x125 mrow3 e_x133 e_x143 e_x145 e_x147 e_x149 e_x151]
  have top3: "unat x152 = unat x151 + unat x124"
    by (rule carry_pair_sum [OF e_x152]) (use red3 acc3 in simp_all)
  define A3 where "A3 = val4 x144 x146 x148 x150 + R * unat x152"
  have A3: "18446744073709551616 * A3 = A2 + unat x2 * B + unat x125 * P"
    unfolding A3_def A2_def
    using round_combine [OF acc3 red3 top3] row3 by (simp only: add.assoc)
  have A3b: "A3 < B + P"
    by (rule mont_bound [OF A3 A2b unat_lt_W unat_lt_W])
  have row4: "val4 x159 x161 x163 x165 + R * unat x167 = unat x3 * B"
    using mulrow [OF e_x153 e_x155 e_x157 e_x159 e_x162 e_x164 e_x166 e_x167] by (simp only: B4)
  note acc4 = acc5 [OF e_x169 e_x171 e_x173 e_x175 e_x177]
  have mrow4: "val4 x186 x188 x190 x192 + R * unat x194 = unat x178 * P"
    using mulrow [OF e_x180 e_x180 e_x180 e_x186 e_x189 e_x191 e_x193 e_x194] by (simp only: val4_P)
  note red4 = mont_reduce [OF e_x178 mrow4 e_x186 e_x196 e_x198 e_x200 e_x202 e_x204]
  have top4: "unat x205 = unat x204 + unat x177"
    by (rule carry_pair_sum [OF e_x205]) (use red4 acc4 in simp_all)
  define A4 where "A4 = val4 x197 x199 x201 x203 + R * unat x205"
  have A4: "18446744073709551616 * A4 = A3 + unat x3 * B + unat x178 * P"
    unfolding A4_def A3_def
    using round_combine [OF acc4 red4 top4] row4 by (simp only: add.assoc)
  have A4b: "A4 < B + P"
    by (rule mont_bound [OF A4 A3b unat_lt_W unat_lt_W])
  have A4lt: "A4 < 2 * P"
    using A4b assms by (simp add: B_def)
  have "val4 x216 x217 x218 x219 = (val4 x197 x199 x201 x203 + R * unat x205) mod P"
    by (rule cond_sub [OF e_x207 e_x209 e_x211 e_x213 e_x215 e_x216 e_x217 e_x218 e_x219])
      (use A4lt in \<open>simp add: A4_def\<close>)
  then have v: "val (Mul t1 t2) = A4 mod P"
    by (simp add: res val_def A4_def)
  have t1: "val t1 = unat x4 + 18446744073709551616 * (unat x1 + 18446744073709551616 * (unat x2 + 18446744073709551616 * unat x3))"
    using e_x1 e_x2 e_x3 e_x4 by (simp add: val_def val4_def)
  have "R * A4 = val t1 * B
      + (unat x20 + 18446744073709551616 * (unat x72 + 18446744073709551616 * (unat x125 + 18446744073709551616 * unat x178))) * P"
    unfolding t1 by (rule mont_unroll [OF A1 A2 A3 A4])
  then have "(R * A4) mod P = (val t1 * B) mod P"
    by simp
  moreover have "(val (Mul t1 t2) * R) mod P = (R * A4) mod P"
    unfolding v by (metis mod_mult_left_eq mult.commute)
  moreover have "val (Mul t1 t2) < P"
    unfolding v by (simp add: P_def)
  ultimately show ?thesis by (simp add: B_def)
qed

lemma Square_Mul: "Square t = Mul t t"
  by (simp only: Square_def Mul_def)

section \<open>Into and out of the Montgomery domain\<close>

lemma add4:
  assumes "Add64 a0 b0 0 = (s0, c0)" "Add64 a1 b1 c0 = (s1, c1)" "Add64 a2 b2 c1 = (s2, c2)"
    "Add64 a3 b3 c2 = (s3, c3)"
  shows "val4 s0 s1 s2 s3 + R * unat c3 = val4 a0 a1 a2 a3 + val4 b0 b1 b2 b3 \<and> unat c3 \<le> 1"
proof -
  have k0: "unat s0 + 18446744073709551616 * unat c0 = unat a0 + unat b0 + unat (0::u64)
      \<and> unat c0 \<le> 1"
    by (rule Add64_unat [OF assms(1)]) simp
  have k1: "unat s1 + 18446744073709551616 * unat c1 = unat a1 + unat b1 + unat c0
      \<and> unat c1 \<le> 1"
    by (rule Add64_unat [OF assms(2)]) (use k0 in simp)
  have k2: "unat s2 + 18446744073709551616 * unat c2 = unat a2 + unat b2 + unat c1
      \<and> unat c2 \<le> 1"
    by (rule Add64_unat [OF assms(3)]) (use k1 in simp)
  have k3: "unat s3 + 18446744073709551616 * unat c3 = unat a3 + unat b3 + unat c2
      \<and> unat c3 \<le> 1"
    by (rule Add64_unat [OF assms(4)]) (use k2 in simp)
  show ?thesis
    unfolding val4_def R_def using k0 k1 k2 k3 by simp
qed

lemma round_combine4:
  assumes acc: "S + R * unat (c :: u64) = V0 + Row \<and> unat c \<le> 1"
    and red: "18446744073709551616 * A' = S + R * unat (c + k0) + mP \<and> unat (k :: u64) \<le> 1"
    and k0: "unat (k0 :: u64) \<le> 1"
  shows "18446744073709551616 * A' = (V0 + R * unat k0) + Row + mP"
proof -
  have "unat (c + k0) = unat c + unat k0"
    by (rule carry_pair_sum [OF refl]) (use acc k0 in simp_all)
  then have "18446744073709551616 * A' = (S + R * unat c) + R * unat k0 + mP"
    using red by (simp add: algebra_simps)
  then show ?thesis using acc by simp
qed

text \<open>
  \<open>fromMontgomery\<close> divides by \<open>R\<close> modulo \<open>p\<close>, for every input, and its result is
  below \<open>p\<close>.
\<close>

lemma fromMontgomery_val:
  "val (fromMontgomery arg1) < P \<and> (val (fromMontgomery arg1) * R) mod P = val arg1 mod P"
proof -
  obtain x1 where e_x1: "limb0 arg1 = x1" by simp
  obtain d_x2 x2 where e_x2: "Mul64 x1 0xd838091dd2253531 = (d_x2, x2)" by (rule prod.exhaust)
  obtain x5 x4 where e_x4: "Mul64 x2 0xffffffffffffffff = (x5, x4)" by (rule prod.exhaust)
  obtain x11 x10 where e_x10: "Mul64 x2 0xfffffffefffffc2f = (x11, x10)" by (rule prod.exhaust)
  obtain x12 x13 where e_x13: "Add64 x11 x4 0 = (x12, x13)" by (rule prod.exhaust)
  obtain x14 x15 where e_x15: "Add64 x5 x4 x13 = (x14, x15)" by (rule prod.exhaust)
  obtain x16 x17 where e_x17: "Add64 x5 x4 x15 = (x16, x17)" by (rule prod.exhaust)
  obtain d_x19 x19 where e_x19: "Add64 x1 x10 0 = (d_x19, x19)" by (rule prod.exhaust)
  obtain x20 x21 where e_x21: "Add64 0 x12 x19 = (x20, x21)" by (rule prod.exhaust)
  obtain x22 x23 where e_x23: "Add64 0 x14 x21 = (x22, x23)" by (rule prod.exhaust)
  obtain x24 x25 where e_x25: "Add64 0 x16 x23 = (x24, x25)" by (rule prod.exhaust)
  obtain x26 x27 where e_x27: "Add64 0 (x17 + x5) x25 = (x26, x27)" by (rule prod.exhaust)
  obtain x28 x29 where e_x29: "Add64 x20 (limb1 arg1) 0 = (x28, x29)" by (rule prod.exhaust)
  obtain x30 x31 where e_x31: "Add64 x22 0 x29 = (x30, x31)" by (rule prod.exhaust)
  obtain x32 x33 where e_x33: "Add64 x24 0 x31 = (x32, x33)" by (rule prod.exhaust)
  obtain x34 x35 where e_x35: "Add64 x26 0 x33 = (x34, x35)" by (rule prod.exhaust)
  obtain d_x36 x36 where e_x36: "Mul64 x28 0xd838091dd2253531 = (d_x36, x36)" by (rule prod.exhaust)
  obtain x39 x38 where e_x38: "Mul64 x36 0xffffffffffffffff = (x39, x38)" by (rule prod.exhaust)
  obtain x45 x44 where e_x44: "Mul64 x36 0xfffffffefffffc2f = (x45, x44)" by (rule prod.exhaust)
  obtain x46 x47 where e_x47: "Add64 x45 x38 0 = (x46, x47)" by (rule prod.exhaust)
  obtain x48 x49 where e_x49: "Add64 x39 x38 x47 = (x48, x49)" by (rule prod.exhaust)
  obtain x50 x51 where e_x51: "Add64 x39 x38 x49 = (x50, x51)" by (rule prod.exhaust)
  obtain d_x53 x53 where e_x53: "Add64 x28 x44 0 = (d_x53, x53)" by (rule prod.exhaust)
  obtain x54 x55 where e_x55: "Add64 x30 x46 x53 = (x54, x55)" by (rule prod.exhaust)
  obtain x56 x57 where e_x57: "Add64 x32 x48 x55 = (x56, x57)" by (rule prod.exhaust)
  obtain x58 x59 where e_x59: "Add64 x34 x50 x57 = (x58, x59)" by (rule prod.exhaust)
  obtain x60 x61 where e_x61: "Add64 (x35 + x27) (x51 + x39) x59 = (x60, x61)" by (rule prod.exhaust)
  obtain x62 x63 where e_x63: "Add64 x54 (limb2 arg1) 0 = (x62, x63)" by (rule prod.exhaust)
  obtain x64 x65 where e_x65: "Add64 x56 0 x63 = (x64, x65)" by (rule prod.exhaust)
  obtain x66 x67 where e_x67: "Add64 x58 0 x65 = (x66, x67)" by (rule prod.exhaust)
  obtain x68 x69 where e_x69: "Add64 x60 0 x67 = (x68, x69)" by (rule prod.exhaust)
  obtain d_x70 x70 where e_x70: "Mul64 x62 0xd838091dd2253531 = (d_x70, x70)" by (rule prod.exhaust)
  obtain x73 x72 where e_x72: "Mul64 x70 0xffffffffffffffff = (x73, x72)" by (rule prod.exhaust)
  obtain x79 x78 where e_x78: "Mul64 x70 0xfffffffefffffc2f = (x79, x78)" by (rule prod.exhaust)
  obtain x80 x81 where e_x81: "Add64 x79 x72 0 = (x80, x81)" by (rule prod.exhaust)
  obtain x82 x83 where e_x83: "Add64 x73 x72 x81 = (x82, x83)" by (rule prod.exhaust)
  obtain x84 x85 where e_x85: "Add64 x73 x72 x83 = (x84, x85)" by (rule prod.exhaust)
  obtain d_x87 x87 where e_x87: "Add64 x62 x78 0 = (d_x87, x87)" by (rule prod.exhaust)
  obtain x88 x89 where e_x89: "Add64 x64 x80 x87 = (x88, x89)" by (rule prod.exhaust)
  obtain x90 x91 where e_x91: "Add64 x66 x82 x89 = (x90, x91)" by (rule prod.exhaust)
  obtain x92 x93 where e_x93: "Add64 x68 x84 x91 = (x92, x93)" by (rule prod.exhaust)
  obtain x94 x95 where e_x95: "Add64 (x69 + x61) (x85 + x73) x93 = (x94, x95)" by (rule prod.exhaust)
  obtain x96 x97 where e_x97: "Add64 x88 (limb3 arg1) 0 = (x96, x97)" by (rule prod.exhaust)
  obtain x98 x99 where e_x99: "Add64 x90 0 x97 = (x98, x99)" by (rule prod.exhaust)
  obtain x100 x101 where e_x101: "Add64 x92 0 x99 = (x100, x101)" by (rule prod.exhaust)
  obtain x102 x103 where e_x103: "Add64 x94 0 x101 = (x102, x103)" by (rule prod.exhaust)
  obtain d_x104 x104 where e_x104: "Mul64 x96 0xd838091dd2253531 = (d_x104, x104)" by (rule prod.exhaust)
  obtain x107 x106 where e_x106: "Mul64 x104 0xffffffffffffffff = (x107, x106)" by (rule prod.exhaust)
  obtain x113 x112 where e_x112: "Mul64 x104 0xfffffffefffffc2f = (x113, x112)" by (rule prod.exhaust)
  obtain x114 x115 where e_x115: "Add64 x113 x106 0 = (x114, x115)" by (rule prod.exhaust)
  obtain x116 x117 where e_x117: "Add64 x107 x106 x115 = (x116, x117)" by (rule prod.exhaust)
  obtain x118 x119 where e_x119: "Add64 x107 x106 x117 = (x118, x119)" by (rule prod.exhaust)
  obtain d_x121 x121 where e_x121: "Add64 x96 x112 0 = (d_x121, x121)" by (rule prod.exhaust)
  obtain x122 x123 where e_x123: "Add64 x98 x114 x121 = (x122, x123)" by (rule prod.exhaust)
  obtain x124 x125 where e_x125: "Add64 x100 x116 x123 = (x124, x125)" by (rule prod.exhaust)
  obtain x126 x127 where e_x127: "Add64 x102 x118 x125 = (x126, x127)" by (rule prod.exhaust)
  obtain x128 x129 where e_x129: "Add64 (x103 + x95) (x119 + x107) x127 = (x128, x129)" by (rule prod.exhaust)
  obtain x130 x131 where e_x131: "Sub64 x122 0xfffffffefffffc2f 0 = (x130, x131)" by (rule prod.exhaust)
  obtain x132 x133 where e_x133: "Sub64 x124 0xffffffffffffffff x131 = (x132, x133)" by (rule prod.exhaust)
  obtain x134 x135 where e_x135: "Sub64 x126 0xffffffffffffffff x133 = (x134, x135)" by (rule prod.exhaust)
  obtain x136 x137 where e_x137: "Sub64 x128 0xffffffffffffffff x135 = (x136, x137)" by (rule prod.exhaust)
  obtain d_x139 x139 where e_x139: "Sub64 x129 0 x137 = (d_x139, x139)" by (rule prod.exhaust)
  obtain o0 where e_o0: "cmovznz x139 x130 x122 = o0" by simp
  obtain o1 where e_o1: "cmovznz x139 x132 x124 = o1" by simp
  obtain o2 where e_o2: "cmovznz x139 x134 x126 = o2" by simp
  obtain o3 where e_o3: "cmovznz x139 x136 x128 = o3" by simp
  have res: "fromMontgomery arg1 = Elem o0 o1 o2 o3"
    unfolding fromMontgomery_def by (simp add: Let_def e_x1 e_x2 e_x4 e_x10 e_x13 e_x15 e_x17 e_x19 e_x21 e_x23 e_x25 e_x27 e_x29 e_x31 e_x33 e_x35 e_x36 e_x38 e_x44 e_x47 e_x49 e_x51 e_x53 e_x55 e_x57 e_x59 e_x61 e_x63 e_x65 e_x67 e_x69 e_x70 e_x72 e_x78 e_x81 e_x83 e_x85 e_x87 e_x89 e_x91 e_x93 e_x95 e_x97 e_x99 e_x101 e_x103 e_x104 e_x106 e_x112 e_x115 e_x117 e_x119 e_x121 e_x123 e_x125 e_x127 e_x129 e_x131 e_x133 e_x135 e_x137 e_x139 e_o0 e_o1 e_o2 e_o3)
  have mrow1: "val4 x10 x12 x14 x16 + R * unat (x17 + x5) = unat x2 * P"
    using mulrow [OF e_x4 e_x4 e_x4 e_x10 e_x13 e_x15 e_x17 refl] by (simp only: val4_P)
  note red1 = mont_reduce [OF e_x2 mrow1 e_x10 e_x19 e_x21 e_x23 e_x25 e_x27]
  define A1 where "A1 = val4 x20 x22 x24 x26 + R * unat x27"
  have A1: "18446744073709551616 * A1 = unat x1 * 1 + unat x2 * P"
    using red1 by (simp add: A1_def val4_def)
  have A1b: "A1 < 1 + P"
  proof (rule mont_bound [where A = 0 and a = "unat x1" and m = "unat x2"])
    show "18446744073709551616 * A1 = 0 + unat x1 * 1 + unat x2 * P" using A1 by simp
    show "0 < 1 + P" by simp
  qed (rule unat_lt_W)+
  note acc2 = add4 [OF e_x29 e_x31 e_x33 e_x35]
  have mrow2: "val4 x44 x46 x48 x50 + R * unat (x51 + x39) = unat x36 * P"
    using mulrow [OF e_x38 e_x38 e_x38 e_x44 e_x47 e_x49 e_x51 refl] by (simp only: val4_P)
  note red2 = mont_reduce [OF e_x36 mrow2 e_x44 e_x53 e_x55 e_x57 e_x59 e_x61]
  define A2 where "A2 = val4 x54 x56 x58 x60 + R * unat x61"
  have k1: "unat x27 \<le> 1" using red1 by simp
  have A2: "18446744073709551616 * A2 = A1 + unat (limb1 arg1) * 1 + unat x36 * P"
    unfolding A2_def A1_def
    using round_combine4 [OF acc2 red2 k1] by (simp add: val4_def)
  have A2b: "A2 < 1 + P"
    by (rule mont_bound [OF A2 A1b unat_lt_W unat_lt_W])
  note acc3 = add4 [OF e_x63 e_x65 e_x67 e_x69]
  have mrow3: "val4 x78 x80 x82 x84 + R * unat (x85 + x73) = unat x70 * P"
    using mulrow [OF e_x72 e_x72 e_x72 e_x78 e_x81 e_x83 e_x85 refl] by (simp only: val4_P)
  note red3 = mont_reduce [OF e_x70 mrow3 e_x78 e_x87 e_x89 e_x91 e_x93 e_x95]
  define A3 where "A3 = val4 x88 x90 x92 x94 + R * unat x95"
  have k2: "unat x61 \<le> 1" using red2 by simp
  have A3: "18446744073709551616 * A3 = A2 + unat (limb2 arg1) * 1 + unat x70 * P"
    unfolding A3_def A2_def
    using round_combine4 [OF acc3 red3 k2] by (simp add: val4_def)
  have A3b: "A3 < 1 + P"
    by (rule mont_bound [OF A3 A2b unat_lt_W unat_lt_W])
  note acc4 = add4 [OF e_x97 e_x99 e_x101 e_x103]
  have mrow4: "val4 x112 x114 x116 x118 + R * unat (x119 + x107) = unat x104 * P"
    using mulrow [OF e_x106 e_x106 e_x106 e_x112 e_x115 e_x117 e_x119 refl] by (simp only: val4_P)
  note red4 = mont_reduce [OF e_x104 mrow4 e_x112 e_x121 e_x123 e_x125 e_x127 e_x129]
  define A4 where "A4 = val4 x122 x124 x126 x128 + R * unat x129"
  have k3: "unat x95 \<le> 1" using red3 by simp
  have A4: "18446744073709551616 * A4 = A3 + unat (limb3 arg1) * 1 + unat x104 * P"
    unfolding A4_def A3_def
    using round_combine4 [OF acc4 red4 k3] by (simp add: val4_def)
  have A4b: "A4 < 1 + P"
    by (rule mont_bound [OF A4 A3b unat_lt_W unat_lt_W])
  have A4lt: "A4 < 2 * P"
    using A4b by (simp add: P_def)
  have "val4 o0 o1 o2 o3 = (val4 x122 x124 x126 x128 + R * unat x129) mod P"
    by (rule cond_sub [OF e_x131 e_x133 e_x135 e_x137 e_x139 e_o0 e_o1 e_o2 e_o3])
      (use A4lt in \<open>simp add: A4_def\<close>)
  then have v: "val (fromMontgomery arg1) = A4 mod P"
    by (simp add: res val_def A4_def)
  have t1: "val arg1 = unat x1 + 18446744073709551616 *
      (unat (limb1 arg1) + 18446744073709551616 * (unat (limb2 arg1) + 18446744073709551616 * unat (limb3 arg1)))"
    using e_x1 by (simp add: val_def val4_def)
  have "R * A4 = val arg1 * 1
      + (unat x2 + 18446744073709551616 * (unat x36 + 18446744073709551616 * (unat x70 + 18446744073709551616 * unat x104))) * P"
    unfolding t1 by (rule mont_unroll [OF A1 A2 A3 A4])
  then have "(R * A4) mod P = val arg1 mod P"
    by simp
  moreover have "(val (fromMontgomery arg1) * R) mod P = (R * A4) mod P"
    unfolding v by (metis mod_mult_left_eq mult.commute)
  moreover have "val (fromMontgomery arg1) < P"
    unfolding v by (simp add: P_def)
  ultimately show ?thesis by simp
qed

text \<open>
  \<open>toMontgomery\<close> is the Montgomery product with \<open>R^2 mod p = 2^64 + 0x7a2000e90a1\<close>, for
  every input, and its result is below \<open>p\<close>.
\<close>

lemma torow:
  assumes "Mul64 x 0x7a2000e90a1 = (h, l)" and "Add64 h x 0 = (r1, r2)"
  shows "val4 l r1 r2 0 = unat x * R2"
proof -
  have c: "unat (0x7a2000e90a1 :: u64) = 8392367050913" by simp
  have m: "18446744073709551616 * unat h + unat l = unat x * 8392367050913"
    using Mul64_unat [OF assms(1)] by (simp only: c)
  have a: "unat r1 + 18446744073709551616 * unat r2 = unat h + unat x + unat (0::u64) \<and> unat r2 \<le> 1"
    by (rule Add64_unat [OF assms(2)]) simp
  have "val4 l r1 r2 0 = unat l + 18446744073709551616 * (unat h + unat x)"
    unfolding val4_def using a by simp
  also have "\<dots> = unat x * 8392367050913 + 18446744073709551616 * unat x"
    using m by (simp add: algebra_simps)
  finally show ?thesis unfolding R2_def by (simp add: algebra_simps)
qed

lemma toMontgomery_val:
  "val (toMontgomery arg1) < P \<and> (val (toMontgomery arg1) * R) mod P = (val arg1 * R2) mod P"
proof -
  obtain x1 where e_x1: "limb1 arg1 = x1" by simp
  obtain x2 where e_x2: "limb2 arg1 = x2" by simp
  obtain x3 where e_x3: "limb3 arg1 = x3" by simp
  obtain x4 where e_x4: "limb0 arg1 = x4" by simp
  obtain x6 x5 where e_x5: "Mul64 x4 0x7a2000e90a1 = (x6, x5)" by (rule prod.exhaust)
  obtain x7 x8 where e_x8: "Add64 x6 x4 0 = (x7, x8)" by (rule prod.exhaust)
  obtain d_x9 x9 where e_x9: "Mul64 x5 0xd838091dd2253531 = (d_x9, x9)" by (rule prod.exhaust)
  obtain x12 x11 where e_x11: "Mul64 x9 0xffffffffffffffff = (x12, x11)" by (rule prod.exhaust)
  obtain x18 x17 where e_x17: "Mul64 x9 0xfffffffefffffc2f = (x18, x17)" by (rule prod.exhaust)
  obtain x19 x20 where e_x20: "Add64 x18 x11 0 = (x19, x20)" by (rule prod.exhaust)
  obtain x21 x22 where e_x22: "Add64 x12 x11 x20 = (x21, x22)" by (rule prod.exhaust)
  obtain x23 x24 where e_x24: "Add64 x12 x11 x22 = (x23, x24)" by (rule prod.exhaust)
  obtain d_x26 x26 where e_x26: "Add64 x5 x17 0 = (d_x26, x26)" by (rule prod.exhaust)
  obtain x27 x28 where e_x28: "Add64 x7 x19 x26 = (x27, x28)" by (rule prod.exhaust)
  obtain x29 x30 where e_x30: "Add64 x8 x21 x28 = (x29, x30)" by (rule prod.exhaust)
  obtain x31 x32 where e_x32: "Add64 0 x23 x30 = (x31, x32)" by (rule prod.exhaust)
  obtain x33 x34 where e_x34: "Add64 0 (x24 + x12) x32 = (x33, x34)" by (rule prod.exhaust)
  obtain x36 x35 where e_x35: "Mul64 x1 0x7a2000e90a1 = (x36, x35)" by (rule prod.exhaust)
  obtain x37 x38 where e_x38: "Add64 x36 x1 0 = (x37, x38)" by (rule prod.exhaust)
  obtain x39 x40 where e_x40: "Add64 x27 x35 0 = (x39, x40)" by (rule prod.exhaust)
  obtain x41 x42 where e_x42: "Add64 x29 x37 x40 = (x41, x42)" by (rule prod.exhaust)
  obtain x43 x44 where e_x44: "Add64 x31 x38 x42 = (x43, x44)" by (rule prod.exhaust)
  obtain x45 x46 where e_x46: "Add64 x33 0 x44 = (x45, x46)" by (rule prod.exhaust)
  obtain d_x47 x47 where e_x47: "Mul64 x39 0xd838091dd2253531 = (d_x47, x47)" by (rule prod.exhaust)
  obtain x50 x49 where e_x49: "Mul64 x47 0xffffffffffffffff = (x50, x49)" by (rule prod.exhaust)
  obtain x56 x55 where e_x55: "Mul64 x47 0xfffffffefffffc2f = (x56, x55)" by (rule prod.exhaust)
  obtain x57 x58 where e_x58: "Add64 x56 x49 0 = (x57, x58)" by (rule prod.exhaust)
  obtain x59 x60 where e_x60: "Add64 x50 x49 x58 = (x59, x60)" by (rule prod.exhaust)
  obtain x61 x62 where e_x62: "Add64 x50 x49 x60 = (x61, x62)" by (rule prod.exhaust)
  obtain d_x64 x64 where e_x64: "Add64 x39 x55 0 = (d_x64, x64)" by (rule prod.exhaust)
  obtain x65 x66 where e_x66: "Add64 x41 x57 x64 = (x65, x66)" by (rule prod.exhaust)
  obtain x67 x68 where e_x68: "Add64 x43 x59 x66 = (x67, x68)" by (rule prod.exhaust)
  obtain x69 x70 where e_x70: "Add64 x45 x61 x68 = (x69, x70)" by (rule prod.exhaust)
  obtain x71 x72 where e_x72: "Add64 (x46 + x34) (x62 + x50) x70 = (x71, x72)" by (rule prod.exhaust)
  obtain x74 x73 where e_x73: "Mul64 x2 0x7a2000e90a1 = (x74, x73)" by (rule prod.exhaust)
  obtain x75 x76 where e_x76: "Add64 x74 x2 0 = (x75, x76)" by (rule prod.exhaust)
  obtain x77 x78 where e_x78: "Add64 x65 x73 0 = (x77, x78)" by (rule prod.exhaust)
  obtain x79 x80 where e_x80: "Add64 x67 x75 x78 = (x79, x80)" by (rule prod.exhaust)
  obtain x81 x82 where e_x82: "Add64 x69 x76 x80 = (x81, x82)" by (rule prod.exhaust)
  obtain x83 x84 where e_x84: "Add64 x71 0 x82 = (x83, x84)" by (rule prod.exhaust)
  obtain d_x85 x85 where e_x85: "Mul64 x77 0xd838091dd2253531 = (d_x85, x85)" by (rule prod.exhaust)
  obtain x88 x87 where e_x87: "Mul64 x85 0xffffffffffffffff = (x88, x87)" by (rule prod.exhaust)
  obtain x94 x93 where e_x93: "Mul64 x85 0xfffffffefffffc2f = (x94, x93)" by (rule prod.exhaust)
  obtain x95 x96 where e_x96: "Add64 x94 x87 0 = (x95, x96)" by (rule prod.exhaust)
  obtain x97 x98 where e_x98: "Add64 x88 x87 x96 = (x97, x98)" by (rule prod.exhaust)
  obtain x99 x100 where e_x100: "Add64 x88 x87 x98 = (x99, x100)" by (rule prod.exhaust)
  obtain d_x102 x102 where e_x102: "Add64 x77 x93 0 = (d_x102, x102)" by (rule prod.exhaust)
  obtain x103 x104 where e_x104: "Add64 x79 x95 x102 = (x103, x104)" by (rule prod.exhaust)
  obtain x105 x106 where e_x106: "Add64 x81 x97 x104 = (x105, x106)" by (rule prod.exhaust)
  obtain x107 x108 where e_x108: "Add64 x83 x99 x106 = (x107, x108)" by (rule prod.exhaust)
  obtain x109 x110 where e_x110: "Add64 (x84 + x72) (x100 + x88) x108 = (x109, x110)" by (rule prod.exhaust)
  obtain x112 x111 where e_x111: "Mul64 x3 0x7a2000e90a1 = (x112, x111)" by (rule prod.exhaust)
  obtain x113 x114 where e_x114: "Add64 x112 x3 0 = (x113, x114)" by (rule prod.exhaust)
  obtain x115 x116 where e_x116: "Add64 x103 x111 0 = (x115, x116)" by (rule prod.exhaust)
  obtain x117 x118 where e_x118: "Add64 x105 x113 x116 = (x117, x118)" by (rule prod.exhaust)
  obtain x119 x120 where e_x120: "Add64 x107 x114 x118 = (x119, x120)" by (rule prod.exhaust)
  obtain x121 x122 where e_x122: "Add64 x109 0 x120 = (x121, x122)" by (rule prod.exhaust)
  obtain d_x123 x123 where e_x123: "Mul64 x115 0xd838091dd2253531 = (d_x123, x123)" by (rule prod.exhaust)
  obtain x126 x125 where e_x125: "Mul64 x123 0xffffffffffffffff = (x126, x125)" by (rule prod.exhaust)
  obtain x132 x131 where e_x131: "Mul64 x123 0xfffffffefffffc2f = (x132, x131)" by (rule prod.exhaust)
  obtain x133 x134 where e_x134: "Add64 x132 x125 0 = (x133, x134)" by (rule prod.exhaust)
  obtain x135 x136 where e_x136: "Add64 x126 x125 x134 = (x135, x136)" by (rule prod.exhaust)
  obtain x137 x138 where e_x138: "Add64 x126 x125 x136 = (x137, x138)" by (rule prod.exhaust)
  obtain d_x140 x140 where e_x140: "Add64 x115 x131 0 = (d_x140, x140)" by (rule prod.exhaust)
  obtain x141 x142 where e_x142: "Add64 x117 x133 x140 = (x141, x142)" by (rule prod.exhaust)
  obtain x143 x144 where e_x144: "Add64 x119 x135 x142 = (x143, x144)" by (rule prod.exhaust)
  obtain x145 x146 where e_x146: "Add64 x121 x137 x144 = (x145, x146)" by (rule prod.exhaust)
  obtain x147 x148 where e_x148: "Add64 (x122 + x110) (x138 + x126) x146 = (x147, x148)" by (rule prod.exhaust)
  obtain x149 x150 where e_x150: "Sub64 x141 0xfffffffefffffc2f 0 = (x149, x150)" by (rule prod.exhaust)
  obtain x151 x152 where e_x152: "Sub64 x143 0xffffffffffffffff x150 = (x151, x152)" by (rule prod.exhaust)
  obtain x153 x154 where e_x154: "Sub64 x145 0xffffffffffffffff x152 = (x153, x154)" by (rule prod.exhaust)
  obtain x155 x156 where e_x156: "Sub64 x147 0xffffffffffffffff x154 = (x155, x156)" by (rule prod.exhaust)
  obtain d_x158 x158 where e_x158: "Sub64 x148 0 x156 = (d_x158, x158)" by (rule prod.exhaust)
  obtain o0 where e_o0: "cmovznz x158 x149 x141 = o0" by simp
  obtain o1 where e_o1: "cmovznz x158 x151 x143 = o1" by simp
  obtain o2 where e_o2: "cmovznz x158 x153 x145 = o2" by simp
  obtain o3 where e_o3: "cmovznz x158 x155 x147 = o3" by simp
  have res: "toMontgomery arg1 = Elem o0 o1 o2 o3"
    unfolding toMontgomery_def by (simp add: Let_def e_x1 e_x2 e_x3 e_x4 e_x5 e_x8 e_x9 e_x11 e_x17 e_x20 e_x22 e_x24 e_x26 e_x28 e_x30 e_x32 e_x34 e_x35 e_x38 e_x40 e_x42 e_x44 e_x46 e_x47 e_x49 e_x55 e_x58 e_x60 e_x62 e_x64 e_x66 e_x68 e_x70 e_x72 e_x73 e_x76 e_x78 e_x80 e_x82 e_x84 e_x85 e_x87 e_x93 e_x96 e_x98 e_x100 e_x102 e_x104 e_x106 e_x108 e_x110 e_x111 e_x114 e_x116 e_x118 e_x120 e_x122 e_x123 e_x125 e_x131 e_x134 e_x136 e_x138 e_x140 e_x142 e_x144 e_x146 e_x148 e_x150 e_x152 e_x154 e_x156 e_x158 e_o0 e_o1 e_o2 e_o3)
  note row1 = torow [OF e_x5 e_x8]
  have mrow1: "val4 x17 x19 x21 x23 + R * unat (x24 + x12) = unat x9 * P"
    using mulrow [OF e_x11 e_x11 e_x11 e_x17 e_x20 e_x22 e_x24 refl] by (simp only: val4_P)
  note red1 = mont_reduce [OF e_x9 mrow1 e_x17 e_x26 e_x28 e_x30 e_x32 e_x34]
  define A1 where "A1 = val4 x27 x29 x31 x33 + R * unat x34"
  have A1: "18446744073709551616 * A1 = unat x4 * R2 + unat x9 * P"
    using red1 row1 by (simp add: A1_def)
  have A1b: "A1 < R2 + P"
  proof (rule mont_bound [where A = 0 and a = "unat x4" and m = "unat x9"])
    show "18446744073709551616 * A1 = 0 + unat x4 * R2 + unat x9 * P" using A1 by simp
    show "0 < R2 + P" by (simp add: P_def)
  qed (rule unat_lt_W)+
  note row2 = torow [OF e_x35 e_x38]
  note acc2 = add4 [OF e_x40 e_x42 e_x44 e_x46]
  have mrow2: "val4 x55 x57 x59 x61 + R * unat (x62 + x50) = unat x47 * P"
    using mulrow [OF e_x49 e_x49 e_x49 e_x55 e_x58 e_x60 e_x62 refl] by (simp only: val4_P)
  note red2 = mont_reduce [OF e_x47 mrow2 e_x55 e_x64 e_x66 e_x68 e_x70 e_x72]
  define A2 where "A2 = val4 x65 x67 x69 x71 + R * unat x72"
  have k1: "unat x34 \<le> 1" using red1 by simp
  have A2: "18446744073709551616 * A2 = A1 + unat x1 * R2 + unat x47 * P"
    unfolding A2_def A1_def
    using round_combine4 [OF acc2 red2 k1] by (simp only: row2)
  have A2b: "A2 < R2 + P"
    by (rule mont_bound [OF A2 A1b unat_lt_W unat_lt_W])
  note row3 = torow [OF e_x73 e_x76]
  note acc3 = add4 [OF e_x78 e_x80 e_x82 e_x84]
  have mrow3: "val4 x93 x95 x97 x99 + R * unat (x100 + x88) = unat x85 * P"
    using mulrow [OF e_x87 e_x87 e_x87 e_x93 e_x96 e_x98 e_x100 refl] by (simp only: val4_P)
  note red3 = mont_reduce [OF e_x85 mrow3 e_x93 e_x102 e_x104 e_x106 e_x108 e_x110]
  define A3 where "A3 = val4 x103 x105 x107 x109 + R * unat x110"
  have k2: "unat x72 \<le> 1" using red2 by simp
  have A3: "18446744073709551616 * A3 = A2 + unat x2 * R2 + unat x85 * P"
    unfolding A3_def A2_def
    using round_combine4 [OF acc3 red3 k2] by (simp only: row3)
  have A3b: "A3 < R2 + P"
    by (rule mont_bound [OF A3 A2b unat_lt_W unat_lt_W])
  note row4 = torow [OF e_x111 e_x114]
  note acc4 = add4 [OF e_x116 e_x118 e_x120 e_x122]
  have mrow4: "val4 x131 x133 x135 x137 + R * unat (x138 + x126) = unat x123 * P"
    using mulrow [OF e_x125 e_x125 e_x125 e_x131 e_x134 e_x136 e_x138 refl] by (simp only: val4_P)
  note red4 = mont_reduce [OF e_x123 mrow4 e_x131 e_x140 e_x142 e_x144 e_x146 e_x148]
  define A4 where "A4 = val4 x141 x143 x145 x147 + R * unat x148"
  have k3: "unat x110 \<le> 1" using red3 by simp
  have A4: "18446744073709551616 * A4 = A3 + unat x3 * R2 + unat x123 * P"
    unfolding A4_def A3_def
    using round_combine4 [OF acc4 red4 k3] by (simp only: row4)
  have A4b: "A4 < R2 + P"
    by (rule mont_bound [OF A4 A3b unat_lt_W unat_lt_W])
  have A4lt: "A4 < 2 * P"
    using A4b by (simp add: P_def R2_def)
  have "val4 o0 o1 o2 o3 = (val4 x141 x143 x145 x147 + R * unat x148) mod P"
    by (rule cond_sub [OF e_x150 e_x152 e_x154 e_x156 e_x158 e_o0 e_o1 e_o2 e_o3])
      (use A4lt in \<open>simp add: A4_def\<close>)
  then have v: "val (toMontgomery arg1) = A4 mod P"
    by (simp add: res val_def A4_def)
  have t1: "val arg1 = unat x4 + 18446744073709551616 * (unat x1 + 18446744073709551616 * (unat x2 + 18446744073709551616 * unat x3))"
    using e_x1 e_x2 e_x3 e_x4 by (simp add: val_def val4_def)
  have "R * A4 = val arg1 * R2
      + (unat x9 + 18446744073709551616 * (unat x47 + 18446744073709551616 * (unat x85 + 18446744073709551616 * unat x123))) * P"
    unfolding t1 by (rule mont_unroll [OF A1 A2 A3 A4])
  then have "(R * A4) mod P = (val arg1 * R2) mod P"
    by simp
  moreover have "(val (toMontgomery arg1) * R) mod P = (R * A4) mod P"
    unfolding v by (metis mod_mult_left_eq mult.commute)
  moreover have "val (toMontgomery arg1) < P"
    unfolding v by (simp add: P_def)
  ultimately show ?thesis by simp
qed

section \<open>Bytes\<close>

lemma unat_byte_lt: "unat (b :: u8) < 256"
proof -
  have "unat b < 2 ^ LENGTH(8)" by (rule unsigned_less)
  then show ?thesis by simp
qed

lemma unat_ucast_u8: "unat (ucast (x :: u64) :: u8) = unat x mod 256"
  by (simp add: unsigned_ucast_eq take_bit_eq_mod)

lemma unat_ucast_and: "unat ((ucast (x :: u64) :: u8) AND 0xff) = unat x mod 256"
proof -
  have m: "(0xff :: u8) = - 1" by simp
  have "(ucast x :: u8) AND 0xff = ucast x"
    by (simp only: m) simp
  then show ?thesis by (simp add: unat_ucast_u8)
qed

lemma unat_drop8: "unat (drop_bit 8 (x :: u64)) = unat x div 256"
  by (simp add: unat_drop_bit_eq drop_bit_eq_div unat_div)

lemma unat_ucast_u64: "unat (ucast (b :: u8) :: u64) = unat b"
proof -
  have "unat b < 2 ^ 64" using unat_byte_lt [of b] by simp
  then show ?thesis
    by (simp add: unsigned_ucast_eq take_bit_eq_mod)
qed

lemma unat_push:
  assumes "2 ^ n * unat b < 18446744073709551616"
  shows "unat (push_bit n (ucast (b :: u8) :: u64)) = 2 ^ n * unat b"
proof -
  have "unat (push_bit n (ucast b :: u64))
      = take_bit LENGTH(64) (push_bit n (unat (ucast b :: u64)))"
    by (rule unsigned_push_bit_eq)
  also have "\<dots> = (2 ^ n * unat b) mod 18446744073709551616"
    by (simp only: unat_ucast_u64 take_bit_eq_mod push_bit_eq_mult) (simp add: mult.commute)
  finally show ?thesis using assms by simp
qed

lemma le_nat_append: "le_nat (xs @ ys) = le_nat xs + 256 ^ length xs * le_nat ys"
  by (induction xs) (simp_all add: algebra_simps)

lemma le_nat_lt: "le_nat xs < 256 ^ length xs"
proof (induction xs)
  case Nil
  show ?case by simp
next
  case (Cons x xs)
  have "unat x + 256 * le_nat xs < 256 * 256 ^ length xs"
    by (rule limb_step [OF unat_byte_lt Cons.IH])
  then show ?case by simp
qed

lemma le_nat_inject:
  "length xs = length ys \<Longrightarrow> le_nat xs = le_nat ys \<Longrightarrow> xs = ys"
proof (induction xs arbitrary: ys)
  case Nil
  then show ?case by simp
next
  case (Cons x xs)
  then obtain y ys' where ys: "ys = y # ys'" by (cases ys) auto
  from Cons.prems ys have eq: "unat x + 256 * le_nat xs = unat y + 256 * le_nat ys'"
    by simp
  have "(unat x + 256 * le_nat xs) mod 256 = unat x"
    using unat_byte_lt [of x] by simp
  moreover have "(unat y + 256 * le_nat ys') mod 256 = unat y"
    using unat_byte_lt [of y] by simp
  ultimately have xy: "unat x = unat y" using eq by simp
  then have e: "le_nat xs = le_nat ys'" using eq by simp
  have l: "length xs = length ys'" using Cons.prems ys by simp
  have "xs = ys'" by (rule Cons.IH [OF l e])
  moreover have "x = y" using xy by (simp add: word_unat_eq_iff)
  ultimately show ?case using ys by simp
qed

text \<open>The eight bytes that \<open>toBytes\<close> cuts out of one limb.\<close>

lemma limb_bytes:
  assumes "(ucast x0 :: u8) AND 0xff = c0" "drop_bit 8 x0 = x1"
    "(ucast x1 :: u8) AND 0xff = c1" "drop_bit 8 x1 = x2"
    "(ucast x2 :: u8) AND 0xff = c2" "drop_bit 8 x2 = x3"
    "(ucast x3 :: u8) AND 0xff = c3" "drop_bit 8 x3 = x4"
    "(ucast x4 :: u8) AND 0xff = c4" "drop_bit 8 x4 = x5"
    "(ucast x5 :: u8) AND 0xff = c5" "drop_bit 8 x5 = x6"
    "(ucast x6 :: u8) AND 0xff = c6" "(ucast (drop_bit 8 x6) :: u8) = c7"
  shows "le_nat [c0, c1, c2, c3, c4, c5, c6, c7] = unat (x0 :: u64)"
proof -
  have step: "unat (x :: u64) = unat c + 256 * unat y"
    if "(ucast x :: u8) AND 0xff = c" and "drop_bit 8 x = y" for x y c
  proof -
    have "unat c = unat x mod 256" using that(1) unat_ucast_and [of x] by simp
    moreover have "unat y = unat x div 256" using that(2) unat_drop8 [of x] by simp
    ultimately show ?thesis by simp
  qed
  note s0 = step [OF assms(1,2)] and s1 = step [OF assms(3,4)] and s2 = step [OF assms(5,6)]
    and s3 = step [OF assms(7,8)] and s4 = step [OF assms(9,10)] and s5 = step [OF assms(11,12)]
  have b0: "unat x0 < 18446744073709551616" by (rule unat_lt_W)
  have b1: "unat x1 < 72057594037927936" using s0 b0 by linarith
  have b2: "unat x2 < 281474976710656" using s1 b1 by linarith
  have b3: "unat x3 < 1099511627776" using s2 b2 by linarith
  have b4: "unat x4 < 4294967296" using s3 b3 by linarith
  have b5: "unat x5 < 16777216" using s4 b4 by linarith
  have b6: "unat x6 < 65536" using s5 b5 by linarith
  have "unat c6 = unat x6 mod 256" using assms(13) unat_ucast_and [of x6] by simp
  moreover have "unat c7 = unat x6 div 256 mod 256"
    using assms(14) unat_ucast_u8 [of "drop_bit 8 x6"] by (simp add: unat_drop8)
  moreover have "unat x6 div 256 < 256" using b6 by simp
  ultimately have s6: "unat x6 = unat c6 + 256 * unat c7" by simp
  show ?thesis using s0 s1 s2 s3 s4 s5 s6 by simp
qed

lemma toBytes_val: "le_nat (toBytes arg1) = val arg1 \<and> length (toBytes arg1) = 32"
proof -
  obtain x1 where e_x1: "limb3 arg1 = x1" by simp
  obtain x2 where e_x2: "limb2 arg1 = x2" by simp
  obtain x3 where e_x3: "limb1 arg1 = x3" by simp
  obtain x4 where e_x4: "limb0 arg1 = x4" by simp
  obtain x5 where e_x5: "(ucast x4 :: 8 word) AND 0xff = x5" by simp
  obtain x6 where e_x6: "drop_bit 8 x4 = x6" by simp
  obtain x7 where e_x7: "(ucast x6 :: 8 word) AND 0xff = x7" by simp
  obtain x8 where e_x8: "drop_bit 8 x6 = x8" by simp
  obtain x9 where e_x9: "(ucast x8 :: 8 word) AND 0xff = x9" by simp
  obtain x10 where e_x10: "drop_bit 8 x8 = x10" by simp
  obtain x11 where e_x11: "(ucast x10 :: 8 word) AND 0xff = x11" by simp
  obtain x12 where e_x12: "drop_bit 8 x10 = x12" by simp
  obtain x13 where e_x13: "(ucast x12 :: 8 word) AND 0xff = x13" by simp
  obtain x14 where e_x14: "drop_bit 8 x12 = x14" by simp
  obtain x15 where e_x15: "(ucast x14 :: 8 word) AND 0xff = x15" by simp
  obtain x16 where e_x16: "drop_bit 8 x14 = x16" by simp
  obtain x17 where e_x17: "(ucast x16 :: 8 word) AND 0xff = x17" by simp
  obtain x18 where e_x18: "(ucast (drop_bit 8 x16) :: 8 word) = x18" by simp
  obtain x19 where e_x19: "(ucast x3 :: 8 word) AND 0xff = x19" by simp
  obtain x20 where e_x20: "drop_bit 8 x3 = x20" by simp
  obtain x21 where e_x21: "(ucast x20 :: 8 word) AND 0xff = x21" by simp
  obtain x22 where e_x22: "drop_bit 8 x20 = x22" by simp
  obtain x23 where e_x23: "(ucast x22 :: 8 word) AND 0xff = x23" by simp
  obtain x24 where e_x24: "drop_bit 8 x22 = x24" by simp
  obtain x25 where e_x25: "(ucast x24 :: 8 word) AND 0xff = x25" by simp
  obtain x26 where e_x26: "drop_bit 8 x24 = x26" by simp
  obtain x27 where e_x27: "(ucast x26 :: 8 word) AND 0xff = x27" by simp
  obtain x28 where e_x28: "drop_bit 8 x26 = x28" by simp
  obtain x29 where e_x29: "(ucast x28 :: 8 word) AND 0xff = x29" by simp
  obtain x30 where e_x30: "drop_bit 8 x28 = x30" by simp
  obtain x31 where e_x31: "(ucast x30 :: 8 word) AND 0xff = x31" by simp
  obtain x32 where e_x32: "(ucast (drop_bit 8 x30) :: 8 word) = x32" by simp
  obtain x33 where e_x33: "(ucast x2 :: 8 word) AND 0xff = x33" by simp
  obtain x34 where e_x34: "drop_bit 8 x2 = x34" by simp
  obtain x35 where e_x35: "(ucast x34 :: 8 word) AND 0xff = x35" by simp
  obtain x36 where e_x36: "drop_bit 8 x34 = x36" by simp
  obtain x37 where e_x37: "(ucast x36 :: 8 word) AND 0xff = x37" by simp
  obtain x38 where e_x38: "drop_bit 8 x36 = x38" by simp
  obtain x39 where e_x39: "(ucast x38 :: 8 word) AND 0xff = x39" by simp
  obtain x40 where e_x40: "drop_bit 8 x38 = x40" by simp
  obtain x41 where e_x41: "(ucast x40 :: 8 word) AND 0xff = x41" by simp
  obtain x42 where e_x42: "drop_bit 8 x40 = x42" by simp
  obtain x43 where e_x43: "(ucast x42 :: 8 word) AND 0xff = x43" by simp
  obtain x44 where e_x44: "drop_bit 8 x42 = x44" by simp
  obtain x45 where e_x45: "(ucast x44 :: 8 word) AND 0xff = x45" by simp
  obtain x46 where e_x46: "(ucast (drop_bit 8 x44) :: 8 word) = x46" by simp
  obtain x47 where e_x47: "(ucast x1 :: 8 word) AND 0xff = x47" by simp
  obtain x48 where e_x48: "drop_bit 8 x1 = x48" by simp
  obtain x49 where e_x49: "(ucast x48 :: 8 word) AND 0xff = x49" by simp
  obtain x50 where e_x50: "drop_bit 8 x48 = x50" by simp
  obtain x51 where e_x51: "(ucast x50 :: 8 word) AND 0xff = x51" by simp
  obtain x52 where e_x52: "drop_bit 8 x50 = x52" by simp
  obtain x53 where e_x53: "(ucast x52 :: 8 word) AND 0xff = x53" by simp
  obtain x54 where e_x54: "drop_bit 8 x52 = x54" by simp
  obtain x55 where e_x55: "(ucast x54 :: 8 word) AND 0xff = x55" by simp
  obtain x56 where e_x56: "drop_bit 8 x54 = x56" by simp
  obtain x57 where e_x57: "(ucast x56 :: 8 word) AND 0xff = x57" by simp
  obtain x58 where e_x58: "drop_bit 8 x56 = x58" by simp
  obtain x59 where e_x59: "(ucast x58 :: 8 word) AND 0xff = x59" by simp
  obtain x60 where e_x60: "(ucast (drop_bit 8 x58) :: 8 word) = x60" by simp
  have res: "toBytes arg1 = [x5, x7, x9, x11, x13, x15, x17, x18, x19, x21, x23, x25, x27, x29, x31, x32, x33, x35, x37, x39, x41, x43, x45, x46, x47, x49, x51, x53, x55, x57, x59, x60]"
    unfolding toBytes_def by (simp add: Let_def e_x1 e_x2 e_x3 e_x4 e_x5 e_x6 e_x7 e_x8 e_x9 e_x10 e_x11 e_x12 e_x13 e_x14 e_x15 e_x16 e_x17 e_x18 e_x19 e_x20 e_x21 e_x22 e_x23 e_x24 e_x25 e_x26 e_x27 e_x28 e_x29 e_x30 e_x31 e_x32 e_x33 e_x34 e_x35 e_x36 e_x37 e_x38 e_x39 e_x40 e_x41 e_x42 e_x43 e_x44 e_x45 e_x46 e_x47 e_x48 e_x49 e_x50 e_x51 e_x52 e_x53 e_x54 e_x55 e_x56 e_x57 e_x58 e_x59 e_x60 cong: let_weak_cong)
  have l0: "le_nat [x5, x7, x9, x11, x13, x15, x17, x18] = unat (limb0 arg1)"
    using limb_bytes [OF e_x5 e_x6 e_x7 e_x8 e_x9 e_x10 e_x11 e_x12 e_x13 e_x14 e_x15 e_x16 e_x17 e_x18] e_x4 by simp
  have l1: "le_nat [x19, x21, x23, x25, x27, x29, x31, x32] = unat (limb1 arg1)"
    using limb_bytes [OF e_x19 e_x20 e_x21 e_x22 e_x23 e_x24 e_x25 e_x26 e_x27 e_x28 e_x29 e_x30 e_x31 e_x32] e_x3 by simp
  have l2: "le_nat [x33, x35, x37, x39, x41, x43, x45, x46] = unat (limb2 arg1)"
    using limb_bytes [OF e_x33 e_x34 e_x35 e_x36 e_x37 e_x38 e_x39 e_x40 e_x41 e_x42 e_x43 e_x44 e_x45 e_x46] e_x2 by simp
  have l3: "le_nat [x47, x49, x51, x53, x55, x57, x59, x60] = unat (limb3 arg1)"
    using limb_bytes [OF e_x47 e_x48 e_x49 e_x50 e_x51 e_x52 e_x53 e_x54 e_x55 e_x56 e_x57 e_x58 e_x59 e_x60] e_x1 by simp
  have "toBytes arg1 = [x5, x7, x9, x11, x13, x15, x17, x18] @ [x19, x21, x23, x25, x27, x29, x31, x32] @ [x33, x35, x37, x39, x41, x43, x45, x46] @ [x47, x49, x51, x53, x55, x57, x59, x60]"
    by (simp add: res)
  then have "le_nat (toBytes arg1) = unat (limb0 arg1) + 256 ^ 8 * (unat (limb1 arg1)
      + 256 ^ 8 * (unat (limb2 arg1) + 256 ^ 8 * unat (limb3 arg1)))"
    by (simp only: le_nat_append l0 l1 l2 l3) simp
  then show ?thesis by (simp add: val_def val4_def res)
qed

text \<open>The limb that \<open>fromBytes\<close> packs from eight bytes.\<close>

lemma limb_pack:
  assumes "push_bit 56 (ucast (b7 :: u8) :: u64) = y7" "push_bit 48 (ucast (b6 :: u8) :: u64) = y6"
    "push_bit 40 (ucast (b5 :: u8) :: u64) = y5" "push_bit 32 (ucast (b4 :: u8) :: u64) = y4"
    "push_bit 24 (ucast (b3 :: u8) :: u64) = y3" "push_bit 16 (ucast (b2 :: u8) :: u64) = y2"
    "push_bit 8 (ucast (b1 :: u8) :: u64) = y1"
    "y1 + (ucast (b0 :: u8) :: u64) = z1" "y2 + z1 = z2" "y3 + z2 = z3" "y4 + z3 = z4"
    "y5 + z4 = z5" "y6 + z5 = z6" "y7 + z6 = z7"
  shows "unat z7 = le_nat [b0, b1, b2, b3, b4, b5, b6, b7]"
proof -
  note bl = unat_byte_lt
  have u1: "unat y1 = 256 * unat b1"
    using unat_push [of 8 b1] bl [of b1] assms(7) by simp
  have u2: "unat y2 = 65536 * unat b2"
    using unat_push [of 16 b2] bl [of b2] assms(6) by simp
  have u3: "unat y3 = 16777216 * unat b3"
    using unat_push [of 24 b3] bl [of b3] assms(5) by simp
  have u4: "unat y4 = 4294967296 * unat b4"
    using unat_push [of 32 b4] bl [of b4] assms(4) by simp
  have u5: "unat y5 = 1099511627776 * unat b5"
    using unat_push [of 40 b5] bl [of b5] assms(3) by simp
  have u6: "unat y6 = 281474976710656 * unat b6"
    using unat_push [of 48 b6] bl [of b6] assms(2) by simp
  have u7: "unat y7 = 72057594037927936 * unat b7"
    using unat_push [of 56 b7] bl [of b7] assms(1) by simp
  have add: "unat (a + b) = unat a + unat b" if "unat a + unat b < 18446744073709551616"
    for a b :: u64
  proof -
    from that have "unat a + unat b < 2 ^ LENGTH(64)" by simp
    then show ?thesis by (simp only: unat_add_lem [THEN iffD1])
  qed
  have z1: "unat z1 = unat b0 + 256 * unat b1"
    using add [of y1 "ucast b0"] u1 bl [of b0] bl [of b1] assms(8) by (simp add: unat_ucast_u64)
  have z2: "unat z2 = unat z1 + 65536 * unat b2"
    using add [of y2 z1] u2 z1 bl [of b0] bl [of b1] bl [of b2] assms(9) by simp
  have z3: "unat z3 = unat z2 + 16777216 * unat b3"
    using add [of y3 z2] u3 z2 z1 bl [of b0] bl [of b1] bl [of b2] bl [of b3] assms(10) by simp
  have z4: "unat z4 = unat z3 + 4294967296 * unat b4"
    using add [of y4 z3] u4 z3 z2 z1 bl [of b0] bl [of b1] bl [of b2] bl [of b3] bl [of b4]
      assms(11) by simp
  have z5: "unat z5 = unat z4 + 1099511627776 * unat b5"
    using add [of y5 z4] u5 z4 z3 z2 z1 bl [of b0] bl [of b1] bl [of b2] bl [of b3] bl [of b4]
      bl [of b5] assms(12) by simp
  have z6: "unat z6 = unat z5 + 281474976710656 * unat b6"
    using add [of y6 z5] u6 z5 z4 z3 z2 z1 bl [of b0] bl [of b1] bl [of b2] bl [of b3] bl [of b4]
      bl [of b5] bl [of b6] assms(13) by simp
  have z7: "unat z7 = unat z6 + 72057594037927936 * unat b7"
    using add [of y7 z6] u7 z6 z5 z4 z3 z2 z1 bl [of b0] bl [of b1] bl [of b2] bl [of b3]
      bl [of b4] bl [of b5] bl [of b6] bl [of b7] assms(14) by simp
  show ?thesis using z1 z2 z3 z4 z5 z6 z7 by simp
qed

lemma fromBytes_val:
  "val (fromBytes [b0, b1, b2, b3, b4, b5, b6, b7, b8, b9, b10, b11, b12, b13, b14, b15, b16, b17, b18, b19, b20, b21, b22, b23, b24, b25, b26, b27, b28, b29, b30, b31]) = le_nat [b0, b1, b2, b3, b4, b5, b6, b7, b8, b9, b10, b11, b12, b13, b14, b15, b16, b17, b18, b19, b20, b21, b22, b23, b24, b25, b26, b27, b28, b29, b30, b31]"
proof -
  define arg1 where "arg1 = [b0, b1, b2, b3, b4, b5, b6, b7, b8, b9, b10, b11, b12, b13, b14, b15, b16, b17, b18, b19, b20, b21, b22, b23, b24, b25, b26, b27, b28, b29, b30, b31]"
  obtain x1 where e_x1: "push_bit 56 (ucast b31 :: 64 word) = x1" by simp
  obtain x2 where e_x2: "push_bit 48 (ucast b30 :: 64 word) = x2" by simp
  obtain x3 where e_x3: "push_bit 40 (ucast b29 :: 64 word) = x3" by simp
  obtain x4 where e_x4: "push_bit 32 (ucast b28 :: 64 word) = x4" by simp
  obtain x5 where e_x5: "push_bit 24 (ucast b27 :: 64 word) = x5" by simp
  obtain x6 where e_x6: "push_bit 16 (ucast b26 :: 64 word) = x6" by simp
  obtain x7 where e_x7: "push_bit 8 (ucast b25 :: 64 word) = x7" by simp
  obtain x8 where e_x8: "b24 = x8" by simp
  obtain x9 where e_x9: "push_bit 56 (ucast b23 :: 64 word) = x9" by simp
  obtain x10 where e_x10: "push_bit 48 (ucast b22 :: 64 word) = x10" by simp
  obtain x11 where e_x11: "push_bit 40 (ucast b21 :: 64 word) = x11" by simp
  obtain x12 where e_x12: "push_bit 32 (ucast b20 :: 64 word) = x12" by simp
  obtain x13 where e_x13: "push_bit 24 (ucast b19 :: 64 word) = x13" by simp
  obtain x14 where e_x14: "push_bit 16 (ucast b18 :: 64 word) = x14" by simp
  obtain x15 where e_x15: "push_bit 8 (ucast b17 :: 64 word) = x15" by simp
  obtain x16 where e_x16: "b16 = x16" by simp
  obtain x17 where e_x17: "push_bit 56 (ucast b15 :: 64 word) = x17" by simp
  obtain x18 where e_x18: "push_bit 48 (ucast b14 :: 64 word) = x18" by simp
  obtain x19 where e_x19: "push_bit 40 (ucast b13 :: 64 word) = x19" by simp
  obtain x20 where e_x20: "push_bit 32 (ucast b12 :: 64 word) = x20" by simp
  obtain x21 where e_x21: "push_bit 24 (ucast b11 :: 64 word) = x21" by simp
  obtain x22 where e_x22: "push_bit 16 (ucast b10 :: 64 word) = x22" by simp
  obtain x23 where e_x23: "push_bit 8 (ucast b9 :: 64 word) = x23" by simp
  obtain x24 where e_x24: "b8 = x24" by simp
  obtain x25 where e_x25: "push_bit 56 (ucast b7 :: 64 word) = x25" by simp
  obtain x26 where e_x26: "push_bit 48 (ucast b6 :: 64 word) = x26" by simp
  obtain x27 where e_x27: "push_bit 40 (ucast b5 :: 64 word) = x27" by simp
  obtain x28 where e_x28: "push_bit 32 (ucast b4 :: 64 word) = x28" by simp
  obtain x29 where e_x29: "push_bit 24 (ucast b3 :: 64 word) = x29" by simp
  obtain x30 where e_x30: "push_bit 16 (ucast b2 :: 64 word) = x30" by simp
  obtain x31 where e_x31: "push_bit 8 (ucast b1 :: 64 word) = x31" by simp
  obtain x32 where e_x32: "b0 = x32" by simp
  obtain x33 where e_x33: "x31 + (ucast x32 :: 64 word) = x33" by simp
  obtain x34 where e_x34: "x30 + x33 = x34" by simp
  obtain x35 where e_x35: "x29 + x34 = x35" by simp
  obtain x36 where e_x36: "x28 + x35 = x36" by simp
  obtain x37 where e_x37: "x27 + x36 = x37" by simp
  obtain x38 where e_x38: "x26 + x37 = x38" by simp
  obtain x39 where e_x39: "x25 + x38 = x39" by simp
  obtain x40 where e_x40: "x23 + (ucast x24 :: 64 word) = x40" by simp
  obtain x41 where e_x41: "x22 + x40 = x41" by simp
  obtain x42 where e_x42: "x21 + x41 = x42" by simp
  obtain x43 where e_x43: "x20 + x42 = x43" by simp
  obtain x44 where e_x44: "x19 + x43 = x44" by simp
  obtain x45 where e_x45: "x18 + x44 = x45" by simp
  obtain x46 where e_x46: "x17 + x45 = x46" by simp
  obtain x47 where e_x47: "x15 + (ucast x16 :: 64 word) = x47" by simp
  obtain x48 where e_x48: "x14 + x47 = x48" by simp
  obtain x49 where e_x49: "x13 + x48 = x49" by simp
  obtain x50 where e_x50: "x12 + x49 = x50" by simp
  obtain x51 where e_x51: "x11 + x50 = x51" by simp
  obtain x52 where e_x52: "x10 + x51 = x52" by simp
  obtain x53 where e_x53: "x9 + x52 = x53" by simp
  obtain x54 where e_x54: "x7 + (ucast x8 :: 64 word) = x54" by simp
  obtain x55 where e_x55: "x6 + x54 = x55" by simp
  obtain x56 where e_x56: "x5 + x55 = x56" by simp
  obtain x57 where e_x57: "x4 + x56 = x57" by simp
  obtain x58 where e_x58: "x3 + x57 = x58" by simp
  obtain x59 where e_x59: "x2 + x58 = x59" by simp
  obtain x60 where e_x60: "x1 + x59 = x60" by simp
  have res: "fromBytes arg1 = Elem x39 x46 x53 x60"
    unfolding fromBytes_def arg1_def by (simp add: Let_def e_x1 e_x2 e_x3 e_x4 e_x5 e_x6 e_x7 e_x8 e_x9 e_x10 e_x11 e_x12 e_x13 e_x14 e_x15 e_x16 e_x17 e_x18 e_x19 e_x20 e_x21 e_x22 e_x23 e_x24 e_x25 e_x26 e_x27 e_x28 e_x29 e_x30 e_x31 e_x32 e_x33 e_x34 e_x35 e_x36 e_x37 e_x38 e_x39 e_x40 e_x41 e_x42 e_x43 e_x44 e_x45 e_x46 e_x47 e_x48 e_x49 e_x50 e_x51 e_x52 e_x53 e_x54 e_x55 e_x56 e_x57 e_x58 e_x59 e_x60 cong: let_weak_cong)
  have nth: True ..
  have p0: "unat x39 = le_nat [b0, b1, b2, b3, b4, b5, b6, b7]"
    by (rule limb_pack) (use e_x25 e_x26 e_x27 e_x28 e_x29 e_x30 e_x31 e_x32 e_x33 e_x34 e_x35 e_x36 e_x37 e_x38 e_x39 nth in simp_all)
  have p1: "unat x46 = le_nat [b8, b9, b10, b11, b12, b13, b14, b15]"
    by (rule limb_pack) (use e_x17 e_x18 e_x19 e_x20 e_x21 e_x22 e_x23 e_x24 e_x40 e_x41 e_x42 e_x43 e_x44 e_x45 e_x46 nth in simp_all)
  have p2: "unat x53 = le_nat [b16, b17, b18, b19, b20, b21, b22, b23]"
    by (rule limb_pack) (use e_x9 e_x10 e_x11 e_x12 e_x13 e_x14 e_x15 e_x16 e_x47 e_x48 e_x49 e_x50 e_x51 e_x52 e_x53 nth in simp_all)
  have p3: "unat x60 = le_nat [b24, b25, b26, b27, b28, b29, b30, b31]"
    by (rule limb_pack) (use e_x1 e_x2 e_x3 e_x4 e_x5 e_x6 e_x7 e_x8 e_x54 e_x55 e_x56 e_x57 e_x58 e_x59 e_x60 nth in simp_all)
  have "le_nat arg1 = le_nat ([b0, b1, b2, b3, b4, b5, b6, b7] @ [b8, b9, b10, b11, b12, b13, b14, b15] @ [b16, b17, b18, b19, b20, b21, b22, b23] @ [b24, b25, b26, b27, b28, b29, b30, b31])"
    by (simp add: arg1_def)
  also have "\<dots> = unat x39 + 256 ^ 8 * (unat x46 + 256 ^ 8 * (unat x53 + 256 ^ 8 * unat x60))"
    by (simp only: le_nat_append p0 p1 p2 p3) simp
  finally show ?thesis by (simp add: res [unfolded arg1_def] arg1_def val_def val4_def)
qed

lemma length_32_explicit:
  assumes "length (v :: 'a list) = 32"
  obtains b0 b1 b2 b3 b4 b5 b6 b7 b8 b9 b10 b11 b12 b13 b14 b15 b16 b17 b18 b19 b20 b21 b22 b23 b24 b25 b26 b27 b28 b29 b30 b31
  where "v = [b0, b1, b2, b3, b4, b5, b6, b7, b8, b9, b10, b11, b12, b13, b14, b15, b16, b17, b18, b19, b20, b21, b22, b23, b24, b25, b26, b27, b28, b29, b30, b31]"
proof -
  obtain b0 v1 where c0: "v = b0 # v1" and l1: "length v1 = 31"
    using assms by (cases v) auto
  obtain b1 v2 where c1: "v1 = b1 # v2" and l2: "length v2 = 30"
    using l1 by (cases v1) auto
  obtain b2 v3 where c2: "v2 = b2 # v3" and l3: "length v3 = 29"
    using l2 by (cases v2) auto
  obtain b3 v4 where c3: "v3 = b3 # v4" and l4: "length v4 = 28"
    using l3 by (cases v3) auto
  obtain b4 v5 where c4: "v4 = b4 # v5" and l5: "length v5 = 27"
    using l4 by (cases v4) auto
  obtain b5 v6 where c5: "v5 = b5 # v6" and l6: "length v6 = 26"
    using l5 by (cases v5) auto
  obtain b6 v7 where c6: "v6 = b6 # v7" and l7: "length v7 = 25"
    using l6 by (cases v6) auto
  obtain b7 v8 where c7: "v7 = b7 # v8" and l8: "length v8 = 24"
    using l7 by (cases v7) auto
  obtain b8 v9 where c8: "v8 = b8 # v9" and l9: "length v9 = 23"
    using l8 by (cases v8) auto
  obtain b9 v10 where c9: "v9 = b9 # v10" and l10: "length v10 = 22"
    using l9 by (cases v9) auto
  obtain b10 v11 where c10: "v10 = b10 # v11" and l11: "length v11 = 21"
    using l10 by (cases v10) auto
  obtain b11 v12 where c11: "v11 = b11 # v12" and l12: "length v12 = 20"
    using l11 by (cases v11) auto
  obtain b12 v13 where c12: "v12 = b12 # v13" and l13: "length v13 = 19"
    using l12 by (cases v12) auto
  obtain b13 v14 where c13: "v13 = b13 # v14" and l14: "length v14 = 18"
    using l13 by (cases v13) auto
  obtain b14 v15 where c14: "v14 = b14 # v15" and l15: "length v15 = 17"
    using l14 by (cases v14) auto
  obtain b15 v16 where c15: "v15 = b15 # v16" and l16: "length v16 = 16"
    using l15 by (cases v15) auto
  obtain b16 v17 where c16: "v16 = b16 # v17" and l17: "length v17 = 15"
    using l16 by (cases v16) auto
  obtain b17 v18 where c17: "v17 = b17 # v18" and l18: "length v18 = 14"
    using l17 by (cases v17) auto
  obtain b18 v19 where c18: "v18 = b18 # v19" and l19: "length v19 = 13"
    using l18 by (cases v18) auto
  obtain b19 v20 where c19: "v19 = b19 # v20" and l20: "length v20 = 12"
    using l19 by (cases v19) auto
  obtain b20 v21 where c20: "v20 = b20 # v21" and l21: "length v21 = 11"
    using l20 by (cases v20) auto
  obtain b21 v22 where c21: "v21 = b21 # v22" and l22: "length v22 = 10"
    using l21 by (cases v21) auto
  obtain b22 v23 where c22: "v22 = b22 # v23" and l23: "length v23 = 9"
    using l22 by (cases v22) auto
  obtain b23 v24 where c23: "v23 = b23 # v24" and l24: "length v24 = 8"
    using l23 by (cases v23) auto
  obtain b24 v25 where c24: "v24 = b24 # v25" and l25: "length v25 = 7"
    using l24 by (cases v24) auto
  obtain b25 v26 where c25: "v25 = b25 # v26" and l26: "length v26 = 6"
    using l25 by (cases v25) auto
  obtain b26 v27 where c26: "v26 = b26 # v27" and l27: "length v27 = 5"
    using l26 by (cases v26) auto
  obtain b27 v28 where c27: "v27 = b27 # v28" and l28: "length v28 = 4"
    using l27 by (cases v27) auto
  obtain b28 v29 where c28: "v28 = b28 # v29" and l29: "length v29 = 3"
    using l28 by (cases v28) auto
  obtain b29 v30 where c29: "v29 = b29 # v30" and l30: "length v30 = 2"
    using l29 by (cases v29) auto
  obtain b30 v31 where c30: "v30 = b30 # v31" and l31: "length v31 = 1"
    using l30 by (cases v30) auto
  obtain b31 v32 where c31: "v31 = b31 # v32" and l32: "length v32 = 0"
    using l31 by (cases v31) auto
  have "v32 = []" using l32 by simp
  then have "v = [b0, b1, b2, b3, b4, b5, b6, b7, b8, b9, b10, b11, b12, b13, b14, b15, b16, b17, b18, b19, b20, b21, b22, b23, b24, b25, b26, b27, b28, b29, b30, b31]"
    by (simp add: c0 c1 c2 c3 c4 c5 c6 c7 c8 c9 c10 c11 c12 c13 c14 c15 c16 c17 c18 c19 c20 c21 c22 c23 c24 c25 c26 c27 c28 c29 c30 c31)
  then show ?thesis by (rule that)
qed

lemma invertEndianness_32:
  "invertEndianness [b0, b1, b2, b3, b4, b5, b6, b7, b8, b9, b10, b11, b12, b13, b14, b15, b16, b17, b18, b19, b20, b21, b22, b23, b24, b25, b26, b27, b28, b29, b30, b31] = [b31, b30, b29, b28, b27, b26, b25, b24, b23, b22, b21, b20, b19, b18, b17, b16, b15, b14, b13, b12, b11, b10, b9, b8, b7, b6, b5, b4, b3, b2, b1, b0]"
proof -
  have "invertEndianness_loop 16 0 [b0, b1, b2, b3, b4, b5, b6, b7, b8, b9, b10, b11, b12, b13, b14, b15, b16, b17, b18, b19, b20, b21, b22, b23, b24, b25, b26, b27, b28, b29, b30, b31] = [b31, b30, b29, b28, b27, b26, b25, b24, b23, b22, b21, b20, b19, b18, b17, b16, b15, b14, b13, b12, b11, b10, b9, b8, b7, b6, b5, b4, b3, b2, b1, b0]"
    by (simp add: eval_nat_numeral)
  then show ?thesis by (simp add: invertEndianness_def)
qed

section \<open>Field semantics of the element operations\<close>

lemma R_Rinv: "(R * Rinv) mod P = 1"
  by (simp add: R_def Rinv_def P_def)

lemma cancel_R:
  assumes "(a * R) mod P = (b * R) mod P"
  shows "a mod P = b mod P"
proof -
  have "a mod P = (a * ((R * Rinv) mod P)) mod P" by (simp add: R_Rinv)
  also have "\<dots> = (a * (R * Rinv)) mod P" by (simp only: mod_mult_right_eq)
  also have "\<dots> = (((a * R) mod P) * Rinv) mod P" by (simp add: mod_mult_left_eq mult.assoc)
  also have "\<dots> = (((b * R) mod P) * Rinv) mod P" by (simp only: assms)
  also have "\<dots> = (b * (R * Rinv)) mod P" by (simp add: mod_mult_left_eq mult.assoc)
  also have "\<dots> = (b * ((R * Rinv) mod P)) mod P" by (simp only: mod_mult_right_eq)
  also have "\<dots> = b mod P" by (simp add: R_Rinv)
  finally show ?thesis .
qed

lemma P_pos: "0 < P"
  by (simp add: P_def)

lemma toMontgomery_eval: "val (toMontgomery x) = (val x * R) mod P"
proof -
  have lt: "val (toMontgomery x) < P"
    and eq: "(val (toMontgomery x) * R) mod P = (val x * R2) mod P"
    using toMontgomery_val [of x] by simp_all
  have "R2 mod P = (R * R) mod P" by (simp add: R2_def R_def P_def)
  then have "(val x * R2) mod P = (val x * (R * R)) mod P"
    by (metis mod_mult_right_eq)
  with eq have "(val (toMontgomery x) * R) mod P = ((val x * R) * R) mod P"
    by (simp add: mult.assoc)
  then have "val (toMontgomery x) mod P = (val x * R) mod P"
    by (rule cancel_R)
  with lt show ?thesis by simp
qed

lemma fromMontgomery_eval: "val (fromMontgomery x) = (val x * Rinv) mod P"
proof -
  have lt: "val (fromMontgomery x) < P"
    and eq: "(val (fromMontgomery x) * R) mod P = val x mod P"
    using fromMontgomery_val [of x] by simp_all
  have "((val x * Rinv) * R) mod P = (val x * (R * Rinv)) mod P"
    by (simp add: ac_simps)
  also have "\<dots> = (val x * ((R * Rinv) mod P)) mod P"
    by (simp only: mod_mult_right_eq)
  also have "\<dots> = val x mod P" by (simp add: R_Rinv)
  finally have "(val (fromMontgomery x) * R) mod P = ((val x * Rinv) * R) mod P"
    using eq by simp
  then have "val (fromMontgomery x) mod P = (val x * Rinv) mod P"
    by (rule cancel_R)
  with lt show ?thesis by simp
qed

lemma fromMontgomery_toMontgomery:
  assumes "val x < P"
  shows "fromMontgomery (toMontgomery x) = x"
proof -
  have "val (fromMontgomery (toMontgomery x)) = (((val x * R) mod P) * Rinv) mod P"
    by (simp only: fromMontgomery_eval toMontgomery_eval)
  also have "\<dots> = (val x * (R * Rinv)) mod P"
    by (simp add: mod_mult_left_eq mult.assoc)
  also have "\<dots> = (val x * ((R * Rinv) mod P)) mod P"
    by (simp only: mod_mult_right_eq)
  also have "\<dots> = val x" using assms by (simp add: R_Rinv)
  finally show ?thesis by (rule val_inject)
qed

lemma fe_lt: "fe e < P"
  unfolding fe_def using P_pos by simp

lemma val_fromMontgomery_fe: "val (fromMontgomery e) = fe e"
  by (simp add: fromMontgomery_eval fe_def)

section \<open>Canonical byte encoding of elements\<close>

lemma invertEndianness_rev:
  assumes "length v = 32"
  shows "invertEndianness v = rev v"
proof -
  from assms obtain b0 b1 b2 b3 b4 b5 b6 b7 b8 b9 b10 b11 b12 b13 b14 b15 b16 b17 b18 b19 b20 b21 b22 b23 b24 b25 b26 b27 b28 b29 b30 b31
    where "v = [b0, b1, b2, b3, b4, b5, b6, b7, b8, b9, b10, b11, b12, b13, b14, b15, b16, b17, b18, b19, b20, b21, b22, b23, b24, b25, b26, b27, b28, b29, b30, b31]"
    by (rule length_32_explicit)
  then show ?thesis by (simp add: invertEndianness_32)
qed

lemma fromBytes_le_nat:
  assumes "length w = 32"
  shows "val (fromBytes w) = le_nat w"
proof -
  from assms obtain b0 b1 b2 b3 b4 b5 b6 b7 b8 b9 b10 b11 b12 b13 b14 b15 b16 b17 b18 b19 b20 b21 b22 b23 b24 b25 b26 b27 b28 b29 b30 b31
    where "w = [b0, b1, b2, b3, b4, b5, b6, b7, b8, b9, b10, b11, b12, b13, b14, b15, b16, b17, b18, b19, b20, b21, b22, b23, b24, b25, b26, b27, b28, b29, b30, b31]"
    by (rule length_32_explicit)
  then show ?thesis by (simp only: fromBytes_val)
qed

lemma Bytes_length: "length (Bytes e) = 32"
  by (simp add: Bytes_def Let_def invertEndianness_rev toBytes_val)

lemma Bytes_be_nat: "be_nat (Bytes e) = fe e"
  by (simp add: Bytes_def Let_def invertEndianness_rev toBytes_val be_nat_def
      val_fromMontgomery_fe)

lemma Bytes_inject_fe: "fe a = fe b \<Longrightarrow> Bytes a = Bytes b"
proof -
  assume "fe a = fe b"
  then have "le_nat (toBytes (fromMontgomery a)) = le_nat (toBytes (fromMontgomery b))"
    by (simp add: toBytes_val val_fromMontgomery_fe)
  then have "toBytes (fromMontgomery a) = toBytes (fromMontgomery b)"
    by (intro le_nat_inject) (simp_all add: toBytes_val)
  then show ?thesis by (simp add: Bytes_def)
qed

lemma be_nat_Cons: "be_nat (x # xs) = unat x * 256 ^ length xs + be_nat xs"
  by (simp add: be_nat_def le_nat_append)

lemma be_nat_lt: "be_nat xs < 256 ^ length xs"
  using le_nat_lt [of "rev xs"] by (simp add: be_nat_def)

lemma canonical_loop_le:
  "length v = length m \<Longrightarrow> canonical_loop v m \<longleftrightarrow> be_nat v \<le> be_nat m"
proof (induction v m rule: canonical_loop.induct)
  case (1 ms)
  then show ?case by (simp add: be_nat_def)
next
  case (2 x xs)
  then show ?case by simp
next
  case (3 x xs m ms)
  then have len: "length xs = length ms" by simp
  define K :: nat where "K = 256 ^ length xs"
  have bx: "be_nat xs < K" and bm: "be_nat ms < K"
    using be_nat_lt [of xs] be_nat_lt [of ms] len by (simp_all add: K_def)
  have vx: "be_nat (x # xs) = unat x * K + be_nat xs"
    and vm: "be_nat (m # ms) = unat m * K + be_nat ms"
    using len by (simp_all add: be_nat_Cons K_def)
  show ?case
  proof (cases "x < m")
    case True
    then have "Suc (unat x) \<le> unat m" by (simp add: word_less_nat_alt)
    then have "Suc (unat x) * K \<le> unat m * K" by (rule mult_le_mono1)
    then have "be_nat (x # xs) \<le> be_nat (m # ms)" using bx vx vm by simp
    with True show ?thesis by simp
  next
    case False
    show ?thesis
    proof (cases "x > m")
      case True
      then have "Suc (unat m) \<le> unat x" by (simp add: word_less_nat_alt)
      then have "Suc (unat m) * K \<le> unat x * K" by (rule mult_le_mono1)
      then have "\<not> be_nat (x # xs) \<le> be_nat (m # ms)" using bm vx vm by simp
      with True False show ?thesis by simp
    next
      case f2: False
      with False have "x = m" by simp
      with False 3 len vx vm show ?thesis by simp
    qed
  qed
qed

lemma val_One: "val One = 4294968273"
  by (simp add: One_def val_def val4_def)

lemma val_new_Element: "val new_Element = 0"
  by (simp add: new_Element_def val_def val4_def)

lemma minusOneEncoding:
  "be_nat (Bytes (Sub new_Element One)) = P - 1"
proof -
  have "val (Sub new_Element One) = (val new_Element + P - val One) mod P"
    by (rule Sub_val) (simp_all add: val_One val_new_Element P_def)
  then have "val (Sub new_Element One) = P - 4294968273"
    by (simp add: val_One val_new_Element P_def)
  then have "fe (Sub new_Element One) = P - 1"
    by (simp add: fe_def P_def Rinv_def)
  then show ?thesis by (simp add: Bytes_be_nat)
qed

lemma SetBytes_accepts:
  "fst (SetBytes e v) = None \<longleftrightarrow> length v = 32 \<and> be_nat v < P"
proof (cases "length v = 32")
  case False
  then show ?thesis by (simp add: SetBytes_def ElementLength_def)
next
  case True
  then have "canonical_loop v (Bytes (Sub new_Element One)) \<longleftrightarrow> be_nat v \<le> P - 1"
    using canonical_loop_le [of v "Bytes (Sub new_Element One)"]
    by (simp add: Bytes_length minusOneEncoding)
  moreover have "be_nat v \<le> P - 1 \<longleftrightarrow> be_nat v < P" using P_pos by linarith
  ultimately show ?thesis using True by (simp add: SetBytes_def ElementLength_def Let_def)
qed

lemma SetBytes_rejects:
  assumes "fst (SetBytes e v) \<noteq> None"
  shows "fst (SetBytes e v) = Some InvalidElementEncoding \<and> snd (SetBytes e v) = e"
  using assms by (simp add: SetBytes_def Let_def split: if_splits)

lemma SetBytes_value:
  assumes "length v = 32" and "be_nat v < P"
  shows "SetBytes e v = (None, toMontgomery (fromBytes (rev v)))"
    and "val (fromBytes (rev v)) = be_nat v"
    and "fe (toMontgomery (fromBytes (rev v))) = be_nat v"
proof -
  have "fst (SetBytes e v) = None" using assms by (simp add: SetBytes_accepts)
  then show "SetBytes e v = (None, toMontgomery (fromBytes (rev v)))"
    using assms(1) by (simp add: SetBytes_def Let_def invertEndianness_rev split: if_splits)
  show v: "val (fromBytes (rev v)) = be_nat v"
    using assms(1) by (simp add: fromBytes_le_nat be_nat_def)
  have "fromMontgomery (toMontgomery (fromBytes (rev v))) = fromBytes (rev v)"
    by (rule fromMontgomery_toMontgomery) (simp add: v assms(2))
  then show "fe (toMontgomery (fromBytes (rev v))) = be_nat v"
    using v by (simp add: val_fromMontgomery_fe [symmetric])
qed

text \<open>
  Claim C5: \<open>set_bytes(v)\<close> succeeds if and only if \<open>v\<close> has exactly 32 bytes and its
  big-endian value is below \<open>p\<close>; on failure it returns the error and leaves the receiver
  unchanged.
\<close>

theorem SetBytes_canonical:
  "(fst (SetBytes e v) = None \<longleftrightarrow> length v = 32 \<and> be_nat v < P)
   \<and> (fst (SetBytes e v) \<noteq> None \<longrightarrow>
        fst (SetBytes e v) = Some InvalidElementEncoding \<and> snd (SetBytes e v) = e)"
  using SetBytes_accepts SetBytes_rejects by blast

text \<open>
  The encoding of \<open>p - 1\<close> is accepted; the encodings of \<open>p\<close> and \<open>p + 1\<close> are rejected
  and leave the receiver (here the element one) as it was.
\<close>

theorem SetBytes_canonical_witness:
  "fst (SetBytes One ([255, 255, 255, 255, 255, 255, 255, 255, 255, 255, 255, 255, 255, 255, 255, 255, 255, 255, 255, 255, 255, 255, 255, 255, 255, 255, 255, 254, 255, 255, 252, 46] :: u8 list)) = None
   \<and> fst (SetBytes One ([255, 255, 255, 255, 255, 255, 255, 255, 255, 255, 255, 255, 255, 255, 255, 255, 255, 255, 255, 255, 255, 255, 255, 255, 255, 255, 255, 254, 255, 255, 252, 47] :: u8 list)) = Some InvalidElementEncoding
   \<and> snd (SetBytes One ([255, 255, 255, 255, 255, 255, 255, 255, 255, 255, 255, 255, 255, 255, 255, 255, 255, 255, 255, 255, 255, 255, 255, 255, 255, 255, 255, 254, 255, 255, 252, 47] :: u8 list)) = One
   \<and> fst (SetBytes One ([255, 255, 255, 255, 255, 255, 255, 255, 255, 255, 255, 255, 255, 255, 255, 255, 255, 255, 255, 255, 255, 255, 255, 255, 255, 255, 255, 254, 255, 255, 252, 48] :: u8 list)) = Some InvalidElementEncoding
   \<and> snd (SetBytes One ([255, 255, 255, 255, 255, 255, 255, 255, 255, 255, 255, 255, 255, 255, 255, 255, 255, 255, 255, 255, 255, 255, 255, 255, 255, 255, 255, 254, 255, 255, 252, 48] :: u8 list)) = One"
proof -
  have a: "be_nat ([255, 255, 255, 255, 255, 255, 255, 255, 255, 255, 255, 255, 255, 255, 255, 255, 255, 255, 255, 255, 255, 255, 255, 255, 255, 255, 255, 254, 255, 255, 252, 46] :: u8 list) < P" "length ([255, 255, 255, 255, 255, 255, 255, 255, 255, 255, 255, 255, 255, 255, 255, 255, 255, 255, 255, 255, 255, 255, 255, 255, 255, 255, 255, 254, 255, 255, 252, 46] :: u8 list) = 32"
    by (simp_all add: be_nat_def P_def)
  have b: "\<not> be_nat ([255, 255, 255, 255, 255, 255, 255, 255, 255, 255, 255, 255, 255, 255, 255, 255, 255, 255, 255, 255, 255, 255, 255, 255, 255, 255, 255, 254, 255, 255, 252, 47] :: u8 list) < P"
    by (simp add: be_nat_def P_def)
  have c: "\<not> be_nat ([255, 255, 255, 255, 255, 255, 255, 255, 255, 255, 255, 255, 255, 255, 255, 255, 255, 255, 255, 255, 255, 255, 255, 255, 255, 255, 255, 254, 255, 255, 252, 48] :: u8 list) < P"
    by (simp add: be_nat_def P_def)
  show ?thesis
    using a b c
      SetBytes_canonical [of One "([255, 255, 255, 255, 255, 255, 255, 255, 255, 255, 255, 255, 255, 255, 255, 255, 255, 255, 255, 255, 255, 255, 255, 255, 255, 255, 255, 254, 255, 255, 252, 46] :: u8 list)"]
      SetBytes_canonical [of One "([255, 255, 255, 255, 255, 255, 255, 255, 255, 255, 255, 255, 255, 255, 255, 255, 255, 255, 255, 255, 255, 255, 255, 255, 255, 255, 255, 254, 255, 255, 252, 47] :: u8 list)"]
      SetBytes_canonical [of One "([255, 255, 255, 255, 255, 255, 255, 255, 255, 255, 255, 255, 255, 255, 255, 255, 255, 255, 255, 255, 255, 255, 255, 255, 255, 255, 255, 254, 255, 255, 252, 48] :: u8 list)"]
    by simp
qed

text \<open>
  Claim C6: for every 32-byte string \<open>v\<close> whose big-endian value is below \<open>p\<close>,
  \<open>set_bytes(v)\<close> succeeds and \<open>bytes\<close> of the result is \<open>v\<close> again.
\<close>

theorem Bytes_SetBytes_roundtrip:
  assumes "length v = 32" and "be_nat v < P"
  shows "fst (SetBytes e v) = None \<and> Bytes (snd (SetBytes e v)) = v"
proof -
  note sv = SetBytes_value [OF assms]
  have "fromMontgomery (toMontgomery (fromBytes (rev v))) = fromBytes (rev v)"
    by (rule fromMontgomery_toMontgomery) (simp add: sv(2) assms(2))
  then have "Bytes (toMontgomery (fromBytes (rev v))) = rev (toBytes (fromBytes (rev v)))"
    by (simp add: Bytes_def Let_def invertEndianness_rev toBytes_val)
  moreover have "toBytes (fromBytes (rev v)) = rev v"
  proof (rule le_nat_inject)
    show "length (toBytes (fromBytes (rev v))) = length (rev v)"
      using assms(1) by (simp add: toBytes_val)
    show "le_nat (toBytes (fromBytes (rev v))) = le_nat (rev v)"
      using assms(1) by (simp add: toBytes_val fromBytes_le_nat)
  qed
  ultimately show ?thesis using sv(1) by simp
qed

theorem Bytes_SetBytes_roundtrip_witness:
  "length ([255, 255, 255, 255, 255, 255, 255, 255, 255, 255, 255, 255, 255, 255, 255, 255, 255, 255, 255, 255, 255, 255, 255, 255, 255, 255, 255, 254, 255, 255, 252, 46] :: u8 list) = 32 \<and> be_nat ([255, 255, 255, 255, 255, 255, 255, 255, 255, 255, 255, 255, 255, 255, 255, 255, 255, 255, 255, 255, 255, 255, 255, 255, 255, 255, 255, 254, 255, 255, 252, 46] :: u8 list) < P
   \<and> fst (SetBytes One ([255, 255, 255, 255, 255, 255, 255, 255, 255, 255, 255, 255, 255, 255, 255, 255, 255, 255, 255, 255, 255, 255, 255, 255, 255, 255, 255, 254, 255, 255, 252, 46] :: u8 list)) = None
   \<and> Bytes (snd (SetBytes One ([255, 255, 255, 255, 255, 255, 255, 255, 255, 255, 255, 255, 255, 255, 255, 255, 255, 255, 255, 255, 255, 255, 255, 255, 255, 255, 255, 254, 255, 255, 252, 46] :: u8 list))) = ([255, 255, 255, 255, 255, 255, 255, 255, 255, 255, 255, 255, 255, 255, 255, 255, 255, 255, 255, 255, 255, 255, 255, 255, 255, 255, 255, 254, 255, 255, 252, 46] :: u8 list)"
proof -
  have a: "length ([255, 255, 255, 255, 255, 255, 255, 255, 255, 255, 255, 255, 255, 255, 255, 255, 255, 255, 255, 255, 255, 255, 255, 255, 255, 255, 255, 254, 255, 255, 252, 46] :: u8 list) = 32" and b: "be_nat ([255, 255, 255, 255, 255, 255, 255, 255, 255, 255, 255, 255, 255, 255, 255, 255, 255, 255, 255, 255, 255, 255, 255, 255, 255, 255, 255, 254, 255, 255, 252, 46] :: u8 list) < P"
    by (simp_all add: be_nat_def P_def)
  show ?thesis using a b Bytes_SetBytes_roundtrip [OF a b, of One] by simp
qed

section \<open>The element operations as field operations\<close>

lemma fe_R: "(fe e * R) mod P = val e mod P"
proof -
  have "(fe e * R) mod P = (val e * Rinv * R) mod P"
    unfolding fe_def by (simp only: mod_mult_left_eq)
  also have "\<dots> = (val e * (R * Rinv)) mod P" by (simp add: ac_simps)
  also have "\<dots> = (val e * ((R * Rinv) mod P)) mod P" by (simp only: mod_mult_right_eq)
  also have "\<dots> = val e mod P" by (simp add: R_Rinv)
  finally show ?thesis .
qed

lemma valid_val: "valid e \<Longrightarrow> val e = (fe e * R) mod P"
  by (simp add: fe_R valid_def)

lemma valid_fe_inject:
  assumes "valid a" and "valid b" and "fe a = fe b"
  shows "a = b"
proof -
  have "val a = val b" using assms by (simp add: valid_val)
  then show ?thesis by (rule val_inject)
qed

lemma valid_Mul: "valid t2 \<Longrightarrow> valid (Mul t1 t2)"
  using Mul_val [of t2 t1] by (simp add: valid_def)

lemma valid_Square: "valid t \<Longrightarrow> valid (Square t)"
  by (simp add: Square_Mul valid_Mul)

lemma valid_Add: "valid t1 \<Longrightarrow> valid t2 \<Longrightarrow> valid (Add t1 t2)"
proof -
  assume "valid t1" and "valid t2"
  then have "val t1 + val t2 < 2 * P" by (simp add: valid_def)
  then have "val (Add t1 t2) = (val t1 + val t2) mod P" by (rule Add_val)
  then show ?thesis using P_pos by (simp add: valid_def)
qed

lemma valid_Sub: "valid t1 \<Longrightarrow> valid t2 \<Longrightarrow> valid (Sub t1 t2)"
proof -
  assume "valid t1" and "valid t2"
  then have "val (Sub t1 t2) = (val t1 + P - val t2) mod P"
    by (simp add: Sub_val valid_def)
  then show ?thesis using P_pos by (simp add: valid_def)
qed

lemma valid_One: "valid One"
  by (simp add: valid_def val_One P_def)

lemma valid_new_Element: "valid new_Element"
  by (simp add: valid_def val_new_Element P_def)

lemma valid_toMontgomery: "valid (toMontgomery x)"
  using toMontgomery_val [of x] by (simp add: valid_def)

lemma valid_Square_loop: "valid t \<Longrightarrow> valid (Square_loop n t)"
  by (induction n arbitrary: t) (simp_all add: valid_Square)

lemma fe_Mul:
  assumes "valid t2"
  shows "fe (Mul t1 t2) = (fe t1 * fe t2) mod P"
proof -
  have m: "(val (Mul t1 t2) * R) mod P = (val t1 * val t2) mod P"
    using Mul_val [of t2 t1] assms by (simp add: valid_def)
  have "((fe t1 * fe t2) * R * R) mod P = (((fe t1 * R) mod P) * ((fe t2 * R) mod P)) mod P"
    by (simp add: mod_mult_eq ac_simps)
  also have "\<dots> = (val t1 * val t2) mod P"
    by (simp only: fe_R mod_mult_eq)
  also have "\<dots> = ((val (Mul t1 t2) mod P) * R) mod P"
    using m by (simp add: mod_mult_left_eq)
  also have "\<dots> = (((fe (Mul t1 t2) * R) mod P) * R) mod P"
    by (simp only: fe_R)
  also have "\<dots> = ((fe (Mul t1 t2) * R) * R) mod P"
    by (simp only: mod_mult_left_eq)
  finally have "(((fe t1 * fe t2) * R) * R) mod P = ((fe (Mul t1 t2) * R) * R) mod P" .
  then have "((fe t1 * fe t2) * R) mod P = (fe (Mul t1 t2) * R) mod P"
    by (rule cancel_R)
  then have "(fe t1 * fe t2) mod P = fe (Mul t1 t2) mod P"
    by (rule cancel_R)
  then show ?thesis using fe_lt [of "Mul t1 t2"] by simp
qed

lemma fe_Square: "valid t \<Longrightarrow> fe (Square t) = (fe t * fe t) mod P"
  by (simp add: Square_Mul fe_Mul)

lemma fe_Add:
  assumes "valid t1" and "valid t2"
  shows "fe (Add t1 t2) = (fe t1 + fe t2) mod P"
proof -
  have "val t1 + val t2 < 2 * P" using assms by (simp add: valid_def)
  then have "val (Add t1 t2) = (val t1 + val t2) mod P" by (rule Add_val)
  then have "fe (Add t1 t2) = (((val t1 + val t2) mod P) * Rinv) mod P"
    by (simp add: fe_def)
  also have "\<dots> = ((val t1 + val t2) * Rinv) mod P"
    by (simp only: mod_mult_left_eq)
  also have "\<dots> = (val t1 * Rinv + val t2 * Rinv) mod P"
    by (simp add: algebra_simps)
  also have "\<dots> = (fe t1 + fe t2) mod P"
    unfolding fe_def by (simp only: mod_add_eq)
  finally show ?thesis .
qed

lemma fe_Sub:
  assumes "valid t1" and "valid t2"
  shows "int (fe (Sub t1 t2)) = (int (fe t1) - int (fe t2)) mod int P"
proof -
  have v: "val (Sub t1 t2) = (val t1 + P - val t2) mod P"
    using assms by (simp add: Sub_val valid_def)
  have le: "val t2 \<le> val t1 + P" using assms by (simp add: valid_def)
  have "int (val (Sub t1 t2)) = (int (val t1) + int P - int (val t2)) mod int P"
    unfolding v using le by (simp add: zmod_int of_nat_diff)
  also have "\<dots> = (int (val t1) - int (val t2)) mod int P"
    by (metis add_diff_eq diff_add_eq mod_add_self2)
  finally have iv: "int (val (Sub t1 t2)) = (int (val t1) - int (val t2)) mod int P" .
  have "int (fe (Sub t1 t2)) = (int (val (Sub t1 t2)) * int Rinv) mod int P"
    by (simp add: fe_def zmod_int)
  also have "\<dots> = ((int (val t1) - int (val t2)) * int Rinv) mod int P"
    unfolding iv by (simp only: mod_mult_left_eq)
  also have "\<dots> = (int (val t1) * int Rinv - int (val t2) * int Rinv) mod int P"
    by (simp add: algebra_simps)
  also have "\<dots> = ((int (val t1) * int Rinv) mod int P - (int (val t2) * int Rinv) mod int P)
      mod int P"
    by (simp only: mod_diff_eq)
  also have "\<dots> = (int (fe t1) - int (fe t2)) mod int P"
    by (simp add: fe_def zmod_int)
  finally show ?thesis .
qed

lemma fe_One: "fe One = 1"
  by (simp add: fe_def val_One Rinv_def P_def)

lemma fe_new_Element: "fe new_Element = 0"
  by (simp add: fe_def val_new_Element)

lemma fe_zero_iff: "valid e \<Longrightarrow> fe e = 0 \<longleftrightarrow> e = new_Element"
  using valid_fe_inject [of e new_Element] by (auto simp: valid_new_Element fe_new_Element)

lemma Equal_iff: "Equal a c = 1 \<longleftrightarrow> fe a = fe c"
proof
  assume "Equal a c = 1"
  then have "Bytes a = Bytes c"
    by (simp add: Equal_def ConstantTimeCompare_def Let_def split: if_splits)
  then have "be_nat (Bytes a) = be_nat (Bytes c)" by simp
  then show "fe a = fe c" by (simp only: Bytes_be_nat)
next
  assume "fe a = fe c"
  then have "Bytes a = Bytes c" by (rule Bytes_inject_fe)
  then show "Equal a c = 1" by (simp add: Equal_def ConstantTimeCompare_def)
qed

lemma b_elem: "valid b_elem \<and> fe b_elem = 7"
proof -
  let ?v = "[0x0, 0x0, 0x0, 0x0, 0x0, 0x0, 0x0, 0x0, 0x0, 0x0, 0x0, 0x0, 0x0, 0x0, 0x0, 0x0, 0x0, 0x0, 0x0, 0x0, 0x0, 0x0, 0x0, 0x0, 0x0, 0x0, 0x0, 0x0, 0x0, 0x0, 0x0, 0x7] :: u8 list"
  have l: "length ?v = 32" and v: "be_nat ?v < P" and e: "be_nat ?v = 7"
    by (simp_all add: be_nat_def P_def)
  note sv = SetBytes_value(1) [OF l v, of new_Element] SetBytes_value(3) [OF l v]
  show ?thesis unfolding b_elem_def using sv e by (simp add: valid_toMontgomery)
qed

lemma b3_elem: "valid b3_elem \<and> fe b3_elem = 21"
proof -
  let ?v = "[0x0, 0x0, 0x0, 0x0, 0x0, 0x0, 0x0, 0x0, 0x0, 0x0, 0x0, 0x0, 0x0, 0x0, 0x0, 0x0, 0x0, 0x0, 0x0, 0x0, 0x0, 0x0, 0x0, 0x0, 0x0, 0x0, 0x0, 0x0, 0x0, 0x0, 0x0, 0x15] :: u8 list"
  have l: "length ?v = 32" and v: "be_nat ?v < P" and e: "be_nat ?v = 21"
    by (simp_all add: be_nat_def P_def)
  note sv = SetBytes_value(1) [OF l v, of new_Element] SetBytes_value(3) [OF l v]
  show ?thesis unfolding b3_elem_def using sv e by (simp add: valid_toMontgomery)
qed

section \<open>Window selection and scalar multiplication never fail\<close>

lemma high_nibble_lt: "\<not> drop_bit 4 (byte :: u8) \<ge> 16"
proof -
  have "unat byte < 256" by (rule unat_byte_lt)
  then have "unat (drop_bit 4 byte) < 16"
    by (simp add: unat_drop_bit_eq drop_bit_eq_div unat_div)
  then show ?thesis by (simp add: word_le_nat_alt)
qed

lemma low_nibble_lt: "\<not> (byte :: u8) AND 0b1111 \<ge> 16"
proof -
  have "byte AND 15 \<le> 15" by (rule word_and_le1)
  then have "unat (byte AND 15) \<le> 15" by (simp add: word_le_nat_alt)
  then show ?thesis by (simp add: word_le_nat_alt)
qed

lemma table_Select_nibble:
  "fst (table_Select tbl t (drop_bit 4 byte) s) = None"
  "fst (table_Select tbl t (byte AND 0b1111) s) = None"
  using high_nibble_lt [of byte] low_nibble_lt [of byte]
  by (simp_all add: table_Select_def split: prod.splits)

lemma ScalarMult_loop_no_error:
  "fst (ScalarMult_loop i scalar tbl t p s) = None"
proof (induction scalar arbitrary: i s)
  case Nil
  show ?case by simp
next
  case (Cons byte rest)
  define s1 where "s1 = (if i \<noteq> 0 then Double4 p s else s)"
  obtain s2 where 2: "table_Select tbl t (drop_bit 4 byte) s1 = (None, s2)"
    using table_Select_nibble(1) [of tbl t byte s1]
    by (cases "table_Select tbl t (drop_bit 4 byte) s1") auto
  obtain r3 s3 where 3: "Point_Add p p t s2 = (r3, s3)"
    by (rule prod.exhaust)
  obtain s4 where 4: "table_Select tbl t (byte AND 0b1111) (Double4 p s3) = (None, s4)"
    using table_Select_nibble(2) [of tbl t byte "Double4 p s3"]
    by (cases "table_Select tbl t (byte AND 0b1111) (Double4 p s3)") auto
  obtain r5 s5 where 5: "Point_Add p p t s4 = (r5, s5)"
    by (rule prod.exhaust)
  have "ScalarMult_loop i (byte # rest) tbl t p s = ScalarMult_loop (i + 1) rest tbl t p s5"
    using 2 3 4 5 by (simp add: s1_def Let_def)
  then show ?case by (simp only: Cons.IH)
qed

text \<open>
  Claim C10: \<open>scalar_mult\<close> returns a nil error for every point and every byte string,
  whatever its length (the window values are nibbles, so \<open>table.Select\<close> cannot panic); with
  the empty scalar the result is the identity point \<open>(0, 1, 0)\<close>.
\<close>

theorem ScalarMult_any_length:
  "fst (ScalarMult p q scalar s) = None
   \<and> heap (snd (ScalarMult p q [] s)) p = Point new_Element One new_Element"
proof
  show "fst (ScalarMult p q scalar s) = None"
    by (simp add: ScalarMult_def ScalarMult_loop_no_error split: prod.splits)
  show "heap (snd (ScalarMult p q [] s)) p = Point new_Element One new_Element"
    by (simp add: ScalarMult_def NewPoint_def Point_Set_def Let_def split: prod.splits)
qed

section \<open>The formulas of the point operations as polynomials\<close>

lemma fi_Mul: "valid t2 \<Longrightarrow> fi (Mul t1 t2) = (fi t1 * fi t2) mod int P"
  by (simp add: fi_def fe_Mul zmod_int)

lemma fi_Square: "valid t \<Longrightarrow> fi (Square t) = (fi t * fi t) mod int P"
  by (simp add: fi_def fe_Square zmod_int)

lemma fi_Add: "valid t1 \<Longrightarrow> valid t2 \<Longrightarrow> fi (Add t1 t2) = (fi t1 + fi t2) mod int P"
  by (simp add: fi_def fe_Add zmod_int)

lemma fi_Sub: "valid t1 \<Longrightarrow> valid t2 \<Longrightarrow> fi (Sub t1 t2) = (fi t1 - fi t2) mod int P"
  by (simp add: fi_def fe_Sub)

lemma fi_b3: "fi b3_elem = 21"
  using b3_elem by (simp add: fi_def)

lemma valid_b3: "valid b3_elem"
  using b3_elem by simp

lemma fi_b: "fi b_elem = 7"
  using b_elem by (simp add: fi_def)

lemma valid_b: "valid b_elem"
  using b_elem by simp

lemma fi_One: "fi One = 1"
  by (simp add: fi_def fe_One)

lemma fi_new_Element: "fi new_Element = 0"
  by (simp add: fi_def fe_new_Element)

lemma fi_range: "0 \<le> fi e" "fi e < int P"
  using fe_lt [of e] by (simp_all add: fi_def)

lemmas valid_ops = valid_Mul valid_Square valid_Add valid_Sub valid_b3 valid_b valid_One
  valid_new_Element

lemmas fi_ops = fi_Mul fi_Square fi_Add fi_Sub fi_b3 fi_b fi_One fi_new_Element

lemma Add_value_valid:
  assumes "valid (X p1)" "valid (Y p1)" "valid (Z p1)" "valid (X p2)" "valid (Y p2)" "valid (Z p2)"
  shows "valid (X (Add_value p1 p2))" "valid (Y (Add_value p1 p2))" "valid (Z (Add_value p1 p2))"
  using assms by (simp_all add: Add_value_def Let_def valid_ops)

lemma Add_value_X:
  assumes "valid (X p1)" "valid (Y p1)" "valid (Z p1)" "valid (X p2)" "valid (Y p2)" "valid (Z p2)"
  shows "fi (X (Add_value p1 p2)) =
    (fi (X p1) * fi (Y p1) * fi (Y p2)^2 - 21 * fi (X p1) * fi (Y p1) * fi (Z p2)^2 - 42 * fi (X p1) * fi (Z p1) * fi (Y p2) * fi (Z p2)
      + fi (Y p1)^2 * fi (X p2) * fi (Y p2) - 42 * fi (Y p1) * fi (Z p1) * fi (X p2) * fi (Z p2)
      - 21 * fi (Z p1)^2 * fi (X p2) * fi (Y p2)) mod int P"
  using assms
  apply (simp add: Add_value_def Let_def valid_ops fi_ops mod_simps)
  apply (rule arg_cong [where f = "\<lambda>v. v mod int P"])
  apply algebra
  done

lemma Add_value_Y:
  assumes "valid (X p1)" "valid (Y p1)" "valid (Z p1)" "valid (X p2)" "valid (Y p2)" "valid (Z p2)"
  shows "fi (Y (Add_value p1 p2)) =
    (63 * fi (X p1)^2 * fi (X p2) * fi (Z p2) + 63 * fi (X p1) * fi (Z p1) * fi (X p2)^2 + fi (Y p1)^2 * fi (Y p2)^2
      - 441 * fi (Z p1)^2 * fi (Z p2)^2) mod int P"
  using assms
  apply (simp add: Add_value_def Let_def valid_ops fi_ops mod_simps)
  apply (rule arg_cong [where f = "\<lambda>v. v mod int P"])
  apply algebra
  done

lemma Add_value_Z:
  assumes "valid (X p1)" "valid (Y p1)" "valid (Z p1)" "valid (X p2)" "valid (Y p2)" "valid (Z p2)"
  shows "fi (Z (Add_value p1 p2)) =
    (3 * fi (X p1)^2 * fi (X p2) * fi (Y p2) + 3 * fi (X p1) * fi (Y p1) * fi (X p2)^2 + fi (Y p1)^2 * fi (Y p2) * fi (Z p2)
      + fi (Y p1) * fi (Z p1) * fi (Y p2)^2 + 21 * fi (Y p1) * fi (Z p1) * fi (Z p2)^2 + 21 * fi (Z p1)^2 * fi (Y p2) * fi (Z p2)) mod int P"
  using assms
  apply (simp add: Add_value_def Let_def valid_ops fi_ops mod_simps)
  apply (rule arg_cong [where f = "\<lambda>v. v mod int P"])
  apply algebra
  done

lemma Sub_value_valid:
  assumes "valid (X p1)" "valid (Y p1)" "valid (Z p1)" "valid (X p2)" "valid (Y p2)" "valid (Z p2)"
  shows "valid (X (Sub_value p1 p2))" "valid (Y (Sub_value p1 p2))" "valid (Z (Sub_value p1 p2))"
  using assms by (simp_all add: Sub_value_def Let_def valid_ops)

lemma Sub_value_X:
  assumes "valid (X p1)" "valid (Y p1)" "valid (Z p1)" "valid (X p2)" "valid (Y p2)" "valid (Z p2)"
  shows "fi (X (Sub_value p1 p2)) =
    (fi (X p1) * fi (Y p1) * fi (Y p2)^2 - 21 * fi (X p1) * fi (Y p1) * fi (Z p2)^2 + 42 * fi (X p1) * fi (Z p1) * fi (Y p2) * fi (Z p2)
      - fi (Y p1)^2 * fi (X p2) * fi (Y p2) - 42 * fi (Y p1) * fi (Z p1) * fi (X p2) * fi (Z p2)
      + 21 * fi (Z p1)^2 * fi (X p2) * fi (Y p2)) mod int P"
  using assms
  apply (simp add: Sub_value_def Let_def valid_ops fi_ops mod_simps)
  apply (rule arg_cong [where f = "\<lambda>v. v mod int P"])
  apply algebra
  done

lemma Sub_value_Y:
  assumes "valid (X p1)" "valid (Y p1)" "valid (Z p1)" "valid (X p2)" "valid (Y p2)" "valid (Z p2)"
  shows "fi (Y (Sub_value p1 p2)) =
    (63 * fi (X p1)^2 * fi (X p2) * fi (Z p2) + 63 * fi (X p1) * fi (Z p1) * fi (X p2)^2 + fi (Y p1)^2 * fi (Y p2)^2
      - 441 * fi (Z p1)^2 * fi (Z p2)^2) mod int P"
  using assms
  apply (simp add: Sub_value_def Let_def valid_ops fi_ops mod_simps)
  apply (rule arg_cong [where f = "\<lambda>v. v mod int P"])
  apply algebra
  done

lemma Sub_value_Z:
  assumes "valid (X p1)" "valid (Y p1)" "valid (Z p1)" "valid (X p2)" "valid (Y p2)" "valid (Z p2)"
  shows "fi (Z (Sub_value p1 p2)) =
    (- 3 * fi (X p1)^2 * fi (X p2) * fi (Y p2) + 3 * fi (X p1) * fi (Y p1) * fi (X p2)^2 - fi (Y p1)^2 * fi (Y p2) * fi (Z p2)
      + fi (Y p1) * fi (Z p1) * fi (Y p2)^2 + 21 * fi (Y p1) * fi (Z p1) * fi (Z p2)^2 - 21 * fi (Z p1)^2 * fi (Y p2) * fi (Z p2)) mod int P"
  using assms
  apply (simp add: Sub_value_def Let_def valid_ops fi_ops mod_simps)
  apply (rule arg_cong [where f = "\<lambda>v. v mod int P"])
  apply algebra
  done

lemma Double_value_valid:
  assumes "valid (X p)" "valid (Y p)" "valid (Z p)"
  shows "valid (X (Double_value p))" "valid (Y (Double_value p))" "valid (Z (Double_value p))"
  using assms by (simp_all add: Double_value_def Let_def valid_ops)

lemma Double_value_X:
  assumes "valid (X p)" "valid (Y p)" "valid (Z p)"
  shows "fi (X (Double_value p)) = (2 * fi (X p) * fi (Y p)^3 - 126 * fi (X p) * fi (Y p) * fi (Z p)^2) mod int P"
  using assms
  apply (simp add: Double_value_def Let_def valid_ops fi_ops mod_simps)
  apply (rule arg_cong [where f = "\<lambda>v. v mod int P"])
  apply algebra
  done

lemma Double_value_Y:
  assumes "valid (X p)" "valid (Y p)" "valid (Z p)"
  shows "fi (Y (Double_value p)) = (fi (Y p)^4 + 126 * fi (Y p)^2 * fi (Z p)^2 - 1323 * fi (Z p)^4) mod int P"
  using assms
  apply (simp add: Double_value_def Let_def valid_ops fi_ops mod_simps)
  apply (rule arg_cong [where f = "\<lambda>v. v mod int P"])
  apply algebra
  done

lemma Double_value_Z:
  assumes "valid (X p)" "valid (Y p)" "valid (Z p)"
  shows "fi (Z (Double_value p)) = (8 * fi (Y p)^3 * fi (Z p)) mod int P"
  using assms
  apply (simp add: Double_value_def Let_def valid_ops fi_ops mod_simps)
  apply (rule arg_cong [where f = "\<lambda>v. v mod int P"])
  apply algebra
  done

text \<open>
  The results of the complete addition formulas satisfy the projective curve equation
  whenever both operands do: the value of the curve polynomial at the result is a
  combination of its values at the operands.
\<close>

lemma add_curve_identity:
  fixes x1 y1 z1 x2 y2 z2 :: int
  defines "x3 \<equiv> x1 * y1 * y2^2 - 21 * x1 * y1 * z2^2 - 42 * x1 * z1 * y2 * z2 + y1^2 * x2 * y2 - 42 * y1 * z1 * x2 * z2
      - 21 * z1^2 * x2 * y2"
    and "y3 \<equiv> 63 * x1^2 * x2 * z2 + 63 * x1 * z1 * x2^2 + y1^2 * y2^2 - 441 * z1^2 * z2^2"
    and "z3 \<equiv> 3 * x1^2 * x2 * y2 + 3 * x1 * y1 * x2^2 + y1^2 * y2 * z2 + y1 * z1 * y2^2 + 21 * y1 * z1 * z2^2
      + 21 * z1^2 * y2 * z2"
  shows "curve_int x3 y3 z3 =
    (189 * x1^3 * x2^3 * y2^3 - 11907 * x1^3 * x2^3 * y2 * z2^2 + 567 * x1^2 * y1 * x2^4 * y2^2
      - 11907 * x1^2 * y1 * x2^4 * z2^2 - 23814 * x1^2 * z1 * x2^4 * y2 * z2 + 567 * x1 * y1^2 * x2^5 * y2
      - 189 * x1 * y1^2 * x2^2 * y2^3 * z2 - 3969 * x1 * y1^2 * x2^2 * y2 * z2^3 - 23814 * x1 * y1 * z1 * x2^5 * z2
      + 189 * x1 * y1 * z1 * x2^2 * y2^4 - 83349 * x1 * y1 * z1 * x2^2 * z2^4 - 11907 * x1 * z1^2 * x2^5 * y2
      + 3969 * x1 * z1^2 * x2^2 * y2^3 * z2 + 83349 * x1 * z1^2 * x2^2 * y2 * z2^3 + 189 * y1^3 * x2^6
      + y1^3 * y2^6 - 63 * y1^3 * y2^4 * z2^2 + 1323 * y1^3 * y2^2 * z2^4 - 9261 * y1^3 * z2^6
      + 189 * y1^2 * z1 * x2^3 * y2^3 - 11907 * y1^2 * z1 * x2^3 * y2 * z2^2 - 126 * y1^2 * z1 * y2^5 * z2
      + 5292 * y1^2 * z1 * y2^3 * z2^3 - 55566 * y1^2 * z1 * y2 * z2^5 - 11907 * y1 * z1^2 * x2^6
      + 5292 * y1 * z1^2 * y2^4 * z2^2 - 111132 * y1 * z1^2 * y2^2 * z2^4 - 1323 * z1^3 * x2^3 * y2^3
      + 83349 * z1^3 * x2^3 * y2 * z2^2 - 74088 * z1^3 * y2^3 * z2^3) * curve_int x1 y1 z1
    + (189 * x1^2 * y1^4 * x2 * y2 * z2 + 378 * x1^2 * y1^3 * z1 * x2 * y2^2 - 7938 * x1^2 * y1^3 * z1 * x2 * z2^2
      - 23814 * x1^2 * y1^2 * z1^2 * x2 * y2 * z2 - 7938 * x1^2 * y1 * z1^3 * x2 * y2^2 + 166698 * x1^2 * y1 * z1^3 * x2 * z2^2
      + 83349 * x1^2 * z1^4 * x2 * y2 * z2 + 567 * x1 * y1^4 * z1 * x2^2 * y2 - 23814 * x1 * y1^3 * z1^2 * x2^2 * z2
      - 15876 * x1 * y1^2 * z1^3 * x2^2 * y2 + 166698 * x1 * y1 * z1^4 * x2^2 * z2 + 83349 * x1 * z1^5 * x2^2 * y2
      + y1^6 * y2^3 + 189 * y1^5 * z1 * x2^3 + 63 * y1^5 * z1 * y2^2 * z2 - 1323 * y1^5 * z1 * z2^3
      + 126 * y1^4 * z1^2 * y2^3 - 6615 * y1^4 * z1^2 * y2 * z2^2 - 13230 * y1^3 * z1^3 * x2^3
      - 7938 * y1^3 * z1^3 * y2^2 * z2 + 18522 * y1^3 * z1^3 * z2^3 - 1323 * y1^2 * z1^4 * y2^3
      + 55566 * y1^2 * z1^4 * y2 * z2^2 + 83349 * y1 * z1^5 * x2^3 + 27783 * y1 * z1^5 * y2^2 * z2
      - 583443 * y1 * z1^5 * z2^3 - 583443 * z1^6 * y2 * z2^2) * curve_int x2 y2 z2"
  unfolding curve_int_def x3_def y3_def z3_def by algebra

lemma double_curve_identity:
  fixes x y z :: int
  shows "curve_int (2 * x * y^3 - 126 * x * y * z^2) (y^4 + 126 * y^2 * z^2 - 1323 * z^4) (8 * y^3 * z) =
    (8 * y^9 - 1512 * y^7 * z^2 + 95256 * y^5 * z^4 - 2000376 * y^3 * z^6) * curve_int x y z"
  unfolding curve_int_def by algebra

section \<open>The curve check and the generator\<close>

lemma valid_polynomial: "valid x \<Longrightarrow> valid (polynomial x)"
  by (simp add: polynomial_def Let_def valid_ops)

lemma fi_polynomial: "valid x \<Longrightarrow> fi (polynomial x) = ((fi x)^3 + 7) mod int P"
  apply (simp add: polynomial_def Let_def valid_ops fi_ops mod_simps)
  apply (rule arg_cong [where f = "\<lambda>v. v mod int P"])
  apply algebra
  done

lemma fi_eq_iff: "fi a = fi c \<longleftrightarrow> fe a = fe c"
  by (simp add: fi_def)

lemma checkOnCurve_iff:
  assumes "valid x" and "valid y"
  shows "checkOnCurve x y = None \<longleftrightarrow> ((fi y)^2) mod int P = ((fi x)^3 + 7) mod int P"
proof -
  have "checkOnCurve x y = None \<longleftrightarrow> fi (polynomial x) = fi (Square y)"
    by (simp add: checkOnCurve_def Let_def Equal_iff fi_eq_iff)
  also have "\<dots> \<longleftrightarrow> ((fi x)^3 + 7) mod int P = ((fi y)^2) mod int P"
    using assms by (simp add: fi_polynomial fi_Square power2_eq_square)
  finally show ?thesis by auto
qed

lemma curve_int_mod:
  "int P dvd curve_int (a mod int P) (b mod int P) (c mod int P) \<longleftrightarrow> int P dvd curve_int a b c"
proof -
  have "curve_int (a mod int P) (b mod int P) (c mod int P) mod int P = curve_int a b c mod int P"
    unfolding curve_int_def
    by (intro mod_diff_cong mod_mult_cong refl) (simp_all add: power_mod)
  then show ?thesis by (simp only: dvd_eq_mod_eq_0)
qed

lemma point_ok_affine:
  assumes "valid x" and "valid y" and "((fi y)^2) mod int P = ((fi x)^3 + 7) mod int P"
  shows "point_ok (Point x y One)"
proof -
  have "int P dvd (fi y)^2 - ((fi x)^3 + 7)"
    using assms(3) by (simp only: mod_eq_dvd_iff)
  moreover have "curve_int (fi x) (fi y) 1 = (fi y)^2 - ((fi x)^3 + 7)"
    by (simp add: curve_int_def)
  ultimately show ?thesis using assms(1,2) by (simp add: point_ok_def valid_One fi_One)
qed

lemma point_ok_identity: "point_ok (Point new_Element One new_Element)"
  by (simp add: point_ok_def valid_ops fi_ops curve_int_def)

lemma point_ok_zero: "point_ok (Point new_Element new_Element new_Element)"
  by (simp add: point_ok_def valid_ops fi_ops curve_int_def)

lemma point_ok_on_curve:
  assumes "point_ok p"
  shows "on_curve p"
proof -
  let ?x = "fe (X p)" and ?y = "fe (Y p)" and ?z = "fe (Z p)"
  have "int P dvd (int ?y)^2 * int ?z - (int ?x)^3 - 7 * (int ?z)^3"
    using assms by (simp add: point_ok_def curve_int_def fi_def)
  then have "int P dvd int (?y^2 * ?z) - int (?x^3 + 7 * ?z^3)"
    by (simp add: algebra_simps)
  then have "int (?y^2 * ?z) mod int P = int (?x^3 + 7 * ?z^3) mod int P"
    by (simp only: mod_eq_dvd_iff)
  then have "int ((?y^2 * ?z) mod P) = int ((?x^3 + 7 * ?z^3) mod P)"
    by (simp only: zmod_int)
  then have "(?y^2 * ?z) mod P = (?x^3 + 7 * ?z^3) mod P"
    by (simp only: of_nat_eq_iff)
  then show ?thesis by (simp add: on_curve_def)
qed

text \<open>The generator: its coordinates are the Montgomery forms of \<open>Gx\<close> and \<open>Gy\<close>, and \<open>Z = 1\<close>.\<close>


lemma Point_SetBytes_uncompressed:
  assumes "length xb = 32" and "length yb = 32"
  shows "Point_SetBytes p (4 # xb @ yb) s =
    (case SetBytes new_Element xb of
      (Some err, x) \<Rightarrow> (Some err, s)
    | (None, x) \<Rightarrow>
        (case SetBytes new_Element yb of
          (Some err, y) \<Rightarrow> (Some err, s)
        | (None, y) \<Rightarrow>
            (case checkOnCurve x y of
              Some err \<Rightarrow> (Some err, s)
            | None \<Rightarrow> (None, s\<lparr>heap := (heap s)(p := Point x y One)\<rparr>))))"
proof -
  have t: "take ElementLength (drop 1 (4 # xb @ yb)) = xb"
    and d: "drop (1 + ElementLength) (4 # xb @ yb) = yb"
    and n: "length (4 # xb @ yb) = 1 + 2 * ElementLength" "(4 # xb @ yb) ! 0 = 4"
    using assms by (simp_all add: ElementLength_def)
  show ?thesis unfolding Point_SetBytes_def t d using n by simp
qed

lemma G_on_curve: "((int Gy)^2) mod int P = ((int Gx)^3 + 7) mod int P"
  by (simp add: Gx_def Gy_def P_def)

lemma g_point:
  "\<exists>gx gy. g_point = Point gx gy One \<and> valid gx \<and> valid gy \<and> fi gx = int Gx \<and> fi gy = int Gy"
proof -
  define xb :: "u8 list" where "xb = [0x79, 0xbe, 0x66, 0x7e, 0xf9, 0xdc, 0xbb, 0xac, 0x55, 0xa0, 0x62, 0x95, 0xce, 0x87, 0xb, 0x7, 0x2, 0x9b, 0xfc, 0xdb, 0x2d, 0xce, 0x28, 0xd9, 0x59, 0xf2, 0x81, 0x5b, 0x16, 0xf8, 0x17, 0x98]"
  define yb :: "u8 list" where "yb = [0x48, 0x3a, 0xda, 0x77, 0x26, 0xa3, 0xc4, 0x65, 0x5d, 0xa4, 0xfb, 0xfc, 0xe, 0x11, 0x8, 0xa8, 0xfd, 0x17, 0xb4, 0x48, 0xa6, 0x85, 0x54, 0x19, 0x9c, 0x47, 0xd0, 0x8f, 0xfb, 0x10, 0xd4, 0xb8]"
  define gx where "gx = toMontgomery (fromBytes (rev xb))"
  define gy where "gy = toMontgomery (fromBytes (rev yb))"
  have l1: "length xb = 32" and l2: "length yb = 32" by (simp_all add: xb_def yb_def)
  have e1: "be_nat xb = Gx" and e2: "be_nat yb = Gy"
    by (simp_all add: xb_def yb_def be_nat_def Gx_def Gy_def)
  have v1: "be_nat xb < P" and v2: "be_nat yb < P"
    unfolding e1 e2 by (simp_all add: Gx_def Gy_def P_def)
  have fx: "fi gx = int Gx" unfolding fi_def gx_def using SetBytes_value(3) [OF l1 v1] e1 by simp
  have fy: "fi gy = int Gy" unfolding fi_def gy_def using SetBytes_value(3) [OF l2 v2] e2 by simp
  have vx: "valid gx" and vy: "valid gy" by (simp_all add: gx_def gy_def valid_toMontgomery)
  have c: "checkOnCurve gx gy = None"
    using G_on_curve by (simp add: checkOnCurve_iff vx vy fx fy)
  have "Point_SetBytes p (4 # xb @ yb) s = (None, s\<lparr>heap := (heap s)(p := Point gx gy One)\<rparr>)"
    for p s
    unfolding Point_SetBytes_uncompressed [OF l1 l2]
    using SetBytes_value(1) [OF l1 v1, of new_Element] SetBytes_value(1) [OF l2 v2, of new_Element] c
    by (simp add: gx_def gy_def)
  moreover have "g_point = (let (p, s) = NewPoint init_state;
        (err, s) = Point_SetBytes p (4 # xb @ yb) s in heap s p)"
    by (simp add: g_point_def xb_def yb_def)
  ultimately have "g_point = Point gx gy One"
    by (simp add: NewPoint_def Let_def)
  then show ?thesis using fx fy vx vy by blast
qed

lemma point_ok_g: "point_ok g_point"
proof -
  obtain gx gy where g: "g_point = Point gx gy One" "valid gx" "valid gy"
      "fi gx = int Gx" "fi gy = int Gy"
    using g_point by blast
  show ?thesis unfolding g(1) using g(2,3) G_on_curve by (intro point_ok_affine) (simp_all add: g(4,5))
qed
section \<open>Doubling\<close>

lemma Double_value_g:
  "fi (Z (Double_value g_point)) = (8 * (int Gy)^3) mod int P"
proof -
  obtain gx gy where g: "g_point = Point gx gy One" "valid gx" "valid gy"
      "fi gx = int Gx" "fi gy = int Gy"
    using g_point by blast
  show ?thesis unfolding g(1) using g(2-) by (simp add: Double_value_Z valid_One fi_One)
qed

lemma Double_value_g_neq: "Z (Double_value g_point) \<noteq> One" "Z (Double_value g_point) \<noteq> new_Element"
proof -
  have "fi (Z (Double_value g_point)) \<noteq> 1" "fi (Z (Double_value g_point)) \<noteq> 0"
    unfolding Double_value_g by (simp_all add: Gy_def P_def)
  then show "Z (Double_value g_point) \<noteq> One" "Z (Double_value g_point) \<noteq> new_Element"
    using fi_One fi_new_Element by auto
qed

lemma Z_g_point: "Z g_point = One"
  using g_point by (metis Point.sel(3))

text \<open>
  Claim C2 fails on \<open>Point.Double\<close>: with \<open>p\<close> a new generator and \<open>q\<close> a new point (the
  identity), distinct, the call \<open>q.Double(p)\<close> returns \<open>p\<close>, not the receiver; the receiver
  \<open>q\<close> still holds the identity and not the doubling of \<open>p\<close>; the doubling is stored in
  the operand \<open>p\<close>, which is changed by the call.
\<close>

theorem Point_Double_writes_operand:
  "(let (p, s1) = NewGenerator init_state;
        (q, s2) = NewPoint s1;
        (r, s3) = Point_Double q p s2
    in q \<noteq> p \<and> r = p \<and> r \<noteq> q
       \<and> heap s3 q = heap s2 q
       \<and> heap s3 q \<noteq> Double_value (heap s2 p)
       \<and> heap s3 p = Double_value (heap s2 p)
       \<and> heap s3 p \<noteq> heap s2 p)"
proof -
  have a: "Point new_Element One new_Element \<noteq> Double_value g_point"
    using Double_value_g_neq(2) by (metis Point.sel(3))
  have b: "Double_value g_point \<noteq> g_point"
    using Double_value_g_neq(1) Z_g_point by metis
  show ?thesis
    using a b by (simp add: NewGenerator_def NewPoint_def Point_Double_def init_state_def Let_def)
qed
section \<open>The point operations preserve the curve equation\<close>

lemma sub_curve_identity:
  fixes x1 y1 z1 x2 y2 z2 :: int
  defines "x3 \<equiv> x1 * y1 * y2^2 - 21 * x1 * y1 * z2^2 + 42 * x1 * z1 * y2 * z2 - y1^2 * x2 * y2 - 42 * y1 * z1 * x2 * z2
      + 21 * z1^2 * x2 * y2"
    and "y3 \<equiv> 63 * x1^2 * x2 * z2 + 63 * x1 * z1 * x2^2 + y1^2 * y2^2 - 441 * z1^2 * z2^2"
    and "z3 \<equiv> - 3 * x1^2 * x2 * y2 + 3 * x1 * y1 * x2^2 - y1^2 * y2 * z2 + y1 * z1 * y2^2 + 21 * y1 * z1 * z2^2
      - 21 * z1^2 * y2 * z2"
  shows "curve_int x3 y3 z3 =
    (- 189 * x1^3 * x2^3 * y2^3 + 11907 * x1^3 * x2^3 * y2 * z2^2 + 567 * x1^2 * y1 * x2^4 * y2^2
      - 11907 * x1^2 * y1 * x2^4 * z2^2 + 23814 * x1^2 * z1 * x2^4 * y2 * z2 - 567 * x1 * y1^2 * x2^5 * y2
      + 189 * x1 * y1^2 * x2^2 * y2^3 * z2 + 3969 * x1 * y1^2 * x2^2 * y2 * z2^3 - 23814 * x1 * y1 * z1 * x2^5 * z2
      + 189 * x1 * y1 * z1 * x2^2 * y2^4 - 83349 * x1 * y1 * z1 * x2^2 * z2^4 + 11907 * x1 * z1^2 * x2^5 * y2
      - 3969 * x1 * z1^2 * x2^2 * y2^3 * z2 - 83349 * x1 * z1^2 * x2^2 * y2 * z2^3 + 189 * y1^3 * x2^6
      + y1^3 * y2^6 - 63 * y1^3 * y2^4 * z2^2 + 1323 * y1^3 * y2^2 * z2^4 - 9261 * y1^3 * z2^6
      - 189 * y1^2 * z1 * x2^3 * y2^3 + 11907 * y1^2 * z1 * x2^3 * y2 * z2^2 + 126 * y1^2 * z1 * y2^5 * z2
      - 5292 * y1^2 * z1 * y2^3 * z2^3 + 55566 * y1^2 * z1 * y2 * z2^5 - 11907 * y1 * z1^2 * x2^6
      + 5292 * y1 * z1^2 * y2^4 * z2^2 - 111132 * y1 * z1^2 * y2^2 * z2^4 + 1323 * z1^3 * x2^3 * y2^3
      - 83349 * z1^3 * x2^3 * y2 * z2^2 + 74088 * z1^3 * y2^3 * z2^3) * curve_int x1 y1 z1
    + (- 189 * x1^2 * y1^4 * x2 * y2 * z2 + 378 * x1^2 * y1^3 * z1 * x2 * y2^2 - 7938 * x1^2 * y1^3 * z1 * x2 * z2^2
      + 23814 * x1^2 * y1^2 * z1^2 * x2 * y2 * z2 - 7938 * x1^2 * y1 * z1^3 * x2 * y2^2 + 166698 * x1^2 * y1 * z1^3 * x2 * z2^2
      - 83349 * x1^2 * z1^4 * x2 * y2 * z2 - 567 * x1 * y1^4 * z1 * x2^2 * y2 - 23814 * x1 * y1^3 * z1^2 * x2^2 * z2
      + 15876 * x1 * y1^2 * z1^3 * x2^2 * y2 + 166698 * x1 * y1 * z1^4 * x2^2 * z2 - 83349 * x1 * z1^5 * x2^2 * y2
      - y1^6 * y2^3 + 189 * y1^5 * z1 * x2^3 + 63 * y1^5 * z1 * y2^2 * z2 - 1323 * y1^5 * z1 * z2^3
      - 126 * y1^4 * z1^2 * y2^3 + 6615 * y1^4 * z1^2 * y2 * z2^2 - 13230 * y1^3 * z1^3 * x2^3
      - 7938 * y1^3 * z1^3 * y2^2 * z2 + 18522 * y1^3 * z1^3 * z2^3 + 1323 * y1^2 * z1^4 * y2^3
      - 55566 * y1^2 * z1^4 * y2 * z2^2 + 83349 * y1 * z1^5 * x2^3 + 27783 * y1 * z1^5 * y2^2 * z2
      - 583443 * y1 * z1^5 * z2^3 + 583443 * z1^6 * y2 * z2^2) * curve_int x2 y2 z2"
  unfolding curve_int_def x3_def y3_def z3_def by algebra

lemma point_ok_Add:
  assumes "point_ok p1" and "point_ok p2"
  shows "point_ok (Add_value p1 p2)"
proof -
  have v: "valid (X p1)" "valid (Y p1)" "valid (Z p1)" "valid (X p2)" "valid (Y p2)" "valid (Z p2)"
    using assms by (simp_all add: point_ok_def)
  have d1: "int P dvd curve_int (fi (X p1)) (fi (Y p1)) (fi (Z p1))"
    and d2: "int P dvd curve_int (fi (X p2)) (fi (Y p2)) (fi (Z p2))"
    using assms by (simp_all add: point_ok_def)
  have "int P dvd curve_int (fi (X (Add_value p1 p2))) (fi (Y (Add_value p1 p2)))
      (fi (Z (Add_value p1 p2)))"
    unfolding Add_value_X [OF v] Add_value_Y [OF v] Add_value_Z [OF v] curve_int_mod
      add_curve_identity
    by (intro dvd_add dvd_mult d1 d2)
  then show ?thesis using Add_value_valid [OF v] by (simp add: point_ok_def)
qed

lemma point_ok_Sub:
  assumes "point_ok p1" and "point_ok p2"
  shows "point_ok (Sub_value p1 p2)"
proof -
  have v: "valid (X p1)" "valid (Y p1)" "valid (Z p1)" "valid (X p2)" "valid (Y p2)" "valid (Z p2)"
    using assms by (simp_all add: point_ok_def)
  have d1: "int P dvd curve_int (fi (X p1)) (fi (Y p1)) (fi (Z p1))"
    and d2: "int P dvd curve_int (fi (X p2)) (fi (Y p2)) (fi (Z p2))"
    using assms by (simp_all add: point_ok_def)
  have "int P dvd curve_int (fi (X (Sub_value p1 p2))) (fi (Y (Sub_value p1 p2)))
      (fi (Z (Sub_value p1 p2)))"
    unfolding Sub_value_X [OF v] Sub_value_Y [OF v] Sub_value_Z [OF v] curve_int_mod
      sub_curve_identity
    by (intro dvd_add dvd_mult d1 d2)
  then show ?thesis using Sub_value_valid [OF v] by (simp add: point_ok_def)
qed

lemma point_ok_Double:
  assumes "point_ok p"
  shows "point_ok (Double_value p)"
proof -
  have v: "valid (X p)" "valid (Y p)" "valid (Z p)"
    using assms by (simp_all add: point_ok_def)
  have d: "int P dvd curve_int (fi (X p)) (fi (Y p)) (fi (Z p))"
    using assms by (simp add: point_ok_def)
  have "int P dvd curve_int (fi (X (Double_value p))) (fi (Y (Double_value p)))
      (fi (Z (Double_value p)))"
    unfolding Double_value_X [OF v] Double_value_Y [OF v] Double_value_Z [OF v] curve_int_mod
      double_curve_identity
    by (intro dvd_mult d)
  then show ?thesis using Double_value_valid [OF v] by (simp add: point_ok_def)
qed

lemma point_ok_Select:
  assumes "point_ok p1" and "point_ok p2" and "cond = 0 \<or> cond = 1"
  shows "point_ok (Point (Select (X p1) (X p2) cond) (Select (Y p1) (Y p2) cond)
    (Select (Z p1) (Z p2) cond))"
  using assms by (auto simp: Select_cond_0 Select_cond_1)

section \<open>Every call keeps all points of the store on the curve\<close>

lemma heap_ok_NewPoint: "heap_ok s \<Longrightarrow> heap_ok (snd (NewPoint s))"
  by (simp add: NewPoint_def Let_def heap_ok_def point_ok_identity)

lemma heap_ok_NewGenerator: "heap_ok s \<Longrightarrow> heap_ok (snd (NewGenerator s))"
  by (simp add: NewGenerator_def Let_def heap_ok_def point_ok_g)

lemma heap_ok_Point_Set: "heap_ok s \<Longrightarrow> heap_ok (snd (Point_Set p q s))"
  by (simp add: Point_Set_def heap_ok_def)

lemma heap_ok_Point_Add: "heap_ok s \<Longrightarrow> heap_ok (snd (Point_Add p p1 p2 s))"
  by (simp add: Point_Add_def heap_ok_def point_ok_Add)

lemma heap_ok_Point_Sub: "heap_ok s \<Longrightarrow> heap_ok (snd (Point_Sub q p1 p2 s))"
  by (simp add: Point_Sub_def heap_ok_def point_ok_Sub)

lemma heap_ok_Point_Double: "heap_ok s \<Longrightarrow> heap_ok (snd (Point_Double q p s))"
  by (simp add: Point_Double_def heap_ok_def point_ok_Double)

lemma heap_ok_Point_Select:
  "cond = 0 \<or> cond = 1 \<Longrightarrow> heap_ok s \<Longrightarrow> heap_ok (snd (Point_Select p p1 p2 cond s))"
  by (simp add: Point_Select_def heap_ok_def point_ok_Select)

lemma heap_ok_table_Select_loop:
  "heap_ok s \<Longrightarrow> heap_ok (table_Select_loop k i tbl p n s)"
proof (induction k arbitrary: i s)
  case 0
  then show ?case by simp
next
  case (Suc k)
  have c: "ConstantTimeByteEq (of_nat i) n = 0 \<or> ConstantTimeByteEq (of_nat i) n = 1"
    by (simp add: ConstantTimeByteEq_def)
  have "heap_ok (snd (Point_Select p (tbl ! (i - 1)) p (ConstantTimeByteEq (of_nat i) n) s))"
    using c Suc.prems by (rule heap_ok_Point_Select)
  then show ?case by (simp add: Let_def case_prod_beta Suc.IH)
qed

lemma heap_ok_table_Select: "heap_ok s \<Longrightarrow> heap_ok (snd (table_Select tbl p n s))"
  by (simp add: table_Select_def Let_def case_prod_beta heap_ok_table_Select_loop
      heap_ok_Point_Set heap_ok_NewPoint)

lemma heap_ok_NewPoints: "heap_ok s \<Longrightarrow> heap_ok (snd (NewPoints k s))"
  by (induction k arbitrary: s) (simp_all add: Let_def case_prod_beta heap_ok_NewPoint)

lemma heap_ok_ScalarMult_table_loop:
  "heap_ok s \<Longrightarrow> heap_ok (ScalarMult_table_loop k i tbl q s)"
  by (induction k arbitrary: i s)
    (simp_all add: Let_def case_prod_beta heap_ok_Point_Double heap_ok_Point_Add)

lemma heap_ok_ScalarMult_table: "heap_ok s \<Longrightarrow> heap_ok (snd (ScalarMult_table q s))"
  by (simp add: ScalarMult_table_def Let_def case_prod_beta heap_ok_ScalarMult_table_loop
      heap_ok_Point_Set heap_ok_NewPoints)

lemma heap_ok_Double4: "heap_ok s \<Longrightarrow> heap_ok (Double4 p s)"
  by (simp add: Double4_def Let_def case_prod_beta heap_ok_Point_Double)

text \<open>One iteration of the main loop of \<open>ScalarMult\<close>, as a function of the state.\<close>

lemma ScalarMult_loop_Cons:
  "ScalarMult_loop i (byte # rest) tbl t p s = ScalarMult_loop (i + 1) rest tbl t p
    (snd (Point_Add p p t (snd (table_Select tbl t (byte AND 0b1111) (Double4 p
      (snd (Point_Add p p t (snd (table_Select tbl t (drop_bit 4 byte)
        (if i \<noteq> 0 then Double4 p s else s))))))))))"
proof -
  define s1 where "s1 = (if i \<noteq> 0 then Double4 p s else s)"
  obtain s2 where 2: "table_Select tbl t (drop_bit 4 byte) s1 = (None, s2)"
    using table_Select_nibble(1) [of tbl t byte s1]
    by (cases "table_Select tbl t (drop_bit 4 byte) s1") auto
  obtain r3 s3 where 3: "Point_Add p p t s2 = (r3, s3)"
    by (rule prod.exhaust)
  obtain s4 where 4: "table_Select tbl t (byte AND 0b1111) (Double4 p s3) = (None, s4)"
    using table_Select_nibble(2) [of tbl t byte "Double4 p s3"]
    by (cases "table_Select tbl t (byte AND 0b1111) (Double4 p s3)") auto
  obtain r5 s5 where 5: "Point_Add p p t s4 = (r5, s5)"
    by (rule prod.exhaust)
  have "ScalarMult_loop i (byte # rest) tbl t p s = ScalarMult_loop (i + 1) rest tbl t p s5"
    using 2 3 4 5 by (simp add: s1_def Let_def)
  then show ?thesis using 2 3 4 5 by (simp add: s1_def)
qed

lemma heap_ok_ScalarMult_loop:
  "heap_ok s \<Longrightarrow> heap_ok (snd (ScalarMult_loop i scalar tbl t p s))"
proof (induction scalar arbitrary: i s)
  case Nil
  then show ?case by simp
next
  case (Cons byte rest)
  show ?case unfolding ScalarMult_loop_Cons
    by (intro Cons.IH heap_ok_Point_Add heap_ok_table_Select heap_ok_Double4)
      (simp add: Cons.prems heap_ok_Double4)
qed

lemma heap_ok_ScalarMult: "heap_ok s \<Longrightarrow> heap_ok (snd (ScalarMult p q scalar s))"
  by (simp add: ScalarMult_def Let_def case_prod_beta heap_ok_ScalarMult_loop
      heap_ok_ScalarMult_table heap_ok_Point_Set heap_ok_NewPoint)

lemma heap_ok_generatorTable_row:
  "heap_ok s \<Longrightarrow> heap_ok (snd (generatorTable_row k prev base s))"
  by (induction k arbitrary: prev s)
    (simp_all add: Let_def case_prod_beta heap_ok_Point_Add heap_ok_NewPoint)

lemma heap_ok_generatorTable_loop:
  "heap_ok s \<Longrightarrow> heap_ok (snd (generatorTable_loop k base s))"
  by (induction k arbitrary: s)
    (simp_all add: Let_def case_prod_beta heap_ok_generatorTable_row heap_ok_Point_Set
      heap_ok_NewPoint heap_ok_Double4)

lemma heap_ok_genTable: "heap_ok (s\<lparr>genTable := t\<rparr>) = heap_ok s"
  by (simp add: heap_ok_def)

lemma heap_ok_generatorTable: "heap_ok s \<Longrightarrow> heap_ok (snd (generatorTable s))"
  by (simp add: generatorTable_def Let_def case_prod_beta heap_ok_generatorTable_loop
      heap_ok_NewGenerator heap_ok_genTable split: option.splits)

lemma ScalarBaseMult_loop_Cons:
  "ScalarBaseMult_loop (byte # rest) tables tableIndex t p s =
    ScalarBaseMult_loop rest tables (tableIndex - 1 - 1) t p
      (snd (Point_Add p p t (snd (table_Select (tables ! (tableIndex - 1)) t (byte AND 0b1111)
        (snd (Point_Add p p t (snd (table_Select (tables ! tableIndex) t (drop_bit 4 byte)
          s))))))))"
proof -
  obtain s2 where 2: "table_Select (tables ! tableIndex) t (drop_bit 4 byte) s = (None, s2)"
    using table_Select_nibble(1) [of "tables ! tableIndex" t byte s]
    by (cases "table_Select (tables ! tableIndex) t (drop_bit 4 byte) s") auto
  obtain r3 s3 where 3: "Point_Add p p t s2 = (r3, s3)"
    by (rule prod.exhaust)
  obtain s4 where 4: "table_Select (tables ! (tableIndex - 1)) t (byte AND 0b1111) s3 = (None, s4)"
    using table_Select_nibble(2) [of "tables ! (tableIndex - 1)" t byte s3]
    by (cases "table_Select (tables ! (tableIndex - 1)) t (byte AND 0b1111) s3") auto
  obtain r5 s5 where 5: "Point_Add p p t s4 = (r5, s5)"
    by (rule prod.exhaust)
  show ?thesis using 2 3 4 5 by (simp add: Let_def)
qed

lemma heap_ok_ScalarBaseMult_loop:
  "heap_ok s \<Longrightarrow> heap_ok (snd (ScalarBaseMult_loop scalar tables tableIndex t p s))"
proof (induction scalar arbitrary: tableIndex s)
  case Nil
  then show ?case by simp
next
  case (Cons byte rest)
  show ?case unfolding ScalarBaseMult_loop_Cons
    by (intro Cons.IH heap_ok_Point_Add heap_ok_table_Select Cons.prems)
qed

lemma heap_ok_ScalarBaseMult: "heap_ok s \<Longrightarrow> heap_ok (snd (ScalarBaseMult p scalar s))"
  by (simp add: ScalarBaseMult_def Let_def case_prod_beta heap_ok_ScalarBaseMult_loop
      heap_ok_generatorTable heap_ok_Point_Set heap_ok_NewPoint)

text \<open>Decoding.\<close>

lemma SetBytes_valid:
  assumes "SetBytes e v = (None, x)"
  shows "valid x"
proof -
  have "fst (SetBytes e v) = None" using assms by simp
  then have "length v = 32" and "be_nat v < P" by (simp_all add: SetBytes_accepts)
  then have "SetBytes e v = (None, toMontgomery (fromBytes (rev v)))" by (rule SetBytes_value(1))
  then show ?thesis using assms by (auto simp: valid_toMontgomery)
qed

lemma valid_sqrtCandidate: "valid x \<Longrightarrow> valid (sqrtCandidate x)"
  by (simp add: sqrtCandidate_def Let_def valid_ops valid_Square_loop)

lemma parity_cond:
  fixes a c :: u8
  shows "uint ((a AND 1) XOR (c AND 1)) = 0 \<or> uint ((a AND 1) XOR (c AND 1)) = 1"
proof -
  have "a AND 1 = 0 \<or> a AND 1 = 1"
    by (cases "odd a") (simp_all add: and_one_eq mod_2_eq_odd)
  moreover have "c AND 1 = 0 \<or> c AND 1 = 1"
    by (cases "odd c") (simp_all add: and_one_eq mod_2_eq_odd)
  ultimately show ?thesis by auto
qed

lemma fi_neg_square:
  assumes "valid y"
  shows "(fi (Sub new_Element y))^2 mod int P = (fi y)^2 mod int P"
proof -
  have "fi (Sub new_Element y) = (- fi y) mod int P"
    using assms by (simp add: fi_Sub valid_new_Element fi_new_Element)
  then have "(fi (Sub new_Element y))^2 mod int P = (- fi y)^2 mod int P"
    by (simp add: power_mod)
  then show ?thesis by simp
qed

lemma point_ok_compressed:
  assumes x: "valid x"
    and s: "sqrt (polynomial x) (polynomial x) = (True, y)"
    and c: "cond = 0 \<or> cond = 1"
  shows "point_ok (Point x (Select (Sub new_Element y) y cond) One)"
proof -
  have y: "y = sqrtCandidate (polynomial x)"
    and e: "Equal (Square y) (polynomial x) = 1"
    using s by (auto simp: sqrt_def Let_def split: if_splits)
  have vy: "valid y" unfolding y using x by (simp add: valid_sqrtCandidate valid_polynomial)
  have "fi (Square y) = fi (polynomial x)" using e by (simp add: Equal_iff fi_eq_iff)
  then have q: "(fi y)^2 mod int P = ((fi x)^3 + 7) mod int P"
    using x vy by (simp add: fi_Square fi_polynomial power2_eq_square)
  show ?thesis
  proof (cases "cond = 0")
    case True
    then show ?thesis using x vy q by (simp add: Select_cond_0 point_ok_affine)
  next
    case False
    then have "cond = 1" using c by simp
    moreover have "point_ok (Point x (Sub new_Element y) One)"
      using x vy q by (intro point_ok_affine) (simp_all add: valid_Sub valid_new_Element fi_neg_square)
    ultimately show ?thesis by (simp add: Select_cond_1)
  qed
qed

lemma heap_ok_Point_SetBytes:
  assumes "heap_ok s"
  shows "heap_ok (snd (Point_SetBytes p bs s))"
proof -
  have u: "heap_ok (s\<lparr>heap := (heap s)(p := v)\<rparr>)" if "point_ok v" for v
    using assms that by (simp add: heap_ok_def)
  have 1: "heap_ok (snd (let (q, s) = NewPoint s; (p, s) = Point_Set p q s in (None :: error option, s)))"
    using assms by (simp add: Let_def case_prod_beta heap_ok_Point_Set heap_ok_NewPoint)
  have 2: "heap_ok (snd (case SetBytes new_Element xb of
        (Some err, x) \<Rightarrow> (Some err, s)
      | (None, x) \<Rightarrow>
          (case SetBytes new_Element yb of
            (Some err, y) \<Rightarrow> (Some err, s)
          | (None, y) \<Rightarrow>
              (case checkOnCurve x y of
                Some err \<Rightarrow> (Some err, s)
              | None \<Rightarrow> (None, s\<lparr>heap := (heap s)(p := Point x y One)\<rparr>)))))" for xb yb
    using assms
    by (auto split: prod.splits option.splits dest!: SetBytes_valid
        simp: checkOnCurve_iff intro!: u point_ok_affine)
  have 3: "heap_ok (snd (case SetBytes new_Element xb of
        (Some err, x) \<Rightarrow> (Some err, s)
      | (None, x) \<Rightarrow>
          let y = polynomial x;
              (isSquare, y) = sqrt y y
          in if \<not> isSquare then (Some InvalidCompressedPoint, s)
             else
               let otherRoot = new_Element;
                   otherRoot = Sub otherRoot y;
                   cond = ((Bytes y ! (ElementLength - 1)) AND 1) XOR (bs ! 0 AND 1);
                   y = Select otherRoot y (uint cond)
               in (None, s\<lparr>heap := (heap s)(p := Point x y One)\<rparr>)))" for xb
    using assms
    by (auto split: prod.splits option.splits dest!: SetBytes_valid
        simp: Let_def intro!: u point_ok_compressed parity_cond)
  show ?thesis unfolding Point_SetBytes_def using 1 2 3 assms by (simp only: split: if_splits) auto
qed

lemma heap_ok_exec: "cond_ok c \<Longrightarrow> heap_ok s \<Longrightarrow> heap_ok (exec c s)"
  by (cases c)
    (simp_all add: heap_ok_NewPoint heap_ok_NewGenerator heap_ok_Point_Set heap_ok_Point_SetBytes
      heap_ok_Point_Add heap_ok_Point_Sub heap_ok_Point_Double heap_ok_Point_Select
      heap_ok_ScalarMult heap_ok_ScalarBaseMult)

lemma heap_ok_run: "\<forall>c \<in> set cs. cond_ok c \<Longrightarrow> heap_ok s \<Longrightarrow> heap_ok (run cs s)"
  by (induction cs arbitrary: s) (simp_all add: heap_ok_exec)

lemma heap_ok_init: "heap_ok init_state"
  by (simp add: heap_ok_def init_state_def point_ok_zero)
section \<open>The curve invariant of the points of the store\<close>

lemma mod_witness: "a = q * m + r \<Longrightarrow> r < m \<Longrightarrow> a mod m = (r :: nat)"
  by simp

lemma g_point_limbs:
  "g_point = Point
     (Elem 0xd7362e5a487e2097 0x231e295329bc66db 0x979f48c033fd129c 0x9981e643e9089f48)
     (Elem 0xb15ea6d2d3dbabe2 0x8dfc5d5d1f1dc64d 0x70b6b59aac19c136 0xcf3f851fd4a582d6)
     One"
proof -
  obtain gx gy where g: "g_point = Point gx gy One" "valid gx" "valid gy"
      "fi gx = int Gx" "fi gy = int Gy"
    using g_point by blast
  have fx: "fe gx = Gx" and fy: "fe gy = Gy" using g(4,5) by (simp_all add: fi_def)
  have "val gx = (Gx * R) mod P" using valid_val [OF g(2)] by (simp add: fx)
  also have "\<dots> = 69433378337113668455105412783699478161510570509662971881309371014080806920343"
    by (rule mod_witness [where q = 55066263022277343669578718895168534326250603453777594175500187360391159250919]) (simp_all add: Gx_def R_def P_def)
  also have "\<dots> = val (Elem 0xd7362e5a487e2097 0x231e295329bc66db 0x979f48c033fd129c 0x9981e643e9089f48)"
    by (simp add: val_def val4_def)
  finally have x: "gx = Elem 0xd7362e5a487e2097 0x231e295329bc66db 0x979f48c033fd129c 0x9981e643e9089f48"
    by (rule val_inject)
  have "val gy = (Gy * R) mod P" using valid_val [OF g(3)] by (simp add: fy)
  also have "\<dots> = 93740989812233943577428291822008373258935927472951925563046116858250011585506"
    by (rule mod_witness [where q = 32670510020758816978083085130507043184471273380659243275938904335758549299266]) (simp_all add: Gy_def R_def P_def)
  also have "\<dots> = val (Elem 0xb15ea6d2d3dbabe2 0x8dfc5d5d1f1dc64d 0x70b6b59aac19c136 0xcf3f851fd4a582d6)"
    by (simp add: val_def val4_def)
  finally have y: "gy = Elem 0xb15ea6d2d3dbabe2 0x8dfc5d5d1f1dc64d 0x70b6b59aac19c136 0xcf3f851fd4a582d6"
    by (rule val_inject)
  show ?thesis using g(1) x y by simp
qed

lemma select2_not_on_curve:
  "\<not> on_curve (Point
     (Elem 0xd7362e5a487e2096 0x231e295329bc66da 0x979f48c033fd129c 0x9981e643e9089f48)
     (Elem 0xb15ea6d2d3dbabe3 0x8dfc5d5d1f1dc64c 0x70b6b59aac19c136 0xcf3f851fd4a582d6)
     (Elem 0x1000003d0 0x0 0x0 0x0))"
proof -
  have x: "fe (Elem 0xd7362e5a487e2096 0x231e295329bc66da 0x979f48c033fd129c 0x9981e643e9089f48) = 8923535060073210020847040940062668102834073784594485878631503399201969455028"
    unfolding fe_def
    by (rule mod_witness [where q = 54716394198748698520961801711874923386587198460635177408308541612749360000408]) (simp_all add: val_def val4_def Rinv_def P_def)
  have y: "fe (Elem 0xb15ea6d2d3dbabe3 0x8dfc5d5d1f1dc64c 0x70b6b59aac19c136 0xcf3f851fd4a582d6) = 53233671503606439143567722291545547997430103481079077625970627582629544702713"
    unfolding fe_def
    by (rule mod_witness [where q = 73871804512289221844691797765669876215763369165094022087466337504635007659723]) (simp_all add: val_def val4_def Rinv_def P_def)
  have z: "fe (Elem 0x1000003d0 0x0 0x0 0x0) = 24543099896132219804677334946271768408447312448018810696278588399924740088582"
    unfolding fe_def
    by (rule mod_witness [where q = 3384613894]) (simp_all add: val_def val4_def Rinv_def P_def)
  have l: "((53233671503606439143567722291545547997430103481079077625970627582629544702713 :: nat)^2 * 24543099896132219804677334946271768408447312448018810696278588399924740088582) mod P = 3653712727094259495226030969282219753016767252602978500393768890896589887815"
    by (rule mod_witness [where q = 600652606078089508158268385974774939249785972528233542070138513867031862052889977819286371273013254104317972199935928707004728801522682240314649622932561]) (simp_all add: P_def)
  have r: "((8923535060073210020847040940062668102834073784594485878631503399201969455028 :: nat)^3 + 7 * 24543099896132219804677334946271768408447312448018810696278588399924740088582^3) mod P = 15635116445750216355835335615492413176232646490240002467925719021011463806596"
    by (rule mod_witness [where q = 899868837212260070884112614982254353364926177025881871722874017115204238917773403234909359077497817983672907400642834837149213311079624720106421702417564]) (simp_all add: P_def)
  show ?thesis unfolding on_curve_def Point.sel x y z l r by simp
qed

text \<open>
  Claim C4, as amended: after any sequence of calls of the package on points in which every
  \<open>Select\<close> is called with a condition of 0 or 1, every point of the store (so every
  point the calls produced) satisfies \<open>Z = 0\<close> or \<open>Y\<^sup>2 Z = X\<^sup>3 + 7 Z\<^sup>3\<close> in the field.
\<close>

theorem api_points_on_curve:
  "\<forall>c \<in> set cs. cond_ok c \<Longrightarrow> on_curve (heap (run cs init_state) r)"
proof -
  assume "\<forall>c \<in> set cs. cond_ok c"
  then have "heap_ok (run cs init_state)" using heap_ok_init by (rule heap_ok_run)
  then have "point_ok (heap (run cs init_state) r)" by (simp add: heap_ok_def)
  then show ?thesis by (rule point_ok_on_curve)
qed

theorem api_points_on_curve_witness:
  "list_all cond_ok [Call_NewGenerator, Call_NewPoint, Call_Add 1 0 0, Call_Select 1 0 1 1]
   \<and> on_curve (heap (run [Call_NewGenerator, Call_NewPoint, Call_Add 1 0 0, Call_Select 1 0 1 1]
        init_state) 1)"
  using api_points_on_curve
    [of "[Call_NewGenerator, Call_NewPoint, Call_Add 1 0 0, Call_Select 1 0 1 1]" 1]
  by simp

text \<open>
  Claim C4 as stated fails for \<open>Select\<close> with a condition other than 0 and 1: selecting
  between a new generator and a new identity point with condition 2 takes bit 0 of every limb
  from the identity and the other bits from the generator; the result has \<open>Z \<noteq> 0\<close> and does
  not satisfy the curve equation.
\<close>

theorem Select_cond_2_off_curve:
  "\<not> on_curve (heap (run [Call_NewGenerator, Call_NewPoint, Call_Select 1 0 1 2] init_state) 1)"
proof -
  have "heap (run [Call_NewGenerator, Call_NewPoint, Call_Select 1 0 1 2] init_state) 1 =
    Point
     (Elem 0xd7362e5a487e2096 0x231e295329bc66da 0x979f48c033fd129c 0x9981e643e9089f48)
     (Elem 0xb15ea6d2d3dbabe3 0x8dfc5d5d1f1dc64c 0x70b6b59aac19c136 0xcf3f851fd4a582d6)
     (Elem 0x1000003d0 0 0 0)"
    by (simp add: NewGenerator_def NewPoint_def Point_Select_def init_state_def Let_def
        g_point_limbs Select_def cmovznz_def One_def new_Element_def)
  then show ?thesis by (simp only: select2_not_on_curve not_False_eq_True)
qed

end
